(* ===== verification/Chera_Prelude.thy ===== *)
theory Chera_Prelude
  imports Complex_Main "HOL-Library.Word" "HOL-Library.Sublist"
    "HOL-Library.Char_ord" "HOL-Library.List_Lexorder"
begin

text \<open>
  Shared by every component: the byte and string operations of Go's standard library that
  the sources use (packages \<^verbatim>\<open>strings\<close>, \<^verbatim>\<open>encoding/binary\<close>, \<^verbatim>\<open>strconv\<close>), the collections of
  simplification rules the component proofs draw on, and the interface of an
  order-preserving de-duplication pass, which four components implement in their own way.

  A Go string is a sequence of bytes; it is a HOL \<^typ>\<open>string\<close> here, whose characters are
  exactly the 256 bytes, and a \<^verbatim>\<open>[]byte\<close> is a list of 8-bit words.
  Case mapping is the ASCII path of \<^verbatim>\<open>strings.ToLower\<close> and \<^verbatim>\<open>strings.ToUpper\<close>: host names,
  environment variables and the built-in signatures are ASCII, and bytes above 127 stay as they are. White space to be trimmed is ASCII, too.
\<close>

type_synonym byte = "8 word"
type_synonym bytes = "8 word list"

named_theorems wire_simps \<open>reading and writing big-endian integers and byte runs\<close>
named_theorems outcome_defs \<open>the boolean queries on layer outcomes\<close>

section \<open>Bytes and characters\<close>

definition byte_of_char :: "char \<Rightarrow> byte" where
  "byte_of_char c = of_char c"

definition char_of_byte :: "byte \<Rightarrow> char" where
  "char_of_byte b = char_of (unat b)"

definition bytes_of :: "string \<Rightarrow> bytes" where
  "bytes_of s = map byte_of_char s"

definition string_of :: "bytes \<Rightarrow> string" where
  "string_of bs = map char_of_byte bs"

lemma char_of_byte_of_char [simp]: "char_of_byte (byte_of_char c) = c"
proof -
  have "(of_char c :: nat) < 256" by simp
  then have "unat (word_of_nat (of_char c) :: 8 word) = of_char c"
    by (simp add: unat_of_nat take_bit_eq_mod)
  moreover have "(of_char c :: 8 word) = word_of_nat (of_char c)"
    by (metis of_nat_of_char)
  ultimately show ?thesis by (simp add: char_of_byte_def byte_of_char_def)
qed

lemma string_of_bytes_of [simp]: "string_of (bytes_of s) = s"
  by (simp add: string_of_def bytes_of_def o_def)

lemma length_bytes_of [simp]: "length (bytes_of s) = length s"
  by (simp add: bytes_of_def)

lemma length_string_of [simp]: "length (string_of bs) = length bs"
  by (simp add: string_of_def)

section \<open>Package strings\<close>

definition to_lower_char :: "char \<Rightarrow> char" where
  "to_lower_char c =
     (if 65 \<le> (of_char c :: nat) \<and> (of_char c :: nat) \<le> 90
      then char_of ((of_char c :: nat) + 32) else c)"

definition to_upper_char :: "char \<Rightarrow> char" where
  "to_upper_char c =
     (if 97 \<le> (of_char c :: nat) \<and> (of_char c :: nat) \<le> 122
      then char_of ((of_char c :: nat) - 32) else c)"

definition to_lower :: "string \<Rightarrow> string" where
  "to_lower s = map to_lower_char s"

definition to_upper :: "string \<Rightarrow> string" where
  "to_upper s = map to_upper_char s"

definition has_prefix :: "string \<Rightarrow> string \<Rightarrow> bool" where
  "has_prefix s p \<longleftrightarrow> length p \<le> length s \<and> take (length p) s = p"

definition has_suffix :: "string \<Rightarrow> string \<Rightarrow> bool" where
  "has_suffix s p \<longleftrightarrow> length p \<le> length s \<and> drop (length s - length p) s = p"

definition trim_suffix :: "string \<Rightarrow> string \<Rightarrow> string" where
  "trim_suffix s p = (if has_suffix s p then take (length s - length p) s else s)"

fun str_contains :: "string \<Rightarrow> string \<Rightarrow> bool" where
  "str_contains [] sub = (sub = [])"
| "str_contains (c # s) sub = (has_prefix (c # s) sub \<or> str_contains s sub)"

text \<open>\<^verbatim>\<open>strings.Split\<close> with a one-byte separator: always at least one piece.\<close>

fun split_on :: "char \<Rightarrow> string \<Rightarrow> string list" where
  "split_on d [] = [[]]"
| "split_on d (c # s) =
     (if c = d then [] # split_on d s
      else (case split_on d s of [] \<Rightarrow> [[c]] | w # ws \<Rightarrow> (c # w) # ws))"

fun str_join :: "string list \<Rightarrow> string \<Rightarrow> string" where
  "str_join [] sep = []"
| "str_join [w] sep = w"
| "str_join (w # ws) sep = w @ sep @ str_join ws sep"

definition is_space :: "char \<Rightarrow> bool" where
  "is_space c \<longleftrightarrow> (of_char c :: nat) \<in> {9, 10, 11, 12, 13, 32}"

definition trim_space :: "string \<Rightarrow> string" where
  "trim_space s = rev (dropWhile is_space (rev (dropWhile is_space s)))"

text \<open>Decimal printing, as \<^verbatim>\<open>fmt.Sprint\<close> and \<^verbatim>\<open>strconv.Itoa\<close> do it.\<close>

function digits_of :: "nat \<Rightarrow> string" where
  "digits_of n =
     (if n < 10 then [char_of (48 + n)] else digits_of (n div 10) @ [char_of (48 + n mod 10)])"
  by pat_completeness auto
termination
  by (relation "measure id") auto

declare digits_of.simps [simp del]

definition itoa :: "int \<Rightarrow> string" where
  "itoa i = (if i < 0 then ''-'' @ digits_of (nat (- i)) else digits_of (nat i))"

section \<open>Facts about the string operations\<close>

lemma has_prefix_iff: "has_prefix s p \<longleftrightarrow> (\<exists>r. s = p @ r)"
proof
  assume "has_prefix s p"
  then have "s = p @ drop (length p) s"
    unfolding has_prefix_def by (metis append_take_drop_id)
  then show "\<exists>r. s = p @ r" ..
next
  assume "\<exists>r. s = p @ r"
  then show "has_prefix s p" by (auto simp: has_prefix_def)
qed

lemma has_suffix_iff: "has_suffix s p \<longleftrightarrow> (\<exists>r. s = r @ p)"
proof
  assume "has_suffix s p"
  then have "s = take (length s - length p) s @ p"
    unfolding has_suffix_def by (metis append_take_drop_id)
  then show "\<exists>r. s = r @ p" ..
next
  assume "\<exists>r. s = r @ p"
  then show "has_suffix s p" by (auto simp: has_suffix_def)
qed

lemma str_contains_iff: "str_contains s sub \<longleftrightarrow> (\<exists>a b. s = a @ sub @ b)"
proof (induction s)
  case Nil
  then show ?case by auto
next
  case (Cons c s)
  show ?case
  proof
    assume "str_contains (c # s) sub"
    then consider "has_prefix (c # s) sub" | "str_contains s sub" by auto
    then show "\<exists>a b. c # s = a @ sub @ b"
    proof cases
      case 1
      then show ?thesis unfolding has_prefix_iff by (metis append_Nil)
    next
      case 2
      with Cons.IH show ?thesis by (metis append_Cons)
    qed
  next
    assume "\<exists>a b. c # s = a @ sub @ b"
    then obtain a b where ab: "c # s = a @ sub @ b" by blast
    show "str_contains (c # s) sub"
    proof (cases a)
      case Nil
      with ab have "has_prefix (c # s) sub" by (auto simp: has_prefix_iff)
      then show ?thesis by simp
    next
      case (Cons a' as)
      with ab have "s = as @ sub @ b" by simp
      with \<open>str_contains s sub \<longleftrightarrow> (\<exists>a b. s = a @ sub @ b)\<close> show ?thesis by auto
    qed
  qed
qed

lemma split_on_nonempty [simp]: "split_on d s \<noteq> []"
  by (induction s) (auto split: list.splits)

lemma join_split_on [simp]: "str_join (split_on d s) [d] = s"
proof (induction s)
  case Nil
  then show ?case by simp
next
  case (Cons c s)
  obtain w ws where "split_on d s = w # ws"
    by (cases "split_on d s") auto
  with Cons show ?case by (cases ws) auto
qed

lemma split_on_no_sep: "d \<notin> set w \<Longrightarrow> split_on d w = [w]"
  by (induction w) auto

lemma split_on_app:
  assumes "d \<notin> set w"
  shows "split_on d (w @ d # s) = w # split_on d s"
  using assms by (induction w) auto

lemma split_on_join:
  assumes "ws \<noteq> []" and "\<forall>w \<in> set ws. d \<notin> set w"
  shows "split_on d (str_join ws [d]) = ws"
  using assms by (induction ws "[d]" rule: str_join.induct) (auto simp: split_on_no_sep split_on_app)

lemma split_on_pieces: "w \<in> set (split_on d s) \<Longrightarrow> d \<notin> set w"
proof (induction s arbitrary: w)
  case Nil
  then show ?case by simp
next
  case (Cons c s)
  obtain v vs where vs: "split_on d s = v # vs"
    by (cases "split_on d s") auto
  with Cons show ?case by (auto split: if_splits)
qed

lemma to_lower_char_idem [simp]: "to_lower_char (to_lower_char c) = to_lower_char c"
  by (simp add: to_lower_char_def)

lemma to_lower_idem [simp]: "to_lower (to_lower s) = to_lower s"
  by (simp add: to_lower_def)

lemma length_to_lower [simp]: "length (to_lower s) = length s"
  by (simp add: to_lower_def)

lemma to_lower_append [simp]: "to_lower (s @ t) = to_lower s @ to_lower t"
  by (simp add: to_lower_def)

lemma to_lower_Nil_iff [simp]: "to_lower s = [] \<longleftrightarrow> s = []"
  by (simp add: to_lower_def)

lemma find_SomeD: "find P xs = Some x \<Longrightarrow> x \<in> set xs \<and> P x"
  by (auto simp: find_Some_iff)

section \<open>De-duplication that keeps the first occurrence\<close>

text \<open>
  Four components collect values in order and drop a value whose key was seen before: the
  address union of package dnscheck, the targets of package presets, the variable names of
  \<^verbatim>\<open>localnet.ProxyEnv\<close> and the groups of \<^verbatim>\<open>report.Suggestions\<close>. What a pass over a list
  promises is proved here once, from what one step of it does.
\<close>

primrec dedup_by :: "('a \<Rightarrow> 'k) \<Rightarrow> 'k set \<Rightarrow> 'a list \<Rightarrow> 'a list" where
  "dedup_by key seen [] = []"
| "dedup_by key seen (x # xs) =
     (if key x \<in> seen then dedup_by key seen xs else x # dedup_by key (insert (key x) seen) xs)"

lemma dedup_by_keys: "key ` set (dedup_by key seen xs) = key ` set xs - seen"
  by (induction xs arbitrary: seen) auto

lemma dedup_by_subset: "set (dedup_by key seen xs) \<subseteq> set xs"
  by (induction xs arbitrary: seen) auto

lemma dedup_by_distinct: "distinct (map key (dedup_by key seen xs))"
proof (induction xs arbitrary: seen)
  case Nil
  then show ?case by simp
next
  case (Cons x xs)
  have "key x \<notin> key ` set (dedup_by key (insert (key x) seen) xs)"
    by (simp add: dedup_by_keys)
  with Cons show ?case by simp
qed

lemma dedup_by_id: "distinct (map key xs) \<Longrightarrow> seen \<inter> key ` set xs = {} \<Longrightarrow> dedup_by key seen xs = xs"
  by (induction xs arbitrary: seen) auto

locale ordered_dedup =
  fixes add :: "'s \<Rightarrow> 'a \<Rightarrow> 's"
    and out :: "'s \<Rightarrow> 'a list"
    and key :: "'a \<Rightarrow> 'k"
    and invar :: "'s \<Rightarrow> bool"
  assumes out_add: "invar s \<Longrightarrow>
      out (add s x) = (if key x \<in> key ` set (out s) then out s else out s @ [x])"
    and invar_add: "invar s \<Longrightarrow> invar (add s x)"
begin

lemma invar_fold: "invar s \<Longrightarrow> invar (foldl add s xs)"
  by (induction xs arbitrary: s) (auto intro: invar_add)

lemma out_fold:
  "invar s \<Longrightarrow> out (foldl add s xs) = out s @ dedup_by key (key ` set (out s)) xs"
proof (induction xs arbitrary: s)
  case Nil
  then show ?case by simp
next
  case (Cons x xs)
  then have "out (foldl add (add s x) xs) =
      out (add s x) @ dedup_by key (key ` set (out (add s x))) xs"
    by (simp add: invar_add)
  with Cons.prems show ?case by (simp add: out_add)
qed

lemma keys_fold: "invar s \<Longrightarrow> key ` set (out (foldl add s xs)) = key ` set (out s) \<union> key ` set xs"
  by (simp add: out_fold image_Un dedup_by_keys)

lemma distinct_fold:
  assumes "invar s" and "distinct (map key (out s))"
  shows "distinct (map key (out (foldl add s xs)))"
proof -
  have "key ` set (out s) \<inter> key ` set (dedup_by key (key ` set (out s)) xs) = {}"
    by (auto simp: dedup_by_keys)
  with assms show ?thesis by (auto simp: out_fold dedup_by_distinct)
qed

lemma set_fold: "invar s \<Longrightarrow> set (out (foldl add s xs)) \<subseteq> set (out s) \<union> set xs"
  using dedup_by_subset by (fastforce simp: out_fold)

end

end
