(* ===== verification/Model.thy ===== *)
theory Model
  imports Chera_Prelude
begin

text \<open>
  Package model (internal/model/model.go): the verdicts, confidence levels, targets,
  evidence and reports the layers, the verdict engine and the renderers exchange.
  A Go string type with a fixed set of constants is a datatype here, and the constant's text is
  given by a function of its own; a \<^verbatim>\<open>map[string]string\<close> is a partial map, the nil map being
  the empty one, which JSON's \<^verbatim>\<open>omitempty\<close> and \<^verbatim>\<open>len\<close> do not tell apart.
\<close>

section \<open>Verdicts and confidence\<close>

datatype verdict =
    OK | LocalNetworkDown | DNSPoisoned | DNSIntercepted | IPBlocked | ConnectionReset
  | SNIFiltered | TLSIntercepted | BlockPage | ProviderGeoBlock | Throttled
  | UpstreamOutage | Inconclusive

fun verdict_text :: "verdict \<Rightarrow> string" where
  "verdict_text OK = ''OK''"
| "verdict_text LocalNetworkDown = ''LOCAL_NETWORK_DOWN''"
| "verdict_text DNSPoisoned = ''DNS_POISONED''"
| "verdict_text DNSIntercepted = ''DNS_INTERCEPTED''"
| "verdict_text IPBlocked = ''IP_BLOCKED''"
| "verdict_text ConnectionReset = ''CONNECTION_RESET''"
| "verdict_text SNIFiltered = ''SNI_FILTERED''"
| "verdict_text TLSIntercepted = ''TLS_INTERCEPTED''"
| "verdict_text BlockPage = ''BLOCK_PAGE''"
| "verdict_text ProviderGeoBlock = ''PROVIDER_GEO_BLOCK''"
| "verdict_text Throttled = ''THROTTLED''"
| "verdict_text UpstreamOutage = ''UPSTREAM_OUTAGE''"
| "verdict_text Inconclusive = ''INCONCLUSIVE''"

definition AllVerdicts :: "verdict list" where
  "AllVerdicts =
     [OK, LocalNetworkDown, DNSPoisoned, DNSIntercepted, IPBlocked,
      ConnectionReset, SNIFiltered, TLSIntercepted, BlockPage,
      ProviderGeoBlock, Throttled, UpstreamOutage, Inconclusive]"

lemma set_AllVerdicts [simp]: "v \<in> set AllVerdicts"
  by (cases v) (simp_all add: AllVerdicts_def)

lemma distinct_AllVerdicts [simp]: "distinct AllVerdicts"
  by (simp add: AllVerdicts_def)

lemma verdict_text_inj: "verdict_text v = verdict_text w \<Longrightarrow> v = w"
  by (cases v; cases w) simp_all

datatype confidence = Low | Medium | High

fun confidence_text :: "confidence \<Rightarrow> string" where
  "confidence_text High = ''high''"
| "confidence_text Medium = ''medium''"
| "confidence_text Low = ''low''"

text \<open>The levels are ordered, so that "at least medium" can be said.\<close>

instantiation confidence :: linorder
begin

fun confidence_rank :: "confidence \<Rightarrow> nat" where
  "confidence_rank Low = 0"
| "confidence_rank Medium = 1"
| "confidence_rank High = 2"

definition less_eq_confidence :: "confidence \<Rightarrow> confidence \<Rightarrow> bool" where
  "less_eq_confidence a b \<longleftrightarrow> confidence_rank a \<le> confidence_rank b"

definition less_confidence :: "confidence \<Rightarrow> confidence \<Rightarrow> bool" where
  "less_confidence a b \<longleftrightarrow> confidence_rank a < confidence_rank b"

instance
proof
  fix x y z :: confidence
  show "(x < y) = (x \<le> y \<and> \<not> y \<le> x)"
    by (auto simp: less_eq_confidence_def less_confidence_def)
  show "x \<le> x" by (simp add: less_eq_confidence_def)
  show "x \<le> y \<Longrightarrow> y \<le> z \<Longrightarrow> x \<le> z" by (simp add: less_eq_confidence_def)
  show "x \<le> y \<Longrightarrow> y \<le> x \<Longrightarrow> x = y"
    by (cases x; cases y) (simp_all add: less_eq_confidence_def)
  show "x \<le> y \<or> y \<le> x" by (auto simp: less_eq_confidence_def)
qed

end

section \<open>Targets\<close>

record target =
  target_Host :: string
  target_URL :: string
  target_StatusPage :: string
  target_SpeedURL :: string
  target_Kind :: string

text \<open>The zero value of the struct.\<close>

definition no_target :: target where
  "no_target = \<lparr>target_Host = [], target_URL = [], target_StatusPage = [],
     target_SpeedURL = [], target_Kind = []\<rparr>"

definition CheckURL :: "target \<Rightarrow> string" where
  "CheckURL t =
     (if target_URL t \<noteq> [] then target_URL t else ''https://'' @ target_Host t @ ''/'')"

section \<open>Evidence and reports\<close>

datatype status = Pass | Fail | Warn | Info | Skip

fun status_text :: "status \<Rightarrow> string" where
  "status_text Pass = ''pass''"
| "status_text Fail = ''fail''"
| "status_text Warn = ''warn''"
| "status_text Info = ''info''"
| "status_text Skip = ''skip''"

record evidence =
  ev_Layer :: string
  ev_Check :: string
  ev_Status :: status
  ev_Detail :: string

record reason =
  reason_Key :: string
  reason_Args :: "string \<rightharpoonup> string"

record target_report =
  tr_Target :: target
  tr_Verdict :: verdict
  tr_Confidence :: confidence
  tr_Reason :: reason
  tr_Also :: "verdict list"
  tr_Evidence :: "evidence list"
  tr_Duration :: int

record local_summary =
  ls_Up :: bool
  ls_DownReason :: string
  ls_DefaultRoute :: bool
  ls_Interfaces :: "string list"
  ls_VPNInterfaces :: "string list"
  ls_ProxyEnv :: "string list"
  ls_SystemProxy :: string
  ls_Reachable :: "string list"
  ls_Unreachable :: "string list"
  ls_DNSIntercept :: bool
  ls_DoHUnreachable :: bool
  ls_ProxyFlag :: bool

record report =
  rep_Version :: string
  rep_Started :: int
  rep_Duration :: int
  rep_OS :: string
  rep_Arch :: string
  rep_Local :: local_summary
  rep_Targets :: "target_report list"

end
