(* ===== verification/Netx.thy ===== *)
theory Netx
  imports Model
begin

text \<open>
  Package netx, file netx.go: Go error values, their classification into the categories the
  verdict engine reasons about (\<^verbatim>\<open>Classify\<close>) and the one-line form used in evidence (\<^verbatim>\<open>Short\<close>).

  A Go error is a tree: a node has an identity or a dynamic type (\<open>err_kind\<close>), the answer
  of its \<^verbatim>\<open>Timeout\<close> method if it has one, whether it also has \<^verbatim>\<open>Temporary\<close> (and so is a
  \<^verbatim>\<open>net.Error\<close>), the text of \<^verbatim>\<open>Error()\<close>, and the errors it wraps. \<^verbatim>\<open>errors.Is\<close> and
  \<^verbatim>\<open>errors.As\<close> walk this tree in pre-order. The nil error is \<^const>\<open>None\<close>.
\<close>

section \<open>Error values\<close>

datatype errno =
  ECONNREFUSED | ECONNRESET | ECONNABORTED | EPIPE | EHOSTUNREACH | ENETUNREACH | EOther int

text \<open>
  The identities and types the sources test for: the TLS alert and record errors, the socket
  error numbers, \<^verbatim>\<open>context.DeadlineExceeded\<close> (and the errors whose \<^verbatim>\<open>Is\<close> method says they
  are it), \<^verbatim>\<open>os.ErrDeadlineExceeded\<close>, the two end-of-file values, \<^verbatim>\<open>net.DNSError\<close> with its
  two flags, the resolver errors of package dnscheck, and the certificate errors of
  crypto/x509. Everything else is \<open>KPlain\<close>.
\<close>

datatype err_tag =
    KAlertError
  | KRecordHeaderError
  | KErrno errno
  | KContextDeadline
  | KOsDeadline
  | KEOFError
  | KUnexpectedEOF
  | KDNSError bool bool \<comment> \<open>IsTimeout, IsNotFound\<close>
  | KNXDomain
  | KNoAnswer
  | KRCode int
  | KUnknownAuthority
  | KHostnameError
  | KCertificateInvalid bool \<comment> \<open>the reason is Expired\<close>
  | KPlain

datatype goerr = GoErr
  (err_kind: err_tag)
  (err_timeout: "bool option")
  (err_temporary: bool)
  (err_text: string)
  (err_wraps: "goerr list")

text \<open>\<^verbatim>\<open>errors.As\<close>: the first node, in pre-order, that satisfies the test.\<close>

fun find_err :: "(goerr \<Rightarrow> bool) \<Rightarrow> goerr \<Rightarrow> goerr option"
  and find_errs :: "(goerr \<Rightarrow> bool) \<Rightarrow> goerr list \<Rightarrow> goerr option" where
  "find_err p (GoErr k t tmp s ws) =
     (if p (GoErr k t tmp s ws) then Some (GoErr k t tmp s ws) else find_errs p ws)"
| "find_errs p [] = None"
| "find_errs p (w # ws) =
     (case find_err p w of Some e \<Rightarrow> Some e | None \<Rightarrow> find_errs p ws)"

text \<open>\<^verbatim>\<open>errors.Is\<close> against the values a test describes.\<close>

definition err_is :: "(err_tag \<Rightarrow> bool) \<Rightarrow> goerr \<Rightarrow> bool" where
  "err_is p e \<longleftrightarrow> find_err (\<lambda>n. p (err_kind n)) e \<noteq> None"

text \<open>\<^verbatim>\<open>fmt.Errorf\<close> with one \<^verbatim>\<open>%w\<close>, and \<^verbatim>\<open>errors.New\<close>.\<close>

definition errors_New :: "string \<Rightarrow> goerr" where
  "errors_New s = GoErr KPlain None False s []"

definition wrap_err :: "string \<Rightarrow> goerr \<Rightarrow> goerr" where
  "wrap_err pre e = GoErr KPlain None False (pre @ err_text e) [e]"

lemma find_err_wrap [simp]:
  "\<not> p (wrap_err pre e) \<Longrightarrow> find_err p (wrap_err pre e) = find_err p e"
  by (simp add: wrap_err_def split: option.splits)

lemma find_err_SomeD:
  "find_err p e = Some x \<Longrightarrow> p x"
  "find_errs p es = Some x \<Longrightarrow> p x"
proof (induction p e and p es rule: find_err_find_errs.induct)
qed (auto split: if_splits option.splits)

fun is_DNSError :: "err_tag \<Rightarrow> bool" where
  "is_DNSError (KDNSError t f) = True"
| "is_DNSError _ = False"

section \<open>Classify\<close>

datatype errkind =
    KindNone | KindTimeout | KindRefused | KindReset | KindEOF | KindUnreachable
  | KindAlert | KindDNS | KindOther

fun errkind_text :: "errkind \<Rightarrow> string" where
  "errkind_text KindNone = []"
| "errkind_text KindTimeout = ''timeout''"
| "errkind_text KindRefused = ''refused''"
| "errkind_text KindReset = ''reset''"
| "errkind_text KindEOF = ''eof''"
| "errkind_text KindUnreachable = ''unreachable''"
| "errkind_text KindAlert = ''tls_alert''"
| "errkind_text KindDNS = ''dns''"
| "errkind_text KindOther = ''other''"

text \<open>\<^verbatim>\<open>var ne net.Error; errors.As(err, &ne)\<close>: the first node with both methods.\<close>

definition is_net_error :: "goerr \<Rightarrow> bool" where
  "is_net_error n \<longleftrightarrow> err_timeout n \<noteq> None \<and> err_temporary n"

definition net_timeout :: "goerr \<Rightarrow> bool" where
  "net_timeout e = (case find_err is_net_error e of None \<Rightarrow> False | Some n \<Rightarrow> err_timeout n = Some True)"

text \<open>The typed checks of \<^verbatim>\<open>Classify\<close>, in the order of the code.\<close>

definition classify_typed :: "goerr \<Rightarrow> errkind option" where
  "classify_typed e =
     (if err_is (\<lambda>k. k = KAlertError) e then Some KindAlert
      else if err_is (\<lambda>k. k = KRecordHeaderError) e then Some KindReset
      else if err_is (\<lambda>k. k = KErrno ECONNREFUSED) e then Some KindRefused
      else if err_is (\<lambda>k. k = KErrno ECONNRESET) e \<or> err_is (\<lambda>k. k = KErrno ECONNABORTED) e
              \<or> err_is (\<lambda>k. k = KErrno EPIPE) e then Some KindReset
      else if err_is (\<lambda>k. k = KErrno EHOSTUNREACH) e \<or> err_is (\<lambda>k. k = KErrno ENETUNREACH) e
           then Some KindUnreachable
      else if err_is (\<lambda>k. k = KContextDeadline) e \<or> err_is (\<lambda>k. k = KOsDeadline) e
           then Some KindTimeout
      else if err_is (\<lambda>k. k = KEOFError) e \<or> err_is (\<lambda>k. k = KUnexpectedEOF) e
           then Some KindEOF
      else (case find_err (\<lambda>n. is_DNSError (err_kind n)) e of
          Some n \<Rightarrow> (case err_kind n of
              KDNSError t f \<Rightarrow> if t then Some KindTimeout else Some KindDNS
            | _ \<Rightarrow> None)
        | None \<Rightarrow> if net_timeout e then Some KindTimeout else None))"

text \<open>The fallback on the lower-cased message.\<close>

definition classify_msg :: "string \<Rightarrow> errkind" where
  "classify_msg msg =
     (if str_contains msg ''refused'' \<or> str_contains msg ''actively refused'' then KindRefused
      else if str_contains msg ''reset'' \<or> str_contains msg ''forcibly closed''
              \<or> str_contains msg ''broken pipe'' then KindReset
      else if str_contains msg ''unreachable'' \<or> str_contains msg ''no route'' then KindUnreachable
      else if str_contains msg ''timeout'' \<or> str_contains msg ''timed out''
              \<or> str_contains msg ''deadline exceeded'' then KindTimeout
      else if str_contains msg ''eof'' then KindEOF
      else if str_contains msg ''remote error: tls'' then KindAlert
      else KindOther)"

definition Classify :: "goerr option \<Rightarrow> errkind" where
  "Classify err =
     (case err of
        None \<Rightarrow> KindNone
      | Some e \<Rightarrow>
          (case classify_typed e of
             Some k \<Rightarrow> k
           | None \<Rightarrow> classify_msg (to_lower (err_text e))))"

section \<open>Short\<close>

text \<open>\<^verbatim>\<open>strings.LastIndex\<close>: the start of the last occurrence.\<close>

fun last_index_from :: "nat \<Rightarrow> string \<Rightarrow> string \<Rightarrow> nat option" where
  "last_index_from i [] sub = (if sub = [] then Some i else None)"
| "last_index_from i (c # s) sub =
     (case last_index_from (Suc i) s sub of
        Some j \<Rightarrow> Some j
      | None \<Rightarrow> if has_prefix (c # s) sub then Some i else None)"

definition Short :: "goerr option \<Rightarrow> string" where
  "Short err =
     (case err of
        None \<Rightarrow> []
      | Some e \<Rightarrow>
          (let s = err_text e in
           case last_index_from 0 s '': '' of
             None \<Rightarrow> s
           | Some i \<Rightarrow>
               if Classify err \<noteq> KindOther \<and> drop (i + 2) s \<noteq> [] then drop (i + 2) s else s))"

section \<open>Properties\<close>

lemma classify_msg_not_none [simp]: "classify_msg m \<noteq> KindNone" "classify_msg m \<noteq> KindDNS"
  by (simp_all add: classify_msg_def)

lemma classify_typed_not_none: "classify_typed e \<noteq> Some KindNone"
  by (auto simp: classify_typed_def split: if_splits option.splits err_tag.splits)

text \<open>No error is classified as "no error": the callers test for nil that way.\<close>

lemma Classify_none_iff: "Classify err = KindNone \<longleftrightarrow> err = None"
  using classify_typed_not_none by (auto simp: Classify_def split: option.splits)

lemma err_is_wrap [simp]: "\<not> p KPlain \<Longrightarrow> err_is p (wrap_err pre e) = err_is p e"
  by (simp add: err_is_def wrap_err_def split: option.splits)

lemma net_timeout_wrap [simp]: "net_timeout (wrap_err pre e) = net_timeout e"
  by (simp add: net_timeout_def wrap_err_def is_net_error_def split: option.splits)

lemma classify_typed_wrap: "classify_typed (wrap_err pre e) = classify_typed e"
proof -
  have "find_err (\<lambda>n. is_DNSError (err_kind n)) (wrap_err pre e) =
        find_err (\<lambda>n. is_DNSError (err_kind n)) e"
    by (rule find_err_wrap) (simp add: wrap_err_def)
  then show ?thesis by (simp add: classify_typed_def)
qed

lemma last_index_from_None: "last_index_from i s sub = None \<longleftrightarrow> \<not> str_contains s sub"
  by (induction i s sub rule: last_index_from.induct) (auto split: option.splits)

text \<open>Nothing after the start of the last occurrence holds another one.\<close>

lemma last_index_from_last:
  "last_index_from i s sub = Some j \<Longrightarrow> sub \<noteq> [] \<Longrightarrow>
     i \<le> j \<and> has_prefix (drop (j - i) s) sub \<and> \<not> str_contains (drop (Suc (j - i)) s) sub"
proof (induction i s sub arbitrary: j rule: last_index_from.induct)
  case (1 i sub)
  then show ?case by simp
next
  case (2 i c s sub)
  show ?case
  proof (cases "last_index_from (Suc i) s sub")
    case None
    with "2.prems" have "j = i \<and> has_prefix (c # s) sub" by (simp split: if_splits)
    with None show ?thesis by (simp add: last_index_from_None)
  next
    case (Some k)
    with "2.prems" have "k = j" by simp
    with Some "2.IH" "2.prems"(2) have ij: "Suc i \<le> j \<and> has_prefix (drop (j - Suc i) s) sub
        \<and> \<not> str_contains (drop (Suc (j - Suc i)) s) sub"
      by blast
    then have "j - i = Suc (j - Suc i)" by (simp add: Suc_diff_Suc)
    with ij show ?thesis by simp
  qed
qed

lemma str_contains_drop: "str_contains (drop n s) sub \<Longrightarrow> str_contains s sub"
  unfolding str_contains_iff by (metis append.assoc append_take_drop_id)

text \<open>
  The one-line form of an error is a tail of its message, empty only when the message
  is; and for an error of a known category whose message does not end in a bare prefix, no
  further "context: cause" separator is left in it: evidence shows the innermost cause.
\<close>

lemma Short_cause:
  "has_suffix (err_text e) (Short (Some e)) \<and> (Short (Some e) = [] \<longleftrightarrow> err_text e = [])
   \<and> (Classify (Some e) = KindOther \<or> has_suffix (err_text e) '': '' \<or> \<not> str_contains (Short (Some e)) '': '')"
proof (cases "last_index_from 0 (err_text e) '': ''")
  case None
  then have "Short (Some e) = err_text e" by (simp add: Short_def)
  with None show ?thesis by (simp add: last_index_from_None has_suffix_def)
next
  case (Some i)
  from last_index_from_last [OF this] have no: "\<not> str_contains (drop (i + 1) (err_text e)) '': ''"
    and pre: "has_prefix (drop i (err_text e)) '': ''"
    by simp_all
  have ends: "has_suffix (err_text e) '': ''" if "drop (i + 2) (err_text e) = []"
  proof -
    from pre obtain r where r: "drop i (err_text e) = '': '' @ r"
      unfolding has_prefix_iff by blast
    then have "drop 2 (drop i (err_text e)) = r" by simp
    with that have "r = []" by (simp add: add.commute)
    with r show ?thesis unfolding has_suffix_iff by (metis append_Nil2 append_take_drop_id)
  qed
  have tail: "drop (i + 2) s = drop 1 (drop (i + 1) s)" for s :: string
    by simp
  have suf: "has_suffix s (drop n s)" for n and s :: string
    unfolding has_suffix_iff by (metis append_take_drop_id)
  have notail: "\<not> str_contains (drop (i + 2) (err_text e)) '': ''"
    using no str_contains_drop unfolding tail by blast
  have Short: "Short (Some e) = (if Classify (Some e) \<noteq> KindOther \<and> drop (i + 2) (err_text e) \<noteq> []
      then drop (i + 2) (err_text e) else err_text e)"
    using Some by (simp add: Short_def Let_def)
  show ?thesis
  proof (cases "Classify (Some e) \<noteq> KindOther \<and> drop (i + 2) (err_text e) \<noteq> []")
    case True
    then have "Short (Some e) = drop (i + 2) (err_text e)" unfolding Short by (rule if_P)
    with True notail suf [of "err_text e" "i + 2"] show ?thesis by auto
  next
    case False
    then have "Short (Some e) = err_text e" unfolding Short by (rule if_not_P)
    moreover have "has_suffix (err_text e) (err_text e)" by (simp add: has_suffix_def)
    ultimately show ?thesis using False ends by auto
  qed
qed

text \<open>
  An error that one of the typed checks recognises keeps its category when it is
  wrapped with more context (fmt.Errorf with %w), whatever the added text says: a proxy error
  such as "connect to proxy: ..." is classified as its cause.
\<close>

lemma Classify_wrap:
  assumes "classify_typed e = Some k"
  shows "Classify (Some (wrap_err pre e)) = k \<and> Classify (Some e) = k"
  using assms by (simp add: Classify_def classify_typed_wrap)

lemma Classify_wrap_witness:
  "Classify (Some (wrap_err ''connect to proxy: refused by reset: ''
     (GoErr (KErrno ENETUNREACH) (Some False) True ''network is unreachable'' []))) = KindUnreachable"
proof -
  have "classify_typed (GoErr (KErrno ENETUNREACH) (Some False) True ''network is unreachable'' [])
      = Some KindUnreachable"
    by (simp add: classify_typed_def err_is_def)
  from Classify_wrap [OF this, of "''connect to proxy: refused by reset: ''"]
  show ?thesis by simp
qed

end
