(* ===== verification/Localnet.thy ===== *)
theory Localnet
  imports Netx
begin

text \<open>
  Package localnet (internal/localnet/localnet.go): the machine's own connectivity. The operating
  system is a parameter: the interface list, whether a route exists, the environment, the
  output of the proxy tools, and what dialing each baseline host returned. The parsers of the
  three tools' output, the VPN name rules and the summary \<^verbatim>\<open>Down\<close> are modelled in full.
\<close>

record iface =
  if_Name :: string
  if_Up :: bool
  if_Loop :: bool
  if_HasAddr :: bool
  if_VPN :: bool

record baseline_probe =
  bl_Addr :: string
  bl_OK :: bool
  bl_Err :: "goerr option"
  bl_Duration :: int

record local_result =
  lr_Interfaces :: "iface list"
  lr_DefaultRoute :: bool
  lr_Baseline :: "baseline_probe list"
  lr_ProxyEnv :: "string list"
  lr_SystemProxy :: string

definition DefaultBaseline :: "string list" where
  "DefaultBaseline = [''1.1.1.1:443'', ''8.8.8.8:443'', ''9.9.9.9:443'']"

definition DownNoInterface :: string where "DownNoInterface = ''no_interface''"
definition DownNoRoute :: string where "DownNoRoute = ''no_route''"
definition DownUnreachable :: string where "DownUnreachable = ''unreachable''"

section \<open>Down, AnyBaseline, VPNNames\<close>

fun AnyBaseline_loop :: "baseline_probe list \<Rightarrow> bool" where
  "AnyBaseline_loop [] = False"
| "AnyBaseline_loop (p # ps) = (if bl_OK p then True else AnyBaseline_loop ps)"

definition AnyBaseline :: "local_result \<Rightarrow> bool" where
  "AnyBaseline r = AnyBaseline_loop (lr_Baseline r)"

definition is_active :: "iface \<Rightarrow> bool" where
  "is_active i \<longleftrightarrow> if_Up i \<and> \<not> if_Loop i \<and> if_HasAddr i"

definition Down :: "local_result \<Rightarrow> bool \<times> string" where
  "Down r =
     (let active = foldl (\<lambda>act i. if is_active i then True else act) False (lr_Interfaces r) in
      if \<not> active \<and> 0 < length (lr_Interfaces r) then (True, DownNoInterface)
      else if \<not> lr_DefaultRoute r then (True, DownNoRoute)
      else if 0 < length (lr_Baseline r) \<and> \<not> AnyBaseline r then (True, DownUnreachable)
      else (False, []))"

definition VPNNames :: "local_result \<Rightarrow> string list" where
  "VPNNames r = map if_Name (filter (\<lambda>i. if_VPN i \<and> if_Up i \<and> if_HasAddr i) (lr_Interfaces r))"

section \<open>VPN interface names\<close>

definition vpnMarkers :: "string list" where
  "vpnMarkers =
     [''tun'', ''tap'', ''wg'', ''ppp'', ''ipsec'', ''utun'', ''tailscale'', ''zt'', ''nordlynx'',
      ''wireguard'', ''openvpn'', ''vpn'', ''proton'', ''anyconnect'', ''wintun'', ''outline'']"

definition IsVPNName :: "string \<Rightarrow> bool" where
  "IsVPNName name =
     (let n = to_lower name in
      if list_ex (str_contains n) [''teredo'', ''isatap'', ''6to4''] then False
      else if list_ex (has_prefix n) vpnMarkers then True
      else if list_ex (str_contains n)
         [''wireguard'', ''openvpn'', ''vpn'', ''tap-windows'', ''wintun'', ''anyconnect'', ''tunnel''] then True
      else False)"

text \<open>
  \<^verbatim>\<open>SystemInterfaces\<close>: what the OS lists for one interface (name, flags, addresses), with each
  address reduced to the two questions asked of it.
\<close>

record os_addr =
  oa_IsIPNet :: bool
  oa_GlobalUnicast :: bool
  oa_LinkLocal :: bool

record os_iface =
  oi_Name :: string
  oi_Up :: bool
  oi_Loopback :: bool
  oi_PointToPoint :: bool
  oi_Addrs :: "os_addr list"

definition iface_of_os :: "os_iface \<Rightarrow> iface" where
  "iface_of_os i =
     \<lparr>if_Name = oi_Name i, if_Up = oi_Up i, if_Loop = oi_Loopback i,
      if_HasAddr = list_ex (\<lambda>a. oa_IsIPNet a \<and> oa_GlobalUnicast a \<and> \<not> oa_LinkLocal a) (oi_Addrs i),
      if_VPN = (IsVPNName (oi_Name i) \<or> (oi_PointToPoint i \<and> \<not> has_prefix (oi_Name i) ''utun''))\<rparr>"

definition SystemInterfaces :: "goerr + os_iface list \<Rightarrow> goerr + iface list" where
  "SystemInterfaces ifs = (case ifs of Inl e \<Rightarrow> Inl e | Inr l \<Rightarrow> Inr (map iface_of_os l))"

text \<open>\<^verbatim>\<open>HasDefaultRoute\<close>: whether one of the two "connects" succeeds.\<close>

definition HasDefaultRoute :: "(string \<Rightarrow> goerr option) \<Rightarrow> bool" where
  "HasDefaultRoute dial_udp = list_ex (\<lambda>t. dial_udp t = None) [''192.0.2.1:9'', ''[2001:db8::1]:9'']"

section \<open>Proxy settings\<close>

definition proxyVars :: "string list" where
  "proxyVars = [''HTTP_PROXY'', ''HTTPS_PROXY'', ''ALL_PROXY'', ''http_proxy'', ''https_proxy'', ''all_proxy'']"

text \<open>One pass of the loop of \<^verbatim>\<open>ProxyEnv\<close>: the set of upper-cased names seen and the names kept.\<close>

definition proxy_step :: "(string \<Rightarrow> string) \<Rightarrow> string set \<times> string list \<Rightarrow> string \<Rightarrow> string set \<times> string list" where
  "proxy_step getenv s v =
     (case s of (seen, out) \<Rightarrow>
        if getenv v \<noteq> [] then
          (if to_upper v \<notin> seen then (insert (to_upper v) seen, out @ [v]) else (seen, out))
        else (seen, out))"

definition ProxyEnv :: "(string \<Rightarrow> string) \<Rightarrow> string list" where
  "ProxyEnv getenv = sort (snd (foldl (proxy_step getenv) ({}, []) proxyVars))"

text \<open>\<^verbatim>\<open>strings.Fields\<close>: the maximal runs of non-space bytes.\<close>

fun fields_from :: "string \<Rightarrow> string \<Rightarrow> string list" where
  "fields_from cur [] = (if cur = [] then [] else [cur])"
| "fields_from cur (c # cs) =
     (if is_space c then (if cur = [] then fields_from [] cs else cur # fields_from [] cs)
      else fields_from (cur @ [c]) cs)"

definition str_Fields :: "string \<Rightarrow> string list" where
  "str_Fields s = fields_from [] s"

definition scutil_line_enables :: "string \<Rightarrow> string \<Rightarrow> bool" where
  "scutil_line_enables k line =
     (let f = str_Fields line in length f = 3 \<and> f ! 0 = k @ ''Enable'' \<and> f ! 2 = ''1'')"

definition parseScutil :: "string \<Rightarrow> string" where
  "parseScutil s =
     str_join (concat (map (\<lambda>k. map (\<lambda>_. k) (filter (scutil_line_enables k) (split_on (char_of (10 :: nat)) s)))
                 [''HTTP'', ''HTTPS'', ''SOCKS'', ''ProxyAutoConfig'']))
       ''+''"

definition winreg_kinds :: "string \<Rightarrow> string list" where
  "winreg_kinds line =
     (let f = str_Fields line in
      (if 3 \<le> length f \<and> f ! 0 = ''ProxyEnable'' \<and> f ! 2 = ''0x1'' then [''manual''] else [])
      @ (if 3 \<le> length f \<and> f ! 0 = ''AutoConfigURL'' then [''PAC''] else []))"

definition parseWindowsReg :: "string \<Rightarrow> string" where
  "parseWindowsReg s = str_join (concat (map winreg_kinds (split_on (char_of (10 :: nat)) s))) ''+''"

text \<open>\<^verbatim>\<open>strings.Trim\<close> with a one-character cutset.\<close>

definition trim_char :: "char \<Rightarrow> string \<Rightarrow> string" where
  "trim_char c s = rev (dropWhile (\<lambda>x. x = c) (rev (dropWhile (\<lambda>x. x = c) s)))"

definition parseGSettings :: "string \<Rightarrow> string" where
  "parseGSettings s =
     (let mode = trim_char (char_of (39 :: nat)) (trim_space s) in
      if mode = ''manual'' \<or> mode = ''auto'' then mode else [])"

text \<open>\<^verbatim>\<open>DetectSystemProxy\<close>: the operating system and what its tool printed (None: it failed).\<close>

datatype goos = Darwin | Windows | Linux | OtherOS

definition DetectSystemProxy :: "goos \<Rightarrow> string option \<Rightarrow> string" where
  "DetectSystemProxy os output =
     (case os of
        Darwin \<Rightarrow> (case output of None \<Rightarrow> [] | Some s \<Rightarrow> parseScutil s)
      | Windows \<Rightarrow> (case output of None \<Rightarrow> [] | Some s \<Rightarrow> parseWindowsReg s)
      | Linux \<Rightarrow> (case output of None \<Rightarrow> [] | Some s \<Rightarrow> parseGSettings s)
      | OtherOS \<Rightarrow> [])"

section \<open>Check\<close>

text \<open>
  The environment of a run: interfaces (an error leaves the list nil), route, variables, system
  proxy, whether a dialer is configured, and the outcome of the dial to each baseline host.
\<close>

record local_env =
  le_Interfaces :: "goerr + iface list"
  le_Route :: bool
  le_Getenv :: "string \<Rightarrow> string"
  le_SystemProxy :: string
  le_HasDialer :: bool
  le_Dial :: "nat \<Rightarrow> string \<Rightarrow> goerr option \<times> int"

definition probe_baseline :: "local_env \<Rightarrow> nat \<times> string \<Rightarrow> baseline_probe" where
  "probe_baseline env ia =
     (case ia of (i, a) \<Rightarrow>
        (case le_Dial env i a of (err, d) \<Rightarrow>
           \<lparr>bl_Addr = a, bl_OK = (err = None), bl_Err = err, bl_Duration = d\<rparr>))"

definition local_Check :: "local_env \<Rightarrow> string list \<Rightarrow> local_result" where
  "local_Check env baseline =
     \<lparr>lr_Interfaces = (case le_Interfaces env of Inl e \<Rightarrow> [] | Inr l \<Rightarrow> l),
      lr_DefaultRoute = le_Route env,
      lr_Baseline = (if le_Route env \<and> le_HasDialer env then map (probe_baseline env) (enumerate 0 baseline) else []),
      lr_ProxyEnv = ProxyEnv (le_Getenv env),
      lr_SystemProxy = le_SystemProxy env\<rparr>"

section \<open>Properties\<close>

lemma AnyBaseline_iff: "AnyBaseline r \<longleftrightarrow> (\<exists>p \<in> set (lr_Baseline r). bl_OK p)"
proof -
  have "AnyBaseline_loop ps \<longleftrightarrow> (\<exists>p \<in> set ps. bl_OK p)" for ps
    by (induction ps) auto
  then show ?thesis by (simp add: AnyBaseline_def)
qed

lemma active_fold: "foldl (\<lambda>act i. if is_active i then True else act) b is \<longleftrightarrow> b \<or> (\<exists>i \<in> set is. is_active i)"
  by (induction "is" arbitrary: b) auto

lemma Down_eq:
  "Down r =
     (if lr_Interfaces r \<noteq> [] \<and> (\<forall>i \<in> set (lr_Interfaces r). \<not> is_active i) then (True, DownNoInterface)
      else if \<not> lr_DefaultRoute r then (True, DownNoRoute)
      else if lr_Baseline r \<noteq> [] \<and> (\<forall>p \<in> set (lr_Baseline r). \<not> bl_OK p) then (True, DownUnreachable)
      else (False, []))"
  by (auto simp: Down_def active_fold AnyBaseline_iff)

text \<open>
  After a full check the connection is reported down exactly when the interfaces are
  known and none is active, or there is no route, or every baseline dial failed; and a reachable
  baseline host with an active interface always means "up".
\<close>

lemma local_down_iff:
  "(fst (Down (local_Check env baseline)) \<longleftrightarrow>
      (\<exists>l. le_Interfaces env = Inr l \<and> l \<noteq> [] \<and> (\<forall>i \<in> set l. \<not> is_active i))
      \<or> \<not> le_Route env
      \<or> (le_HasDialer env \<and> baseline \<noteq> []
          \<and> (\<forall>k < length baseline. fst (le_Dial env k (baseline ! k)) \<noteq> None)))
   \<and> (snd (Down (local_Check env baseline)) = [] \<longleftrightarrow> \<not> fst (Down (local_Check env baseline)))"
proof -
  have ok: "bl_OK (probe_baseline env (k, a)) \<longleftrightarrow> fst (le_Dial env k a) = None" for k a
    by (simp add: probe_baseline_def split: prod.splits)
  have all: "(\<forall>p \<in> set (map (probe_baseline env) (enumerate 0 baseline)). \<not> bl_OK p) \<longleftrightarrow>
      (\<forall>k < length baseline. fst (le_Dial env k (baseline ! k)) \<noteq> None)"
  proof -
    have "set (enumerate 0 baseline) = (\<lambda>k. (k, baseline ! k)) ` {..< length baseline}"
      by (auto simp: in_set_enumerate_eq image_iff)
    then show ?thesis by (auto simp: ok)
  qed
  have ne: "map (probe_baseline env) (enumerate 0 baseline) = [] \<longleftrightarrow> baseline = []"
    by (cases baseline) auto
  show ?thesis
  proof (cases "le_Interfaces env")
    case (Inl e)
    then show ?thesis
      using all ne
      by (cases "le_Route env"; cases "le_HasDialer env")
        (simp_all add: Down_eq local_Check_def DownNoRoute_def DownUnreachable_def)
  next
    case (Inr l)
    then show ?thesis
      using all ne
      by (cases "l \<noteq> [] \<and> (\<forall>i \<in> set l. \<not> is_active i)"; cases "le_Route env"; cases "le_HasDialer env")
        (simp_all add: Down_eq local_Check_def DownNoInterface_def DownNoRoute_def DownUnreachable_def)
  qed
qed

text \<open>A machine with one active interface, a route and one baseline host that refuses.\<close>

definition sample_env :: local_env where
  "sample_env =
     \<lparr>le_Interfaces = Inr [\<lparr>if_Name = ''eth0'', if_Up = True, if_Loop = False, if_HasAddr = True, if_VPN = False\<rparr>],
      le_Route = True, le_Getenv = (\<lambda>v. []), le_SystemProxy = [], le_HasDialer = True,
      le_Dial = (\<lambda>i a. (Some (errors_New ''refused''), 3))\<rparr>"

lemma local_down_iff_witness:
  "fst (Down (local_Check sample_env [''1.1.1.1:443'']))"
  using local_down_iff [of sample_env "[''1.1.1.1:443'']"] by (simp add: sample_env_def)

text \<open>The de-duplication of proxy variables, for the names that are set.\<close>

interpretation proxy_names: ordered_dedup
  "\<lambda>s v. proxy_step (\<lambda>_. ''set'') s v" "snd" "to_upper" "\<lambda>s. fst s = to_upper ` set (snd s)"
  by unfold_locales (auto simp: proxy_step_def split: prod.splits)

lemma proxy_fold_filter:
  "foldl (proxy_step getenv) s vs = foldl (proxy_step (\<lambda>_. ''set'')) s (filter (\<lambda>v. getenv v \<noteq> []) vs)"
  by (induction vs arbitrary: s) (auto simp: proxy_step_def split: prod.splits)

text \<open>
  The proxy report holds names, never values: a sorted list of variable names from the
  fixed list, each of them set in the environment, no two the same up to case, and every set
  variable is represented.
\<close>

lemma ProxyEnv_spec:
  "sorted (ProxyEnv getenv)
   \<and> set (ProxyEnv getenv) \<subseteq> {v \<in> set proxyVars. getenv v \<noteq> []}
   \<and> distinct (map to_upper (ProxyEnv getenv))
   \<and> to_upper ` set (ProxyEnv getenv) = to_upper ` {v \<in> set proxyVars. getenv v \<noteq> []}"
proof -
  let ?vs = "filter (\<lambda>v. getenv v \<noteq> []) proxyVars"
  let ?out = "snd (foldl (proxy_step (\<lambda>_. ''set'')) ({}, []) ?vs)"
  have P: "ProxyEnv getenv = sort ?out"
    by (simp add: ProxyEnv_def proxy_fold_filter [of getenv])
  have init: "fst ({} :: string set, [] :: string list) = to_upper ` set (snd ({} :: string set, [] :: string list))"
    by simp
  have "distinct (map to_upper ?out)"
    using proxy_names.distinct_fold [OF init, of ?vs] by simp
  then have "distinct (map to_upper (sort ?out))"
    by (simp add: distinct_map)
  moreover have "set ?out \<subseteq> set ?vs"
    using proxy_names.set_fold [OF init, of ?vs] by simp
  moreover have "to_upper ` set ?out = to_upper ` set ?vs"
    using proxy_names.keys_fold [OF init, of ?vs] by simp
  ultimately show ?thesis by (auto simp: P)
qed

end
