(* ===== verification/Netip.thy ===== *)
theory Netip
  imports Chera_Prelude
begin

text \<open>
  The part of Go's standard package net/netip that the sources use: IPv4 and IPv6
  addresses, their classification, prefixes, parsing and printing.
  \<^verbatim>\<open>netip.Addr\<close> is a comparable value, so HOL's equality is Go's \<^verbatim>\<open>==\<close>: an IPv4 address and
  its IPv4-mapped IPv6 form are different values until \<^verbatim>\<open>Unmap\<close> is applied.
  The zero (invalid) address is never made by the sources and has no constructor.
\<close>

unbundle bit_operations_syntax

datatype addr = V4 "32 word" | V6 "128 word" string

type_synonym addr_port = "addr \<times> nat"

section \<open>Classification\<close>

definition v4_octet :: "32 word \<Rightarrow> nat \<Rightarrow> nat" where
  "v4_octet w i = unat (drop_bit (24 - 8 * i) w AND 255)"

definition v6_group :: "128 word \<Rightarrow> nat \<Rightarrow> nat" where
  "v6_group w i = unat (drop_bit (112 - 16 * i) w AND 65535)"

fun addr_Is4 :: "addr \<Rightarrow> bool" where
  "addr_Is4 (V4 w) = True"
| "addr_Is4 (V6 w z) = False"

definition addr_Is6 :: "addr \<Rightarrow> bool" where
  "addr_Is6 a = (\<not> addr_Is4 a)"

fun addr_Is4In6 :: "addr \<Rightarrow> bool" where
  "addr_Is4In6 (V4 w) = False"
| "addr_Is4In6 (V6 w z) = (drop_bit 32 w = 65535)"

fun addr_Unmap :: "addr \<Rightarrow> addr" where
  "addr_Unmap (V4 w) = V4 w"
| "addr_Unmap (V6 w z) = (if drop_bit 32 w = 65535 then V4 (ucast w) else V6 w z)"

fun addr_IsLoopback :: "addr \<Rightarrow> bool" where
  "addr_IsLoopback (V4 w) = (v4_octet w 0 = 127)"
| "addr_IsLoopback (V6 w z) = (w = 1)"

fun addr_IsMulticast :: "addr \<Rightarrow> bool" where
  "addr_IsMulticast (V4 w) = (drop_bit 28 w = 14)"
| "addr_IsMulticast (V6 w z) = (drop_bit 120 w = 255)"

fun addr_IsLinkLocalUnicast :: "addr \<Rightarrow> bool" where
  "addr_IsLinkLocalUnicast (V4 w) = (v4_octet w 0 = 169 \<and> v4_octet w 1 = 254)"
| "addr_IsLinkLocalUnicast (V6 w z) = (drop_bit 118 w = 1018)"

fun addr_IsGlobalUnicast :: "addr \<Rightarrow> bool" where
  "addr_IsGlobalUnicast (V4 w) =
     (if w = 0 \<or> w = 4294967295 then False
      else \<not> addr_IsLoopback (V4 w) \<and> \<not> addr_IsMulticast (V4 w) \<and> \<not> addr_IsLinkLocalUnicast (V4 w))"
| "addr_IsGlobalUnicast (V6 w z) =
     (V6 w z \<noteq> V6 0 [] \<and> \<not> addr_IsLoopback (V6 w z) \<and> \<not> addr_IsMulticast (V6 w z)
      \<and> \<not> addr_IsLinkLocalUnicast (V6 w z))"

fun addr_IsPrivate :: "addr \<Rightarrow> bool" where
  "addr_IsPrivate (V4 w) =
     (v4_octet w 0 = 10
      \<or> (v4_octet w 0 = 172 \<and> drop_bit 20 w AND 15 = 1)
      \<or> (v4_octet w 0 = 192 \<and> v4_octet w 1 = 168))"
| "addr_IsPrivate (V6 w z) = (drop_bit 121 w = 126)"

text \<open>An IPv4 prefix and \<^verbatim>\<open>Prefix.Contains\<close>.\<close>

datatype prefix4 = Prefix4 (prefix_ip: "32 word") (prefix_bits: nat)

fun prefix_Contains :: "prefix4 \<Rightarrow> addr \<Rightarrow> bool" where
  "prefix_Contains (Prefix4 p bits) (V4 w) = (drop_bit (32 - bits) (w XOR p) = 0)"
| "prefix_Contains (Prefix4 p bits) (V6 w z) = False"

definition v4_of :: "nat \<Rightarrow> nat \<Rightarrow> nat \<Rightarrow> nat \<Rightarrow> 32 word" where
  "v4_of a b c d = of_nat a * 16777216 + of_nat b * 65536 + of_nat c * 256 + of_nat d"

section \<open>Printing\<close>

definition hex_digit :: "nat \<Rightarrow> char" where
  "hex_digit n = (if n < 10 then char_of (48 + n) else char_of (87 + n))"

function hex_of :: "nat \<Rightarrow> string" where
  "hex_of n = (if n < 16 then [hex_digit n] else hex_of (n div 16) @ [hex_digit (n mod 16)])"
  by pat_completeness auto
termination
  by (relation "measure id") auto

declare hex_of.simps [simp del]

definition v4_string :: "32 word \<Rightarrow> string" where
  "v4_string w = str_join (map (\<lambda>i. digits_of (v4_octet w i)) [0, 1, 2, 3]) ''.''"

text \<open>The first longest run of at least two zero groups is written as a double colon.\<close>

definition zero_run :: "nat list \<Rightarrow> nat \<Rightarrow> nat" where
  "zero_run gs i = length (takeWhile (\<lambda>g. g = 0) (drop i gs))"

definition best_zero_run :: "nat list \<Rightarrow> (nat \<times> nat) option" where
  "best_zero_run gs =
     foldl (\<lambda>best i. let l = zero_run gs i in
              if 2 \<le> l \<and> (case best of None \<Rightarrow> True | Some (s, k) \<Rightarrow> k < l)
              then Some (i, l) else best)
       None [0 ..< length gs]"

definition v6_groups_string :: "nat list \<Rightarrow> string" where
  "v6_groups_string gs =
     (case best_zero_run gs of
        None \<Rightarrow> str_join (map hex_of gs) '':''
      | Some (s, l) \<Rightarrow> str_join (map hex_of (take s gs)) '':'' @ ''::''
                        @ str_join (map hex_of (drop (s + l) gs)) '':'')"

fun addr_String :: "addr \<Rightarrow> string" where
  "addr_String (V4 w) = v4_string w"
| "addr_String (V6 w z) =
     (if drop_bit 32 w = 65535 then ''::ffff:'' @ v4_string (ucast w)
      else v6_groups_string (map (v6_group w) [0, 1, 2, 3, 4, 5, 6, 7]))
     @ (if z = [] then [] else ''%'' @ z)"

fun addr_port_String :: "addr_port \<Rightarrow> string" where
  "addr_port_String (V4 w, p) = v4_string w @ '':'' @ digits_of p"
| "addr_port_String (V6 w z, p) = ''['' @ addr_String (V6 w z) @ '']:'' @ digits_of p"

section \<open>Parsing\<close>

definition is_digit :: "char \<Rightarrow> bool" where
  "is_digit c \<longleftrightarrow> 48 \<le> (of_char c :: nat) \<and> (of_char c :: nat) \<le> 57"

definition digit_val :: "char \<Rightarrow> nat" where
  "digit_val c = (of_char c :: nat) - 48"

text \<open>One decimal field: at least one digit, no leading zero, at most 255.\<close>

fun parse_octet_from :: "nat \<Rightarrow> nat \<Rightarrow> string \<Rightarrow> nat option" where
  "parse_octet_from val len [] = (if len = 0 then None else Some val)"
| "parse_octet_from val len (c # cs) =
     (if \<not> is_digit c \<or> (len = 1 \<and> val = 0) \<or> 255 < val * 10 + digit_val c then None
      else parse_octet_from (val * 10 + digit_val c) (Suc len) cs)"

definition parse_octet :: "string \<Rightarrow> nat option" where
  "parse_octet s = parse_octet_from 0 0 s"

definition parse_v4 :: "string \<Rightarrow> (nat \<times> nat \<times> nat \<times> nat) option" where
  "parse_v4 s =
     (case map parse_octet (split_on (CHR ''.'') s) of
        [Some a, Some b, Some c, Some d] \<Rightarrow> Some (a, b, c, d)
      | _ \<Rightarrow> None)"

definition hex_val :: "char \<Rightarrow> nat option" where
  "hex_val c =
     (let n = (of_char c :: nat) in
      if 48 \<le> n \<and> n \<le> 57 then Some (n - 48)
      else if 97 \<le> n \<and> n \<le> 102 then Some (n - 87)
      else if 65 \<le> n \<and> n \<le> 70 then Some (n - 55)
      else None)"

text \<open>The leading run of hex digits, the group it denotes, and the rest.\<close>

fun take_hex :: "nat \<Rightarrow> string \<Rightarrow> nat \<times> string \<times> nat" where
  "take_hex acc [] = (acc, [], 0)"
| "take_hex acc (c # cs) =
     (case hex_val c of
        None \<Rightarrow> (acc, c # cs, 0)
      | Some v \<Rightarrow> (case take_hex (acc * 16 + v) cs of (a, r, n) \<Rightarrow> (a, r, Suc n)))"

text \<open>
  The group loop of \<^verbatim>\<open>parseIPv6\<close>: \<open>gs\<close> are the 16-bit groups read so far (the code's byte
  index is twice their number) and \<open>ell\<close> the position of the double colon. It stops after
  eight groups, so eight units of \<open>fuel\<close> are enough.
\<close>

fun parse_v6_groups ::
  "nat \<Rightarrow> string \<Rightarrow> nat list \<Rightarrow> nat option \<Rightarrow> (string \<times> nat list \<times> nat option) option" where
  "parse_v6_groups 0 s gs ell = Some (s, gs, ell)"
| "parse_v6_groups (Suc fuel) s gs ell =
     (if 8 \<le> length gs then Some (s, gs, ell)
      else (case take_hex 0 s of (acc, rest, n) \<Rightarrow>
        if n = 0 \<or> 4 < n then None
        else (case rest of
            [] \<Rightarrow> Some ([], gs @ [acc], ell)
          | c # rest' \<Rightarrow>
              if c = CHR ''.'' then
                (if ell = None \<and> length gs \<noteq> 6 \<or> 6 < length gs then None
                 else (case parse_v4 s of
                     None \<Rightarrow> None
                   | Some (a, b, x, y) \<Rightarrow> Some ([], gs @ [a * 256 + b, x * 256 + y], ell)))
              else if c \<noteq> CHR '':'' then None
              else (case rest' of
                  [] \<Rightarrow> None
                | d # rest'' \<Rightarrow>
                    if d = CHR '':'' then
                      (if ell \<noteq> None then None
                       else if rest'' = [] then Some ([], gs @ [acc], Some (Suc (length gs)))
                       else parse_v6_groups fuel rest'' (gs @ [acc]) (Some (Suc (length gs))))
                    else parse_v6_groups fuel rest' (gs @ [acc]) ell))))"

definition expand_v6 :: "string \<times> nat list \<times> nat option \<Rightarrow> nat list option" where
  "expand_v6 r =
     (case r of (s, gs, ell) \<Rightarrow>
        if s \<noteq> [] then None
        else if length gs < 8 then
          (case ell of None \<Rightarrow> None
           | Some e \<Rightarrow> Some (take e gs @ replicate (8 - length gs) 0 @ drop e gs))
        else if ell \<noteq> None then None else Some gs)"

definition v6_of_groups :: "nat list \<Rightarrow> 128 word" where
  "v6_of_groups gs = foldl (\<lambda>w g. push_bit 16 w OR of_nat g) 0 gs"

definition parse_v6 :: "string \<Rightarrow> addr option" where
  "parse_v6 inp =
     (let s = takeWhile (\<lambda>c. c \<noteq> CHR ''%'') inp; zone = drop (Suc (length s)) inp in
      if length s < length inp \<and> zone = [] then None
      else if has_prefix s ''::'' then
        (if s = ''::'' then Some (V6 0 zone)
         else map_option (\<lambda>gs. V6 (v6_of_groups gs) zone)
                (Option.bind (parse_v6_groups 8 (drop 2 s) [] (Some 0)) expand_v6))
      else map_option (\<lambda>gs. V6 (v6_of_groups gs) zone)
             (Option.bind (parse_v6_groups 8 s [] None) expand_v6))"

definition ParseAddr :: "string \<Rightarrow> addr option" where
  "ParseAddr s =
     (case find (\<lambda>c. c \<in> {CHR ''.'', CHR '':'', CHR ''%''}) s of
        None \<Rightarrow> None
      | Some c \<Rightarrow>
          if c = CHR ''.'' then
            (case parse_v4 s of None \<Rightarrow> None | Some (a, b, x, y) \<Rightarrow> Some (V4 (v4_of a b x y)))
          else if c = CHR '':'' then parse_v6 s
          else None)"

section \<open>Facts about addresses\<close>

lemma addr_Unmap_idem [simp]: "addr_Unmap (addr_Unmap a) = addr_Unmap a"
  by (cases a) auto

lemma unat_drop: "unat (drop_bit n w) = unat (w :: 'a::len word) div 2 ^ n"
  by (metis unat_drop_bit_eq drop_bit_eq_div)

lemma unat_low_octet: "unat (w AND 255 :: 32 word) = unat w mod 256"
proof -
  have "w AND 255 = take_bit 8 w"
    by (simp add: take_bit_eq_mask mask_eq_exp_minus_1)
  then show ?thesis by (simp add: take_bit_eq_mod unat_mod_distrib)
qed

lemma v4_octet_eq: "v4_octet w i = (unat w div 2 ^ (24 - 8 * i)) mod 256"
  by (simp only: v4_octet_def unat_low_octet unat_drop)

lemma v4_octet_0: "v4_octet w 0 = unat w div 16777216"
proof -
  have "unat w < 4294967296" using unsigned_less [of w, where ?'a = nat] by simp
  then show ?thesis by (simp add: v4_octet_eq)
qed

lemma prefix_Contains_iff:
  "prefix_Contains (Prefix4 p bits) (V4 w) \<longleftrightarrow>
     unat w div 2 ^ (32 - bits) = unat p div 2 ^ (32 - bits)"
proof -
  have "drop_bit n (w XOR p) = 0 \<longleftrightarrow> drop_bit n w = drop_bit n p" for n
  proof -
    have "drop_bit n (w XOR p) = drop_bit n w XOR drop_bit n p"
      by (rule drop_bit_xor)
    moreover have "x XOR y = 0 \<longleftrightarrow> x = y" for x y :: "32 word"
      by (metis xor.assoc xor.left_neutral xor.right_neutral xor_self_eq)
    ultimately show ?thesis by simp
  qed
  then show ?thesis
    by (simp only: prefix_Contains.simps word_unat_eq_iff unat_drop)
qed

end
