(* ===== verification/Gonet.thy ===== *)
theory Gonet
  imports Netip Netx
begin

text \<open>
  The parts of Go's fmt, strconv, net and net/url that the proxy dialer, the resolver defaults and
  the command line use: quoting, decimal integers, \<^verbatim>\<open>net.SplitHostPort\<close>, \<^verbatim>\<open>net.JoinHostPort\<close>,
  \<^verbatim>\<open>net.ParseIP\<close>, and the host and port of a parsed URL. \<^verbatim>\<open>url.Parse\<close> itself is a parameter of
  the code that calls it.
\<close>

section \<open>Quoting and integers\<close>

text \<open>\<^verbatim>\<open>%q\<close> on text whose non-ASCII part is printable.\<close>

definition hex2 :: "nat \<Rightarrow> string" where
  "hex2 n = [hex_digit (n div 16), hex_digit (n mod 16)]"

definition quote_char :: "char \<Rightarrow> string" where
  "quote_char c =
     (let n = (of_char c :: nat) in
      if n = 34 then [char_of (92 :: nat), c]
      else if n = 92 then [c, c]
      else if n = 7 then char_of (92 :: nat) # ''a''
      else if n = 8 then char_of (92 :: nat) # ''b''
      else if n = 12 then char_of (92 :: nat) # ''f''
      else if n = 10 then char_of (92 :: nat) # ''n''
      else if n = 13 then char_of (92 :: nat) # ''r''
      else if n = 9 then char_of (92 :: nat) # ''t''
      else if n = 11 then char_of (92 :: nat) # ''v''
      else if n < 32 \<or> n = 127 then char_of (92 :: nat) # ''x'' @ hex2 n
      else [c])"

definition go_quote :: "string \<Rightarrow> string" where
  "go_quote s = char_of (34 :: nat) # concat (map quote_char s) @ [char_of (34 :: nat)]"

definition go_Atoi :: "string \<Rightarrow> int option" where
  "go_Atoi s =
     (let sgn = (if s \<noteq> [] \<and> hd s = CHR ''-'' then - 1 else 1);
          ds = (if s \<noteq> [] \<and> hd s \<in> {CHR ''-'', CHR ''+''} then tl s else s);
          n = sgn * int (foldl (\<lambda>a c. a * 10 + digit_val c) 0 ds)
      in if ds = [] \<or> \<not> list_all is_digit ds \<or> n < - (2 ^ 63) \<or> 2 ^ 63 \<le> n then None else Some n)"

section \<open>Hosts and ports\<close>

definition last_index :: "char \<Rightarrow> string \<Rightarrow> nat option" where
  "last_index c s = (if c \<in> set s then Some (length s - 1 - length (takeWhile (\<lambda>d. d \<noteq> c) (rev s))) else None)"

definition first_index :: "char \<Rightarrow> string \<Rightarrow> nat option" where
  "first_index c s = (if c \<in> set s then Some (length (takeWhile (\<lambda>d. d \<noteq> c) s)) else None)"

definition addr_error :: "string \<Rightarrow> string \<Rightarrow> goerr" where
  "addr_error why address =
     GoErr KPlain (Some False) True (''address '' @ address @ '': '' @ why) []"

text \<open>\<open>split_rest\<close> is the end of \<^verbatim>\<open>SplitHostPort\<close>: the checks behind positions \<open>j\<close> and \<open>k\<close>.\<close>

definition split_rest :: "string \<Rightarrow> string \<Rightarrow> nat \<Rightarrow> nat \<Rightarrow> nat \<Rightarrow> goerr + string \<times> string" where
  "split_rest hostport host j k i =
     (if CHR ''['' \<in> set (drop j hostport) then Inl (addr_error ''unexpected '[' in address'' hostport)
      else if CHR '']'' \<in> set (drop k hostport) then Inl (addr_error ''unexpected ']' in address'' hostport)
      else Inr (host, drop (i + 1) hostport))"

definition net_SplitHostPort :: "string \<Rightarrow> goerr + string \<times> string" where
  "net_SplitHostPort hostport =
     (case last_index (CHR '':'') hostport of
        None \<Rightarrow> Inl (addr_error ''missing port in address'' hostport)
      | Some i \<Rightarrow>
          if hd hostport = CHR ''['' then
            (case first_index (CHR '']'') hostport of
               None \<Rightarrow> Inl (addr_error ''missing ']' in address'' hostport)
             | Some e \<Rightarrow>
                 if e + 1 = length hostport then Inl (addr_error ''missing port in address'' hostport)
                 else if e + 1 = i then split_rest hostport (take (e - 1) (drop 1 hostport)) 1 (e + 1) i
                 else if hostport ! (e + 1) = CHR '':'' then Inl (addr_error ''too many colons in address'' hostport)
                 else Inl (addr_error ''missing port in address'' hostport))
          else if CHR '':'' \<in> set (take i hostport) then Inl (addr_error ''too many colons in address'' hostport)
          else split_rest hostport (take i hostport) 0 0 i)"

definition net_JoinHostPort :: "string \<Rightarrow> string \<Rightarrow> string" where
  "net_JoinHostPort host port =
     (if CHR '':'' \<in> set host then ''['' @ host @ '']:'' @ port else host @ '':'' @ port)"

text \<open>\<^verbatim>\<open>net.ParseIP\<close> refuses zones; \<^verbatim>\<open>To4\<close> also unwraps the mapped form.\<close>

definition net_ParseIP :: "string \<Rightarrow> addr option" where
  "net_ParseIP s =
     (case ParseAddr s of
        Some (V6 w z) \<Rightarrow> if z = [] then Some (V6 w []) else None
      | r \<Rightarrow> r)"

section \<open>URLs\<close>

record url =
  url_Scheme :: string
  url_User :: "(string \<times> string) option"
  url_Host :: string

definition valid_optional_port :: "string \<Rightarrow> bool" where
  "valid_optional_port p = (case p of [] \<Rightarrow> True | c # ds \<Rightarrow> c = CHR '':'' \<and> list_all is_digit ds)"

definition url_split :: "string \<Rightarrow> string \<times> string" where
  "url_split hostport =
     (let (host, port) = (case last_index (CHR '':'') hostport of
            Some i \<Rightarrow> if valid_optional_port (drop i hostport) then (take i hostport, drop (i + 1) hostport)
                      else (hostport, [])
          | None \<Rightarrow> (hostport, []))
      in (if has_prefix host ''['' \<and> has_suffix host '']'' then butlast (tl host) else host, port))"

definition url_Hostname :: "url \<Rightarrow> string" where "url_Hostname u = fst (url_split (url_Host u))"

definition url_Port :: "url \<Rightarrow> string" where "url_Port u = snd (url_split (url_Host u))"

section \<open>Facts\<close>

lemma takeWhile_sep [simp]: "d \<notin> set w \<Longrightarrow> takeWhile (\<lambda>c. c \<noteq> d) (w @ d # s) = w"
  by (induction w) auto

lemma split_join_plain:
  assumes "CHR '':'' \<notin> set host" "CHR ''['' \<notin> set host" "CHR '']'' \<notin> set host"
    and "CHR '':'' \<notin> set port" "CHR ''['' \<notin> set port" "CHR '']'' \<notin> set port"
  shows "net_SplitHostPort (net_JoinHostPort host port) = Inr (host, port)"
proof -
  let ?s = "host @ '':'' @ port"
  have "takeWhile (\<lambda>d. d \<noteq> CHR '':'') (rev ?s) = rev port"
    using assms(4) by simp
  then have i: "last_index (CHR '':'') ?s = Some (length host)" by (simp add: last_index_def)
  have "hd ?s \<noteq> CHR ''[''" using assms(2) by (cases host) auto
  with i assms show ?thesis by (simp add: net_JoinHostPort_def net_SplitHostPort_def split_rest_def)
qed

lemma split_join_bracketed:
  assumes "CHR '':'' \<in> set host" "CHR ''['' \<notin> set host" "CHR '']'' \<notin> set host"
    and "CHR '':'' \<notin> set port" "CHR ''['' \<notin> set port" "CHR '']'' \<notin> set port"
  shows "net_SplitHostPort (net_JoinHostPort host port) = Inr (host, port)"
proof -
  let ?s = "''['' @ host @ '']:'' @ port"
  have "takeWhile (\<lambda>d. d \<noteq> CHR '':'') (rev ?s) = rev port"
    using assms(4) by simp
  then have i: "last_index (CHR '':'') ?s = Some (length host + 2)" by (simp add: last_index_def)
  have "takeWhile (\<lambda>d. d \<noteq> CHR '']'') ?s = ''['' @ host"
    using assms(3) takeWhile_sep [of "CHR '']''" "CHR ''['' # host" "CHR '':'' # port"] by simp
  then have e: "first_index (CHR '']'') ?s = Some (length host + 1)" by (simp add: first_index_def)
  from i e assms show ?thesis by (simp add: net_JoinHostPort_def net_SplitHostPort_def split_rest_def)
qed

text \<open>What is joined is split again.\<close>

lemma split_join:
  assumes "CHR ''['' \<notin> set host" "CHR '']'' \<notin> set host"
    and "CHR '':'' \<notin> set port" "CHR ''['' \<notin> set port" "CHR '']'' \<notin> set port"
  shows "net_SplitHostPort (net_JoinHostPort host port) = Inr (host, port)"
  using assms split_join_plain split_join_bracketed by blast

end
