(* ===== verification/Signatures.thy ===== *)
theory Signatures
  imports Gonet
begin

text \<open>
  Package signatures (internal/signatures/signatures.go): the lists that recognise filtering.
  The YAML decoder is a third-party package, so a decoded \<^verbatim>\<open>File\<close> is where the model starts:
  \<open>validate_file\<close> is what \<^verbatim>\<open>Parse\<close> checks after decoding, \<open>sig_Parse\<close> the whole of it
  with the decoder as an argument, and \<open>sig_MergeFile\<close> takes what \<^verbatim>\<open>os.ReadFile\<close> returned.
  The map \<^verbatim>\<open>BlockIPs\<close> holds only the value true, so it is the set of its keys.
\<close>

section \<open>Data\<close>

record block_page_sig =
  bp_Name :: string
  bp_URLContains :: "string list"
  bp_BodyContains :: "string list"

record geo_block_sig =
  gb_Name :: string
  gb_HostSuffix :: string
  gb_Status :: "int list"
  gb_BodyContains :: "string list"

record sig_file =
  sf_BlockIPs :: "string list"
  sf_BlockPages :: "block_page_sig list"
  sf_GeoBlocks :: "geo_block_sig list"
  sf_InterceptionIssuers :: "string list"

record sig_set =
  sg_BlockIPs :: "addr set"
  sg_BlockPages :: "block_page_sig list"
  sg_GeoBlocks :: "geo_block_sig list"
  sg_InterceptionIssuers :: "string list"

datatype sig_error =
    SigDecode string
  | SigBadAddress string
  | SigPageWithoutName
  | SigGeoIncomplete string
  | SigRead string
  | SigInFile string sig_error
  | SigPanic \<comment> \<open>\<^verbatim>\<open>MustParseAddr\<close> on a bad address\<close>

fun sig_error_text :: "sig_error \<Rightarrow> string" where
  "sig_error_text (SigDecode e) = ''parse signatures: '' @ e"
| "sig_error_text (SigBadAddress ip) = ''block_ips: invalid address '' @ go_quote ip"
| "sig_error_text SigPageWithoutName = ''block_pages: entry without name''"
| "sig_error_text (SigGeoIncomplete name) = ''geo_blocks: '' @ go_quote name @ '' needs a name and body_contains''"
| "sig_error_text (SigRead e) = e"
| "sig_error_text (SigInFile path e) = path @ '': '' @ sig_error_text e"
| "sig_error_text SigPanic = ''panic''"

section \<open>Parsing and merging\<close>

definition validate_file :: "sig_file \<Rightarrow> sig_error + sig_file" where
  "validate_file f =
     (case find (\<lambda>ip. ParseAddr ip = None) (sf_BlockIPs f) of
        Some ip \<Rightarrow> Inl (SigBadAddress ip)
      | None \<Rightarrow>
          (case find (\<lambda>b. bp_Name b = []) (sf_BlockPages f) of
             Some b \<Rightarrow> Inl SigPageWithoutName
           | None \<Rightarrow>
               (case find (\<lambda>g. gb_Name g = [] \<or> gb_BodyContains g = []) (sf_GeoBlocks f) of
                  Some g \<Rightarrow> Inl (SigGeoIncomplete (gb_Name g))
                | None \<Rightarrow> Inr f)))"

definition sig_Parse :: "(bytes \<Rightarrow> string + sig_file) \<Rightarrow> bytes \<Rightarrow> sig_error + sig_file" where
  "sig_Parse decode data =
     (case decode data of Inl e \<Rightarrow> Inl (SigDecode e) | Inr f \<Rightarrow> validate_file f)"

definition sig_New :: sig_set where
  "sig_New = \<lparr>sg_BlockIPs = {}, sg_BlockPages = [], sg_GeoBlocks = [], sg_InterceptionIssuers = []\<rparr>"

text \<open>The loop over \<^verbatim>\<open>f.BlockIPs\<close>; \<^verbatim>\<open>MustParseAddr\<close> panics on an address that does not parse.\<close>

fun merge_block_ips :: "addr set \<Rightarrow> string list \<Rightarrow> sig_error + addr set" where
  "merge_block_ips s [] = Inr s"
| "merge_block_ips s (ip # ips) =
     (case ParseAddr ip of
        None \<Rightarrow> Inl SigPanic
      | Some a \<Rightarrow> merge_block_ips (insert (addr_Unmap a) s) ips)"

definition sig_Merge :: "sig_set \<Rightarrow> sig_file \<Rightarrow> sig_error + sig_set" where
  "sig_Merge s f =
     (case merge_block_ips (sg_BlockIPs s) (sf_BlockIPs f) of
        Inl e \<Rightarrow> Inl e
      | Inr ips \<Rightarrow> Inr (s\<lparr>sg_BlockIPs := ips,
            sg_BlockPages := sg_BlockPages s @ sf_BlockPages f,
            sg_GeoBlocks := sg_GeoBlocks s @ sf_GeoBlocks f,
            sg_InterceptionIssuers := sg_InterceptionIssuers s @ sf_InterceptionIssuers f\<rparr>))"

text \<open>The embedded signatures: \<^verbatim>\<open>Builtin\<close> panics when they do not parse.\<close>

definition sig_Builtin :: "(bytes \<Rightarrow> string + sig_file) \<Rightarrow> bytes \<Rightarrow> sig_error + sig_set" where
  "sig_Builtin decode builtin =
     (case sig_Parse decode builtin of Inl e \<Rightarrow> Inl SigPanic | Inr f \<Rightarrow> sig_Merge sig_New f)"

text \<open>What reading a file gave: its bytes, that it does not exist, or another error.\<close>

datatype read_result = ReadOK bytes | ReadNotExist string | ReadError string

definition sig_MergeFile ::
  "(bytes \<Rightarrow> string + sig_file) \<Rightarrow> sig_set \<Rightarrow> string \<Rightarrow> read_result \<Rightarrow> bool \<Rightarrow> sig_error + sig_set" where
  "sig_MergeFile decode s path contents optional =
     (case contents of
        ReadNotExist e \<Rightarrow> if optional then Inr s else Inl (SigRead e)
      | ReadError e \<Rightarrow> Inl (SigRead e)
      | ReadOK data \<Rightarrow>
          (case sig_Parse decode data of
             Inl e \<Rightarrow> Inl (SigInFile path e)
           | Inr f \<Rightarrow> sig_Merge s f))"

section \<open>Matching\<close>

definition IsBlockIP :: "sig_set \<Rightarrow> addr \<Rightarrow> bool" where
  "IsBlockIP s a \<longleftrightarrow> addr_Unmap a \<in> sg_BlockIPs s"

definition hasHostSuffix :: "string \<Rightarrow> string \<Rightarrow> bool" where
  "hasHostSuffix host suf \<longleftrightarrow> host = suf \<or> has_suffix host (''.'' @ suf)"

fun containsAny :: "string \<Rightarrow> string list \<Rightarrow> bool" where
  "containsAny s [] = False"
| "containsAny s (n # ns) = ((n \<noteq> [] \<and> str_contains s (to_lower n)) \<or> containsAny s ns)"

fun containsInt :: "int list \<Rightarrow> int \<Rightarrow> bool" where
  "containsInt [] v = False"
| "containsInt (x # xs) v = (x = v \<or> containsInt xs v)"

fun match_pages :: "string \<Rightarrow> string \<Rightarrow> block_page_sig list \<Rightarrow> string" where
  "match_pages loc b [] = []"
| "match_pages loc b (p # ps) =
     (if loc \<noteq> [] \<and> containsAny loc (bp_URLContains p) then bp_Name p
      else if b \<noteq> [] \<and> containsAny b (bp_BodyContains p) then bp_Name p
      else match_pages loc b ps)"

definition MatchBlockPage :: "sig_set \<Rightarrow> string \<Rightarrow> string \<Rightarrow> string" where
  "MatchBlockPage s location body = match_pages (to_lower location) (to_lower body) (sg_BlockPages s)"

fun match_geo :: "string \<Rightarrow> int \<Rightarrow> string \<Rightarrow> geo_block_sig list \<Rightarrow> string" where
  "match_geo host st b [] = []"
| "match_geo host st b (g # gs) =
     (if gb_HostSuffix g \<noteq> [] \<and> \<not> hasHostSuffix host (to_lower (gb_HostSuffix g))
      then match_geo host st b gs
      else if gb_Status g \<noteq> [] \<and> \<not> containsInt (gb_Status g) st then match_geo host st b gs
      else if containsAny b (gb_BodyContains g) then gb_Name g
      else match_geo host st b gs)"

definition MatchGeoBlock :: "sig_set \<Rightarrow> string \<Rightarrow> int \<Rightarrow> string \<Rightarrow> string" where
  "MatchGeoBlock s host st body = match_geo (to_lower host) st (to_lower body) (sg_GeoBlocks s)"

fun match_issuer :: "string \<Rightarrow> string list \<Rightarrow> string" where
  "match_issuer is [] = []"
| "match_issuer is (n # ns) = (if str_contains is (to_lower n) then n else match_issuer is ns)"

definition MatchInterceptionIssuer :: "sig_set \<Rightarrow> string \<Rightarrow> string" where
  "MatchInterceptionIssuer s issuer = match_issuer (to_lower issuer) (sg_InterceptionIssuers s)"

section \<open>Well-formed sets\<close>

text \<open>
  What loading guarantees: block addresses are stored unmapped, every block page and every
  geo-block has a name, and no geo-block matches on an empty list of body strings.
\<close>

definition wf_sigs :: "sig_set \<Rightarrow> bool" where
  "wf_sigs s \<longleftrightarrow>
     (\<forall>a \<in> sg_BlockIPs s. addr_Unmap a = a)
     \<and> (\<forall>p \<in> set (sg_BlockPages s). bp_Name p \<noteq> [])
     \<and> (\<forall>g \<in> set (sg_GeoBlocks s). gb_Name g \<noteq> [] \<and> gb_BodyContains g \<noteq> [])"

lemma wf_sig_New [simp]: "wf_sigs sig_New"
  by (simp add: wf_sigs_def sig_New_def)

lemma validate_file_Inr:
  "validate_file f = Inr g \<Longrightarrow> g = f
     \<and> (\<forall>ip \<in> set (sf_BlockIPs f). ParseAddr ip \<noteq> None)
     \<and> (\<forall>p \<in> set (sf_BlockPages f). bp_Name p \<noteq> [])
     \<and> (\<forall>x \<in> set (sf_GeoBlocks f). gb_Name x \<noteq> [] \<and> gb_BodyContains x \<noteq> [])"
  by (auto simp: validate_file_def find_None_iff split: option.splits)

lemma merge_block_ips_ok:
  "\<forall>ip \<in> set ips. ParseAddr ip \<noteq> None \<Longrightarrow>
   merge_block_ips s ips = Inr (s \<union> (\<lambda>ip. addr_Unmap (the (ParseAddr ip))) ` set ips)"
  by (induction ips arbitrary: s) auto

text \<open>
  Loading a signatures file never panics and keeps a set well formed: after
  \<^verbatim>\<open>Parse\<close> accepted a file, \<^verbatim>\<open>Merge\<close> succeeds on any set, the result is well formed, and it
  still holds everything the set held (user files extend, never remove).
\<close>

lemma sig_merge_parsed:
  assumes "wf_sigs s" and "sig_Parse decode data = Inr f"
  shows "\<exists>s'. sig_Merge s f = Inr s' \<and> wf_sigs s'
           \<and> sg_BlockIPs s \<subseteq> sg_BlockIPs s'
           \<and> sg_BlockPages s' = sg_BlockPages s @ sf_BlockPages f
           \<and> sg_GeoBlocks s' = sg_GeoBlocks s @ sf_GeoBlocks f
           \<and> sg_InterceptionIssuers s' = sg_InterceptionIssuers s @ sf_InterceptionIssuers f
           \<and> (\<forall>ip \<in> set (sf_BlockIPs f). \<exists>a. ParseAddr ip = Some a \<and> IsBlockIP s' a)"
proof -
  from assms(2) have "validate_file f = Inr f"
    by (auto simp: sig_Parse_def dest: validate_file_Inr split: sum.splits)
  note ok = validate_file_Inr [OF this]
  then have "merge_block_ips (sg_BlockIPs s) (sf_BlockIPs f) =
      Inr (sg_BlockIPs s \<union> (\<lambda>ip. addr_Unmap (the (ParseAddr ip))) ` set (sf_BlockIPs f))"
    by (intro merge_block_ips_ok) blast
  moreover define s' where "s' = s\<lparr>
      sg_BlockIPs := sg_BlockIPs s \<union> (\<lambda>ip. addr_Unmap (the (ParseAddr ip))) ` set (sf_BlockIPs f),
      sg_BlockPages := sg_BlockPages s @ sf_BlockPages f,
      sg_GeoBlocks := sg_GeoBlocks s @ sf_GeoBlocks f,
      sg_InterceptionIssuers := sg_InterceptionIssuers s @ sf_InterceptionIssuers f\<rparr>"
  ultimately have s': "sig_Merge s f = Inr s'" by (simp add: sig_Merge_def)
  have ips: "sg_BlockIPs s' = sg_BlockIPs s \<union> (\<lambda>ip. addr_Unmap (the (ParseAddr ip))) ` set (sf_BlockIPs f)"
    and pages: "sg_BlockPages s' = sg_BlockPages s @ sf_BlockPages f"
    and geos: "sg_GeoBlocks s' = sg_GeoBlocks s @ sf_GeoBlocks f"
    and iss: "sg_InterceptionIssuers s' = sg_InterceptionIssuers s @ sf_InterceptionIssuers f"
    by (simp_all add: s'_def)
  have "wf_sigs s'"
    using assms(1) ok by (auto simp: wf_sigs_def ips pages geos)
  moreover have "\<exists>a. ParseAddr ip = Some a \<and> IsBlockIP s' a" if ip: "ip \<in> set (sf_BlockIPs f)" for ip
  proof -
    from ok ip obtain a where "ParseAddr ip = Some a" by auto
    then have "addr_Unmap a \<in> sg_BlockIPs s'" unfolding ips using ip by force
    with \<open>ParseAddr ip = Some a\<close> show ?thesis by (simp add: IsBlockIP_def)
  qed
  ultimately show ?thesis using s' ips pages geos iss by blast
qed

text \<open>A concrete file for the witness: one address, one page and one geo-block.\<close>

definition sample_file :: sig_file where
  "sample_file = \<lparr>sf_BlockIPs = [''10.10.34.34''],
     sf_BlockPages = [\<lparr>bp_Name = ''iran-peyvandha'', bp_URLContains = [''peyvandha.ir''],
       bp_BodyContains = [''peyvandha.ir'']\<rparr>],
     sf_GeoBlocks = [\<lparr>gb_Name = ''openai-unsupported-region'', gb_HostSuffix = ''openai.com'',
       gb_Status = [403], gb_BodyContains = [''unsupported_country'']\<rparr>],
     sf_InterceptionIssuers = [''Fortinet'']\<rparr>"

lemma parse_sample_ip: "ParseAddr ''10.10.34.34'' = Some (V4 (v4_of 10 10 34 34))"
  by code_simp

lemma validate_sample: "sig_Parse (\<lambda>_. Inr sample_file) [] = Inr sample_file"
  by (simp add: sig_Parse_def validate_file_def sample_file_def parse_sample_ip)

lemma sig_merge_parsed_witness:
  "\<exists>s'. sig_Merge sig_New sample_file = Inr s' \<and> wf_sigs s' \<and> IsBlockIP s' (V4 (v4_of 10 10 34 34))"
  using sig_merge_parsed [OF wf_sig_New validate_sample]
  by (auto simp: sample_file_def parse_sample_ip)

section \<open>What a match means\<close>

lemma containsAny_iff:
  "containsAny s ns \<longleftrightarrow> (\<exists>n \<in> set ns. n \<noteq> [] \<and> (\<exists>a b. s = a @ to_lower n @ b))"
  by (induction ns) (auto simp: str_contains_iff)

lemma containsInt_iff [simp]: "containsInt xs v \<longleftrightarrow> v \<in> set xs"
  by (induction xs) auto

definition page_matches :: "string \<Rightarrow> string \<Rightarrow> block_page_sig \<Rightarrow> bool" where
  "page_matches loc b p \<longleftrightarrow>
     containsAny loc (bp_URLContains p) \<or> containsAny b (bp_BodyContains p)"

definition geo_matches :: "string \<Rightarrow> int \<Rightarrow> string \<Rightarrow> geo_block_sig \<Rightarrow> bool" where
  "geo_matches host st b g \<longleftrightarrow>
     (gb_HostSuffix g = [] \<or> hasHostSuffix host (to_lower (gb_HostSuffix g)))
     \<and> (gb_Status g = [] \<or> st \<in> set (gb_Status g)) \<and> containsAny b (gb_BodyContains g)"

lemma containsAny_Nil [simp]: "\<not> containsAny [] ns"
  by (auto simp: containsAny_iff)

lemma match_pages_find:
  "match_pages loc b ps = (case find (page_matches loc b) ps of None \<Rightarrow> [] | Some p \<Rightarrow> bp_Name p)"
  by (induction ps) (auto simp: page_matches_def)

lemma match_geo_find:
  "match_geo host st b gs = (case find (geo_matches host st b) gs of None \<Rightarrow> [] | Some g \<Rightarrow> gb_Name g)"
  by (induction gs) (auto simp: geo_matches_def)

lemma find_case_Nil:
  assumes "(case find P xs of None \<Rightarrow> [] | Some x \<Rightarrow> f x) \<noteq> []"
  shows "\<exists>x \<in> set xs. P x \<and> f x = (case find P xs of None \<Rightarrow> [] | Some x \<Rightarrow> f x)"
proof (cases "find P xs")
  case None
  with assms show ?thesis by simp
next
  case (Some x)
  with find_SomeD [OF this] show ?thesis by auto
qed

lemma MatchBlockPage_nonempty_iff:
  assumes "wf_sigs s"
  shows "MatchBlockPage s location body \<noteq> [] \<longleftrightarrow>
    (\<exists>p \<in> set (sg_BlockPages s). page_matches (to_lower location) (to_lower body) p)"
proof
  assume "MatchBlockPage s location body \<noteq> []"
  then show "\<exists>p \<in> set (sg_BlockPages s). page_matches (to_lower location) (to_lower body) p"
    unfolding MatchBlockPage_def match_pages_find by (blast dest: find_case_Nil)
next
  assume "\<exists>p \<in> set (sg_BlockPages s). page_matches (to_lower location) (to_lower body) p"
  then obtain q where "find (page_matches (to_lower location) (to_lower body)) (sg_BlockPages s) = Some q"
    by (metis find_None_iff not_None_eq)
  moreover from this have "q \<in> set (sg_BlockPages s)" by (auto simp: find_Some_iff)
  ultimately show "MatchBlockPage s location body \<noteq> []"
    using assms by (auto simp: MatchBlockPage_def match_pages_find wf_sigs_def)
qed

lemma MatchGeoBlock_nonemptyD:
  "MatchGeoBlock s host st body \<noteq> [] \<Longrightarrow>
    \<exists>g \<in> set (sg_GeoBlocks s). gb_Name g = MatchGeoBlock s host st body
      \<and> geo_matches (to_lower host) st (to_lower body) g"
  unfolding MatchGeoBlock_def match_geo_find by (blast dest: find_case_Nil)

text \<open>
  An issuer is matched by the first entry its text contains. The matching of pages and region
  blocks skips empty strings, that of issuers does not, and \<^verbatim>\<open>Parse\<close> lets an empty entry through:
  every issuer contains it, its name is the "no match" answer, and the entries after it are dead.
\<close>

lemma match_issuer_find:
  "match_issuer iss ns = (case find (\<lambda>n. str_contains iss (to_lower n)) ns of None \<Rightarrow> [] | Some n \<Rightarrow> n)"
  by (induction ns) auto

lemma MatchInterceptionIssuer_iff:
  assumes "[] \<notin> set (sg_InterceptionIssuers s)"
  shows "MatchInterceptionIssuer s issuer \<noteq> [] \<longleftrightarrow>
    (\<exists>n \<in> set (sg_InterceptionIssuers s). str_contains (to_lower issuer) (to_lower n))"
proof (cases "find (\<lambda>n. str_contains (to_lower issuer) (to_lower n)) (sg_InterceptionIssuers s)")
  case None
  then have "MatchInterceptionIssuer s issuer = []" by (simp add: MatchInterceptionIssuer_def match_issuer_find)
  with None show ?thesis by (simp add: find_None_iff)
next
  case (Some n)
  then have "n \<in> set (sg_InterceptionIssuers s)" "str_contains (to_lower issuer) (to_lower n)"
    by (auto simp: find_Some_iff)
  with assms Some show ?thesis by (auto simp: MatchInterceptionIssuer_def match_issuer_find)
qed

lemma empty_issuer_masks:
  "MatchInterceptionIssuer (s\<lparr>sg_InterceptionIssuers := ns @ [] # masked\<rparr>) issuer =
     MatchInterceptionIssuer (s\<lparr>sg_InterceptionIssuers := ns\<rparr>) issuer"
proof -
  have "str_contains t []" for t unfolding str_contains_iff by (rule exI [of _ "[]"]) simp
  then have "match_issuer iss (ns @ [] # masked) = match_issuer iss ns" for iss
    by (induction ns) (simp_all add: to_lower_def)
  then show ?thesis by (simp add: MatchInterceptionIssuer_def)
qed

text \<open>
  A provider-limited signature never fires for another provider's host: a host that
  matches the suffix is the suffix itself or ends in a dot and the suffix, so
  \<^verbatim>\<open>notopenai.com\<close> is not \<^verbatim>\<open>openai.com\<close>; and a named match carries a signature whose status
  list and body strings agree with the response.
\<close>

lemma geo_match_sound:
  assumes "MatchGeoBlock s host st body \<noteq> []"
  shows "\<exists>g \<in> set (sg_GeoBlocks s). gb_Name g = MatchGeoBlock s host st body
     \<and> (gb_HostSuffix g = [] \<or> to_lower host = to_lower (gb_HostSuffix g)
        \<or> (\<exists>sub. to_lower host = sub @ ''.'' @ to_lower (gb_HostSuffix g)))
     \<and> (gb_Status g = [] \<or> st \<in> set (gb_Status g))
     \<and> (\<exists>n \<in> set (gb_BodyContains g). n \<noteq> [] \<and> (\<exists>a b. to_lower body = a @ to_lower n @ b))"
proof -
  from MatchGeoBlock_nonemptyD [OF assms] obtain g where g: "g \<in> set (sg_GeoBlocks s)"
    "gb_Name g = MatchGeoBlock s host st body"
    and m: "geo_matches (to_lower host) st (to_lower body) g" by blast
  have "gb_HostSuffix g = [] \<or> to_lower host = to_lower (gb_HostSuffix g)
        \<or> (\<exists>sub. to_lower host = sub @ ''.'' @ to_lower (gb_HostSuffix g))"
    using m unfolding geo_matches_def hasHostSuffix_def has_suffix_iff by blast
  moreover have "gb_Status g = [] \<or> st \<in> set (gb_Status g)"
    using m by (simp add: geo_matches_def)
  moreover have "\<exists>n \<in> set (gb_BodyContains g). n \<noteq> [] \<and> (\<exists>a b. to_lower body = a @ to_lower n @ b)"
    using m by (simp add: geo_matches_def containsAny_iff)
  ultimately show ?thesis using g by blast
qed

definition sample_sigs :: sig_set where
  "sample_sigs = \<lparr>sg_BlockIPs = {V4 (v4_of 10 10 34 34)}, sg_BlockPages = sf_BlockPages sample_file,
     sg_GeoBlocks = sf_GeoBlocks sample_file, sg_InterceptionIssuers = sf_InterceptionIssuers sample_file\<rparr>"

lemma sample_geo:
  "MatchGeoBlock sample_sigs ''api.OpenAI.com'' 403 ''Unsupported_Country_region'' = ''openai-unsupported-region''"
  by code_simp

lemma geo_match_sound_witness:
  "MatchGeoBlock sample_sigs ''notopenai.com'' 403 ''unsupported_country'' = []
   \<and> (\<exists>g \<in> set (sg_GeoBlocks sample_sigs). gb_Name g = ''openai-unsupported-region'' \<and> 403 \<in> set (gb_Status g))"
proof
  show "MatchGeoBlock sample_sigs ''notopenai.com'' 403 ''unsupported_country'' = []"
    by code_simp
  have "MatchGeoBlock sample_sigs ''api.OpenAI.com'' 403 ''Unsupported_Country_region'' \<noteq> []"
    by (simp add: sample_geo)
  from geo_match_sound [OF this]
  show "\<exists>g \<in> set (sg_GeoBlocks sample_sigs). gb_Name g = ''openai-unsupported-region'' \<and> 403 \<in> set (gb_Status g)"
    by (auto simp: sample_geo) (auto simp: sample_sigs_def sample_file_def)
qed

end
