(* ===== verification/Dnswire.thy ===== *)
theory Dnswire
  imports Netip
begin

text \<open>
  Package dnswire (internal/dnswire/dnswire.go): encoding and decoding of single-question DNS
  messages. Reading past the end of a slice panics in Go; here every read of the message goes
  through \<open>byte_at\<close>, \<open>be16_at\<close> or \<open>slice_at\<close>, which return \<open>IndexPanic\<close> in that case, so that the
  absence of panics is a theorem about the bounds checks of \<^verbatim>\<open>Parse\<close> and \<^verbatim>\<open>readName\<close>.
  Offsets are at most 65535 + 16384 and so far from the bounds of Go's 64-bit \<^verbatim>\<open>int\<close>; they are
  natural numbers.
\<close>

unbundle bit_operations_syntax

section \<open>Big-endian integers (package encoding/binary)\<close>

primrec be_bytes :: "nat \<Rightarrow> 'a::len word \<Rightarrow> bytes" where
  "be_bytes 0 w = []"
| "be_bytes (Suc n) w = be_bytes n (drop_bit 8 w) @ [ucast w]"

definition be_word :: "bytes \<Rightarrow> 'a::len word" where
  "be_word bs = foldl (\<lambda>w b. push_bit 8 w OR ucast b) 0 bs"

abbreviation u16_bytes :: "16 word \<Rightarrow> bytes" where
  "u16_bytes w \<equiv> be_bytes 2 w"

abbreviation u32_bytes :: "32 word \<Rightarrow> bytes" where
  "u32_bytes w \<equiv> be_bytes 4 w"

lemma length_be_bytes [simp]: "length (be_bytes n w) = n"
  by (induction n arbitrary: w) auto

lemma be_word_snoc [wire_simps]: "be_word (bs @ [b]) = push_bit 8 (be_word bs) OR ucast b"
  by (simp add: be_word_def)

lemma be_word_be_bytes: "be_word (be_bytes n w) = (take_bit (8 * n) w :: 'a::len word)"
proof (induction n arbitrary: w)
  case 0
  then show ?case by (simp add: be_word_def)
next
  case (Suc n)
  have "push_bit 8 (take_bit (8 * n) (drop_bit 8 w)) OR ucast (ucast w :: byte)
      = (take_bit (8 * n + 8) w :: 'a word)"
    by (rule bit_word_eqI)
      (auto simp: bit_or_iff bit_push_bit_iff bit_take_bit_iff bit_drop_bit_eq bit_ucast_iff
        dest: bit_imp_le_length)
  with Suc show ?case by (simp add: be_word_snoc add.commute)
qed

lemma be_word_u16 [wire_simps, simp]: "be_word (u16_bytes w) = w"
  by (simp add: be_word_be_bytes take_bit_word_eq_self)

section \<open>Errors and bounded reads\<close>

datatype dns_error =
    ErrMalformed
  | ErrNotResponse \<comment> \<open>wraps ErrMalformed\<close>
  | ErrInvalidName string
  | IndexPanic

definition byte_at :: "bytes \<Rightarrow> nat \<Rightarrow> dns_error + byte" where
  "byte_at msg off = (if off < length msg then Inr (msg ! off) else Inl IndexPanic)"

definition be16_at :: "bytes \<Rightarrow> nat \<Rightarrow> dns_error + 16 word" where
  "be16_at msg off =
     (if off + 2 \<le> length msg then Inr (be_word [msg ! off, msg ! (off + 1)]) else Inl IndexPanic)"

definition slice_at :: "bytes \<Rightarrow> nat \<Rightarrow> nat \<Rightarrow> dns_error + bytes" where
  "slice_at msg off n =
     (if off + n \<le> length msg then Inr (take n (drop off msg)) else Inl IndexPanic)"

section \<open>Queries\<close>

definition TypeA :: "16 word" where "TypeA = 1"
definition TypeAAAA :: "16 word" where "TypeAAAA = 28"
definition ClassIN :: "16 word" where "ClassIN = 1"

definition RCodeSuccess :: int where "RCodeSuccess = 0"
definition RCodeServFail :: int where "RCodeServFail = 2"
definition RCodeNXDomain :: int where "RCodeNXDomain = 3"
definition RCodeRefused :: int where "RCodeRefused = 5"

text \<open>The loop of \<^verbatim>\<open>appendName\<close> over the labels; \<open>name\<close> is for the error message.\<close>

fun append_labels :: "string \<Rightarrow> bytes \<Rightarrow> string list \<Rightarrow> dns_error + bytes" where
  "append_labels name msg [] = Inr (msg @ [0])"
| "append_labels name msg (l # ls) =
     (if l = [] \<or> 63 < length l then Inl (ErrInvalidName name)
      else append_labels name (msg @ [of_nat (length l)] @ bytes_of l) ls)"

definition appendName :: "bytes \<Rightarrow> string \<Rightarrow> dns_error + bytes" where
  "appendName msg name0 =
     (let name = trim_suffix name0 ''.'' in
      if name = [] \<or> 253 < length name then Inl (ErrInvalidName name)
      else append_labels name msg (split_on (CHR ''.'') name))"

definition Query :: "16 word \<Rightarrow> string \<Rightarrow> 16 word \<Rightarrow> dns_error + bytes" where
  "Query qid name qtype =
     (case appendName (u16_bytes qid @ u16_bytes 256 @ u16_bytes 1 @ [0, 0, 0, 0, 0, 0]) name of
        Inl e \<Rightarrow> Inl e
      | Inr msg \<Rightarrow> Inr (msg @ u16_bytes qtype @ u16_bytes ClassIN))"

section \<open>Reading names\<close>

text \<open>
  The loop of \<^verbatim>\<open>readName\<close>. \<open>hops\<close> counts its iterations, so at most 65 of them run; \<open>ed\<close>
  is the offset after the name once a pointer was followed (\<^verbatim>\<open>-1\<close> in the code before that).
\<close>

function (sequential) read_name_loop ::
  "bytes \<Rightarrow> string list \<Rightarrow> nat option \<Rightarrow> nat \<Rightarrow> nat \<Rightarrow> dns_error + string \<times> nat" where
  "read_name_loop msg labels ed hops off =
     (if 64 < hops \<or> length msg \<le> off then Inl ErrMalformed
      else (case byte_at msg off of
          Inl e \<Rightarrow> Inl e
        | Inr b \<Rightarrow>
            (let l = unat b in
             if l = 0 then
               Inr (str_join labels ''.'', (case ed of None \<Rightarrow> off + 1 | Some e \<Rightarrow> e))
             else if b AND 192 = 192 then
               (if length msg \<le> off + 1 then Inl ErrMalformed
                else (case be16_at msg off of
                    Inl e \<Rightarrow> Inl e
                  | Inr w \<Rightarrow>
                      read_name_loop msg labels (case ed of None \<Rightarrow> Some (off + 2) | Some e \<Rightarrow> Some e)
                        (Suc hops) (unat (w AND 16383))))
             else if b AND 192 \<noteq> 0 then Inl ErrMalformed
             else if length msg < off + 1 + l then Inl ErrMalformed
             else (case slice_at msg (off + 1) l of
                 Inl e \<Rightarrow> Inl e
               | Inr lab \<Rightarrow>
                   read_name_loop msg (labels @ [string_of lab]) ed (Suc hops) (off + 1 + l)))))"
  by pat_completeness auto
termination
  by (relation "measure (\<lambda>(msg, labels, ed, hops, off). 65 - hops)") auto

declare read_name_loop.simps [simp del]

lemma byte_at_ok [simp]: "off < length msg \<Longrightarrow> byte_at msg off = Inr (msg ! off)"
  by (simp add: byte_at_def)

definition readName :: "bytes \<Rightarrow> nat \<Rightarrow> dns_error + string \<times> nat" where
  "readName msg off = read_name_loop msg [] None 0 off"

section \<open>Parsing\<close>

record question =
  q_ID :: "16 word"
  q_Name :: string
  q_Type :: "16 word"
  q_Class :: "16 word"

definition no_question :: question where
  "no_question = \<lparr>q_ID = 0, q_Name = [], q_Type = 0, q_Class = 0\<rparr>"

record response =
  rsp_ID :: "16 word"
  rsp_RCode :: int
  rsp_Truncated :: bool
  rsp_Question :: question
  rsp_Addrs :: "addr list"

text \<open>\<^verbatim>\<open>netip.AddrFrom4\<close> and \<^verbatim>\<open>AddrFrom16\<close> on slices of the right length, and their inverses.\<close>

definition AddrFrom4 :: "bytes \<Rightarrow> addr" where
  "AddrFrom4 bs = V4 (be_word bs)"

definition AddrFrom16 :: "bytes \<Rightarrow> addr" where
  "AddrFrom16 bs = V6 (be_word bs) []"

fun addr_As4 :: "addr \<Rightarrow> bytes" where
  "addr_As4 (V4 w) = be_bytes 4 w"
| "addr_As4 (V6 w z) = be_bytes 4 (ucast w :: 32 word)"

fun addr_As16 :: "addr \<Rightarrow> bytes" where
  "addr_As16 (V4 w) = be_bytes 16 (push_bit 32 65535 OR ucast w :: 128 word)"
| "addr_As16 (V6 w z) = be_bytes 16 w"

text \<open>The loop over the questions: only the first one is kept.\<close>

fun parse_questions ::
  "bytes \<Rightarrow> 16 word \<Rightarrow> nat \<Rightarrow> nat \<Rightarrow> nat \<Rightarrow> question \<Rightarrow> dns_error + nat \<times> question" where
  "parse_questions msg qid 0 i off q = Inr (off, q)"
| "parse_questions msg qid (Suc n) i off q =
     (case readName msg off of
        Inl e \<Rightarrow> Inl e
      | Inr (name, off') \<Rightarrow>
          if length msg < off' + 4 then Inl ErrMalformed
          else if i = 0 then
            (case be16_at msg off' of
               Inl e \<Rightarrow> Inl e
             | Inr t \<Rightarrow>
                 (case be16_at msg (off' + 2) of
                    Inl e \<Rightarrow> Inl e
                  | Inr c \<Rightarrow>
                      parse_questions msg qid n (Suc i) (off' + 4)
                        \<lparr>q_ID = qid, q_Name = name, q_Type = t, q_Class = c\<rparr>))
          else parse_questions msg qid n (Suc i) (off' + 4) q)"

text \<open>What one answer record contributes: an address of the matching type and length.\<close>

definition record_addrs :: "16 word \<Rightarrow> 16 word \<Rightarrow> nat \<Rightarrow> bytes \<Rightarrow> addr list" where
  "record_addrs cls typ rdlen rdata =
     (if cls \<noteq> ClassIN then []
      else if typ = TypeA \<and> rdlen = 4 then [AddrFrom4 rdata]
      else if typ = TypeAAAA \<and> rdlen = 16 then [AddrFrom16 rdata]
      else [])"

fun parse_answers :: "bytes \<Rightarrow> nat \<Rightarrow> nat \<Rightarrow> addr list \<Rightarrow> dns_error + addr list" where
  "parse_answers msg 0 off addrs = Inr addrs"
| "parse_answers msg (Suc n) off addrs =
     (case readName msg off of
        Inl e \<Rightarrow> Inl e
      | Inr (name, off') \<Rightarrow>
          if length msg < off' + 10 then Inl ErrMalformed
          else (case (be16_at msg off', be16_at msg (off' + 2), be16_at msg (off' + 8)) of
              (Inr typ, Inr cls, Inr rd) \<Rightarrow>
                (let rdlen = unat rd; p = off' + 10 in
                 if length msg < p + rdlen then Inl ErrMalformed
                 else (case slice_at msg p rdlen of
                     Inl e \<Rightarrow> Inl e
                   | Inr rdata \<Rightarrow>
                       parse_answers msg n (p + rdlen) (addrs @ record_addrs cls typ rdlen rdata)))
            | _ \<Rightarrow> Inl IndexPanic))"

definition Parse :: "bytes \<Rightarrow> dns_error + response" where
  "Parse msg =
     (if length msg < 12 then Inl ErrMalformed
      else (case (be16_at msg 0, be16_at msg 2, be16_at msg 4, be16_at msg 6) of
          (Inr qid, Inr flags, Inr qd, Inr an) \<Rightarrow>
            if flags AND 32768 = 0 then Inl ErrNotResponse
            else (case parse_questions msg qid (unat qd) 0 12 no_question of
                Inl e \<Rightarrow> Inl e
              | Inr (off, q) \<Rightarrow>
                  (case parse_answers msg (unat an) off [] of
                     Inl e \<Rightarrow> Inl e
                   | Inr addrs \<Rightarrow>
                       Inr \<lparr>rsp_ID = qid, rsp_RCode = uint (flags AND 15),
                            rsp_Truncated = (flags AND 512 \<noteq> 0), rsp_Question = q,
                            rsp_Addrs = addrs\<rparr>))
        | _ \<Rightarrow> Inl IndexPanic))"

definition ParseQuestion :: "bytes \<Rightarrow> dns_error + question" where
  "ParseQuestion msg =
     (if length msg < 12 then Inl ErrMalformed
      else (case (be16_at msg 0, be16_at msg 4) of
          (Inr qid, Inr qd) \<Rightarrow>
            if unat qd < 1 then Inl ErrMalformed
            else (case readName msg 12 of
                Inl e \<Rightarrow> Inl e
              | Inr (name, off) \<Rightarrow>
                  if length msg < off + 4 then Inl ErrMalformed
                  else (case (be16_at msg off, be16_at msg (off + 2)) of
                      (Inr t, Inr c) \<Rightarrow>
                        Inr \<lparr>q_ID = qid, q_Name = name, q_Type = t, q_Class = c\<rparr>
                    | _ \<Rightarrow> Inl IndexPanic))
        | _ \<Rightarrow> Inl IndexPanic))"

section \<open>Answers\<close>

definition answer_rdata :: "16 word \<Rightarrow> addr \<Rightarrow> bytes option" where
  "answer_rdata qtype a =
     (if qtype = TypeA \<and> addr_Is4 a then Some (addr_As4 a)
      else if qtype = TypeAAAA \<and> addr_Is6 a then Some (addr_As16 a)
      else None)"

fun append_answers :: "16 word \<Rightarrow> addr list \<Rightarrow> bytes \<Rightarrow> 16 word \<Rightarrow> bytes \<times> 16 word" where
  "append_answers qtype [] msg count = (msg, count)"
| "append_answers qtype (a # as) msg count =
     (case answer_rdata qtype a of
        None \<Rightarrow> append_answers qtype as msg count
      | Some rdata \<Rightarrow>
          append_answers qtype as
            (msg @ [192, 12] @ u16_bytes qtype @ u16_bytes ClassIN @ u32_bytes 60
               @ u16_bytes (of_nat (length rdata)) @ rdata)
            (count + 1))"

definition Answer :: "question \<Rightarrow> int \<Rightarrow> addr list \<Rightarrow> dns_error + bytes" where
  "Answer q rcode addrs =
     (case appendName (u16_bytes (q_ID q) @ u16_bytes (33152 OR (of_int rcode AND 15))
             @ u16_bytes 1 @ [0, 0, 0, 0, 0, 0]) (q_Name q) of
        Inl e \<Rightarrow> Inl e
      | Inr msg0 \<Rightarrow>
          (case append_answers (q_Type q) addrs (msg0 @ u16_bytes (q_Type q) @ u16_bytes ClassIN) 0 of
             (msg, count) \<Rightarrow> Inr (take 6 msg @ u16_bytes count @ drop 8 msg)))"

section \<open>Bounds: no read past the ed\<close>

lemma be16_at_ok: "off + 2 \<le> length msg \<Longrightarrow> be16_at msg off = Inr (be_word [msg ! off, msg ! (off + 1)])"
  by (simp add: be16_at_def)

lemma slice_at_ok: "off + n \<le> length msg \<Longrightarrow> slice_at msg off n = Inr (take n (drop off msg))"
  by (simp add: slice_at_def)

text \<open>
  Every failure of the name reader is ErrMalformed; on success the offset it returns lies within
  the message and after the start of the name.
\<close>

lemma read_name_loop_bounds:
  assumes "\<forall>e. ed = Some e \<longrightarrow> e \<le> length msg"
  shows "(\<forall>err. read_name_loop msg labels ed hops off = Inl err \<longrightarrow> err = ErrMalformed)
    \<and> (\<forall>name n. read_name_loop msg labels ed hops off = Inr (name, n) \<longrightarrow>
          n \<le> length msg \<and> (case ed of None \<Rightarrow> off < n | Some e \<Rightarrow> n = e))"
  using assms
proof (induction msg labels ed hops off rule: read_name_loop.induct)
  case (1 msg labels ed hops off)
  note unf = read_name_loop.simps [of msg labels ed hops off]
  show ?case
  proof (cases "64 < hops \<or> length msg \<le> off")
    case True
    then show ?thesis by (simp add: unf)
  next
    case inb: False
    define b where "b = msg ! off"
    then have b: "byte_at msg off = Inr b" using inb by simp
    show ?thesis
    proof (cases "unat b = 0")
      case True
      with inb "1.prems" show ?thesis
        by (auto simp: unf Let_def b_def split: option.splits)
    next
      case nz: False
      show ?thesis
      proof (cases "b AND 192 = 192")
        case ptr: True
        show ?thesis
        proof (cases "length msg \<le> off + 1")
          case True
          with inb nz ptr show ?thesis by (simp add: unf Let_def b_def)
        next
          case False
          define w where "w = (be_word [msg ! off, msg ! (off + 1)] :: 16 word)"
          have w: "be16_at msg off = Inr w"
            using False by (simp add: be16_at_def w_def)
          let ?ed = "case ed of None \<Rightarrow> Some (off + 2) | Some e \<Rightarrow> Some e"
          have step: "read_name_loop msg labels ed hops off =
              read_name_loop msg labels ?ed (Suc hops) (unat (w AND 16383))"
            using inb nz ptr False w by (simp add: unf Let_def b_def)
          have "\<forall>e. ?ed = Some e \<longrightarrow> e \<le> length msg"
            using "1.prems" False by (auto split: option.splits)
          with "1.IH"(1) [OF inb b refl] nz ptr False w
          show ?thesis unfolding step by (auto split: option.splits)
        qed
      next
        case noptr: False
        show ?thesis
        proof (cases "b AND 192 \<noteq> 0 \<or> length msg < off + 1 + unat b")
          case True
          with inb nz noptr show ?thesis by (auto simp: unf Let_def b_def)
        next
          case False
          define lab where "lab = take (unat b) (drop (off + 1) msg)"
          have sl: "slice_at msg (off + 1) (unat b) = Inr lab"
            using False by (simp add: slice_at_def lab_def)
          have step: "read_name_loop msg labels ed hops off =
              read_name_loop msg (labels @ [string_of lab]) ed (Suc hops) (off + 1 + unat b)"
            using inb nz noptr False sl by (simp add: unf Let_def b_def)
          from "1.IH"(2) [OF inb b refl] nz noptr False sl "1.prems"
          show ?thesis unfolding step by (auto split: option.splits)
        qed
      qed
    qed
  qed
qed

lemma readName_Inl: "readName msg off = Inl e \<Longrightarrow> e = ErrMalformed"
  using read_name_loop_bounds [of None] by (simp add: readName_def)

lemma readName_Inr: "readName msg off = Inr (name, n) \<Longrightarrow> off < n \<and> n \<le> length msg"
  using read_name_loop_bounds [of None] by (simp add: readName_def)

lemma parse_questions_bounds:
  "off \<le> length msg \<Longrightarrow>
     (\<forall>e. parse_questions msg qid n i off q = Inl e \<longrightarrow> e = ErrMalformed)
     \<and> (\<forall>off' q'. parse_questions msg qid n i off q = Inr (off', q') \<longrightarrow> off \<le> off' \<and> off' \<le> length msg)"
proof (induction n arbitrary: i off q)
  case 0
  then show ?case by simp
next
  case (Suc n)
  show ?case
  proof (cases "readName msg off")
    case (Inl e)
    then show ?thesis using readName_Inl by auto
  next
    case (Inr r)
    obtain name p where r: "r = (name, p)" by (cases r)
    with Inr readName_Inr have p: "off < p" "p \<le> length msg" by blast+
    show ?thesis
    proof (cases "length msg < p + 4")
      case True
      with Inr r show ?thesis by simp
    next
      case False
      with Suc.IH [of "p + 4"] p Inr r show ?thesis
        by (auto simp: be16_at_ok) fastforce+
    qed
  qed
qed

lemma parse_answers_bounds:
  "off \<le> length msg \<Longrightarrow> parse_answers msg n off addrs = Inl e \<Longrightarrow> e = ErrMalformed"
proof (induction n arbitrary: off addrs)
  case 0
  then show ?case by simp
next
  case (Suc n)
  show ?case
  proof (cases "readName msg off")
    case (Inl e')
    with Suc.prems readName_Inl show ?thesis by auto
  next
    case (Inr r)
    obtain name p where r: "r = (name, p)" by (cases r)
    with Inr readName_Inr have p: "p \<le> length msg" by blast
    define rd where "rd = unat (be_word [msg ! (p + 8), msg ! (p + 8 + 1)] :: 16 word)"
    show ?thesis
    proof (cases "length msg < p + 10 \<or> length msg < p + 10 + rd")
      case True
      with Suc.prems Inr r p show ?thesis
        by (auto simp: be16_at_ok Let_def rd_def split: if_splits)
    next
      case False
      then have "p + 10 + rd \<le> length msg" by simp
      with Suc.IH [OF this] Suc.prems Inr r p show ?thesis
        by (auto simp: be16_at_ok slice_at_ok Let_def rd_def split: if_splits)
    qed
  qed
qed

lemma Parse_outcomes:
  "(\<exists>r. Parse msg = Inr r) \<or> Parse msg = Inl ErrMalformed \<or> Parse msg = Inl ErrNotResponse"
proof (cases "length msg < 12")
  case True
  then show ?thesis by (simp add: Parse_def)
next
  case False
  then have len: "12 \<le> length msg" by simp
  define qid flags qd an where defs: "qid = (be_word [msg ! 0, msg ! 1] :: 16 word)"
    "flags = (be_word [msg ! 2, msg ! 3] :: 16 word)" "qd = (be_word [msg ! 4, msg ! 5] :: 16 word)"
    "an = (be_word [msg ! 6, msg ! 7] :: 16 word)"
  have reads: "be16_at msg 0 = Inr qid" "be16_at msg 2 = Inr flags" "be16_at msg 4 = Inr qd"
    "be16_at msg 6 = Inr an"
    using len by (simp_all add: be16_at_def defs)
  note qb = parse_questions_bounds [OF len, of qid "unat qd" 0 no_question]
  show ?thesis
  proof (cases "parse_questions msg qid (unat qd) 0 12 no_question")
    case (Inl e)
    with qb False reads show ?thesis by (auto simp: Parse_def)
  next
    case (Inr r)
    obtain off q where r: "r = (off, q)" by (cases r)
    with qb Inr have "off \<le> length msg" by blast
    with parse_answers_bounds [of off msg "unat an" "[]"] False reads Inr r show ?thesis
      by (cases "parse_answers msg (unat an) off []") (auto simp: Parse_def)
  qed
qed

text \<open>
  The same for the reader of queries used by the fake servers.
\<close>

lemma ParseQuestion_outcomes:
  "(\<exists>q. ParseQuestion msg = Inr q) \<or> ParseQuestion msg = Inl ErrMalformed"
  by (auto simp: ParseQuestion_def be16_at_ok split: sum.splits prod.splits dest: readName_Inl)

text \<open>
  Claim C18. Parsing never panics: whatever bytes arrive from the network, every index and slice
  expression of \<^verbatim>\<open>Parse\<close>, of \<^verbatim>\<open>ParseQuestion\<close> and of \<^verbatim>\<open>readName\<close> under them is in range, the loops
  terminate, and the only errors are ErrMalformed and, for a response, the "not a response" form of it.
\<close>

theorem Parse_never_panics:
  "((\<exists>r. Parse msg = Inr r) \<or> Parse msg = Inl ErrMalformed \<or> Parse msg = Inl ErrNotResponse)
   \<and> ((\<exists>q. ParseQuestion msg = Inr q) \<or> ParseQuestion msg = Inl ErrMalformed)"
  using Parse_outcomes [of msg] ParseQuestion_outcomes [of msg] by blast

section \<open>Fields of a message: what is written is read back\<close>

text \<open>
  The contract between a writer that appends a field and the reader that finds it at its offset,
  whatever precedes and follows it. Both the 16-bit integers and the names keep it.
\<close>

locale wire_field =
  fixes enc :: "'v \<Rightarrow> bytes"
    and rd :: "bytes \<Rightarrow> nat \<Rightarrow> dns_error + 'v \<times> nat"
    and ok :: "'v \<Rightarrow> bool"
  assumes rd_enc: "ok v \<Longrightarrow> off \<le> length msg \<Longrightarrow> drop off msg = enc v @ post \<Longrightarrow>
      rd msg off = Inr (v, off + length (enc v))"
begin

lemma rd_at: "ok v \<Longrightarrow> rd (pre @ enc v @ post) (length pre) = Inr (v, length pre + length (enc v))"
  by (rule rd_enc) simp_all

lemma drop_rest: "drop off msg = enc v @ post \<Longrightarrow> drop (off + length (enc v)) msg = post"
  by (metis add.commute append_eq_conv_conj drop_drop)

text \<open>Two fields written one after the other never run into each other.\<close>

lemma enc_prefix_free:
  assumes "ok v" and "ok w" and "enc v @ p = enc w @ q"
  shows "v = w \<and> p = q"
proof -
  have "rd (enc v @ p) 0 = Inr (v, length (enc v))"
    using rd_at [of v "[]" p] assms(1) by simp
  moreover have "rd (enc v @ p) 0 = Inr (w, length (enc w))"
    using rd_at [of w "[]" q] assms(2,3) by simp
  ultimately have "v = w" by simp
  with assms(3) show ?thesis by simp
qed

end

locale wire_fixed = wire_field +
  fixes width :: nat
  assumes length_enc: "length (enc v) = width"
begin

lemma rd_two:
  assumes "ok v" and "ok w" and "off \<le> length msg" and "drop off msg = enc v @ enc w @ post"
  shows "rd msg off = Inr (v, off + width) \<and> rd msg (off + width) = Inr (w, off + width + width)
    \<and> off + width + width \<le> length msg"
proof -
  have len: "length msg - off = width + width + length post"
    using arg_cong [OF assms(4), of length] by (simp add: length_enc)
  have "drop (off + width) msg = enc w @ post"
    using drop_rest [OF assms(4)] by (simp add: length_enc)
  with rd_enc [OF assms(1,3,4)] rd_enc [OF assms(2), of "off + width" msg post] len assms(3)
  show ?thesis by (simp add: length_enc)
qed

end

definition read_u16 :: "bytes \<Rightarrow> nat \<Rightarrow> dns_error + 16 word \<times> nat" where
  "read_u16 msg off = (case be16_at msg off of Inl e \<Rightarrow> Inl e | Inr w \<Rightarrow> Inr (w, off + 2))"

lemma be16_at_drop:
  assumes "off \<le> length msg" and "drop off msg = u16_bytes w @ post"
  shows "be16_at msg off = Inr w"
proof -
  have "length (drop off msg) = 2 + length post" using assms(2) by simp
  with assms(1) have len: "off + 2 \<le> length msg" by simp
  then have "[msg ! off, msg ! (off + 1)] = take 2 (drop off msg)"
    by (simp add: numeral_2_eq_2 take_Suc_conv_app_nth)
  also have "\<dots> = u16_bytes w" using assms(2) by simp
  finally show ?thesis using len by (simp add: be16_at_def)
qed

interpretation u16: wire_fixed u16_bytes read_u16 "\<lambda>_. True" 2
  by unfold_locales (auto simp: read_u16_def be16_at_drop)

lemma read_u16_Inr: "read_u16 msg off = Inr (w, n) \<longleftrightarrow> be16_at msg off = Inr w \<and> n = off + 2"
  by (auto simp: read_u16_def split: sum.splits)

section \<open>Names\<close>

definition name_labels :: "string \<Rightarrow> string list" where
  "name_labels name = split_on (CHR ''.'') name"

definition enc_label :: "string \<Rightarrow> bytes" where
  "enc_label l = of_nat (length l) # bytes_of l"

definition enc_name :: "string \<Rightarrow> bytes" where
  "enc_name name = concat (map enc_label (name_labels name)) @ [0]"

definition label_ok :: "string \<Rightarrow> bool" where
  "label_ok l \<longleftrightarrow> l \<noteq> [] \<and> length l \<le> 63"

text \<open>The names \<^verbatim>\<open>appendName\<close> accepts, without a trailing dot.\<close>

definition valid_name :: "string \<Rightarrow> bool" where
  "valid_name name \<longleftrightarrow> name \<noteq> [] \<and> length name \<le> 253 \<and> (\<forall>l \<in> set (name_labels name). label_ok l)"

lemma append_labels_ok:
  "\<forall>l \<in> set ls. label_ok l \<Longrightarrow> append_labels name msg ls = Inr (msg @ concat (map enc_label ls) @ [0])"
  by (induction ls arbitrary: msg) (auto simp: label_ok_def enc_label_def)

lemma append_labels_bad:
  "\<exists>l \<in> set ls. \<not> label_ok l \<Longrightarrow> append_labels name msg ls = Inl (ErrInvalidName name)"
  by (induction ls arbitrary: msg) (auto simp: label_ok_def)

text \<open>
  \<^verbatim>\<open>appendName\<close> accepts exactly the names of 1 to 253 bytes whose labels have 1 to 63
  bytes (one trailing dot is ignored), appends their length-prefixed labels and the root label,
  and reports every other name as invalid without touching the message.
\<close>

lemma appendName_spec:
  "appendName msg name =
     (let n = trim_suffix name ''.'' in
      if valid_name n then Inr (msg @ enc_name n) else Inl (ErrInvalidName n))"
  using append_labels_ok append_labels_bad
  by (auto simp: appendName_def Let_def valid_name_def enc_name_def name_labels_def)

lemma byte_len: "length l \<le> 63 \<Longrightarrow> unat (of_nat (length l) :: byte) = length l"
  by (simp add: unat_of_nat take_bit_eq_mod)

lemma byte_len_no_pointer:
  assumes "n \<le> 63"
  shows "(of_nat n :: byte) AND 192 = 0"
proof -
  have "(of_nat n :: byte) = take_bit 6 (of_nat n)"
    using assms by (simp add: take_bit_of_nat take_bit_nat_eq_self)
  also have "\<dots> AND 192 = (of_nat n :: byte) AND (63 AND 192)"
    by (simp only: take_bit_eq_mask and.assoc) (simp add: mask_eq_exp_minus_1)
  finally show ?thesis by simp
qed

text \<open>
  Reading the labels written for \<open>ls\<close>: each costs one iteration, and one more reads the root
  label, so they are read back when \<open>hops + length ls\<close> is at most 64 and rejected otherwise.
\<close>

lemma read_labels:
  assumes "drop off msg = concat (map enc_label ls) @ [0] @ post" and "off \<le> length msg"
    and "\<forall>l \<in> set ls. label_ok l"
  shows "read_name_loop msg acc ed hops off =
    (if hops + length ls \<le> 64
     then Inr (str_join (acc @ ls) ''.'',
        (case ed of None \<Rightarrow> off + length (concat (map enc_label ls)) + 1 | Some e \<Rightarrow> e))
     else Inl ErrMalformed)"
  using assms
proof (induction ls arbitrary: acc hops off)
  case Nil
  then have "length (drop off msg) = Suc (length post)" by simp
  then have "off < length msg" by simp
  moreover from this have "msg ! off = hd (drop off msg)" by (simp add: hd_drop_conv_nth)
  then have "msg ! off = 0" by (simp only: Nil.prems(1)) simp
  ultimately show ?case
    by (cases ed) (simp_all add: read_name_loop.simps [of msg acc _ hops off])
next
  case (Cons l ls)
  let ?rest = "concat (map enc_label ls) @ [0] @ post"
  have l: "l \<noteq> []" "length l \<le> 63" using Cons.prems(3) by (simp_all add: label_ok_def)
  have d: "drop off msg = of_nat (length l) # bytes_of l @ ?rest"
    using Cons.prems(1) by (simp add: enc_label_def [of l])
  have "length msg - off = 1 + length l + length ?rest"
    using arg_cong [OF d, of length] by simp
  with Cons.prems(2) have len: "length msg = off + 1 + length l + length ?rest"
    by simp
  have "msg ! off = hd (drop off msg)"
    using len by (simp add: hd_drop_conv_nth)
  then have b: "msg ! off = of_nat (length l)" by (simp only: d list.sel)
  have "drop (off + 1) msg = tl (drop off msg)" by (simp add: drop_Suc tl_drop)
  then have d1: "drop (off + 1) msg = bytes_of l @ ?rest" by (simp only: d list.sel)
  then have lab: "slice_at msg (off + 1) (length l) = Inr (bytes_of l)"
    using len by (simp add: slice_at_def)
  have d2: "drop (off + 1 + length l) msg = ?rest"
  proof -
    have "drop (off + 1 + length l) msg = drop (length l) (drop (off + 1) msg)"
      by (simp add: add.commute)
    then show ?thesis by (simp only: d1) simp
  qed
  have step: "read_name_loop msg acc ed hops off =
      (if 64 < hops then Inl ErrMalformed
       else read_name_loop msg (acc @ [l]) ed (Suc hops) (off + 1 + length l))"
    using len b lab l
    by (simp add: read_name_loop.simps [of msg acc ed hops off] Let_def byte_len byte_len_no_pointer)
  have "read_name_loop msg (acc @ [l]) ed (Suc hops) (off + 1 + length l) =
      (if Suc hops + length ls \<le> 64
       then Inr (str_join ((acc @ [l]) @ ls) ''.'',
          (case ed of None \<Rightarrow> (off + 1 + length l) + length (concat (map enc_label ls)) + 1 | Some e \<Rightarrow> e))
       else Inl ErrMalformed)"
    using Cons.prems(3) len by (intro Cons.IH d2) simp_all
  then show ?case
    by (auto simp: step enc_label_def [of l] split: option.splits)
qed

lemma readName_enc:
  assumes "valid_name name" and "off \<le> length msg" and "drop off msg = enc_name name @ post"
  shows "readName msg off =
    (if length (name_labels name) \<le> 64 then Inr (name, off + length (enc_name name))
     else Inl ErrMalformed)"
proof -
  have "drop off msg = concat (map enc_label (name_labels name)) @ [0] @ post"
    using assms(3) by (simp add: enc_name_def)
  moreover have "str_join (name_labels name) ''.'' = name"
    by (simp add: name_labels_def)
  ultimately show ?thesis
    using read_labels [of off msg "name_labels name" post "[]" None 0] assms(1,2)
    by (simp add: readName_def valid_name_def enc_name_def)
qed

definition readable_name :: "string \<Rightarrow> bool" where
  "readable_name name \<longleftrightarrow> valid_name name \<and> length (name_labels name) \<le> 64"

interpretation name_field: wire_field enc_name readName readable_name
  by unfold_locales (auto simp: readable_name_def readName_enc)

text \<open>
  The encoding of names is unambiguous: two readable names whose encodings start
  the same bytes are the same name, and so are the bytes that follow.
\<close>

lemma enc_name_prefix_free:
  assumes "readable_name a" and "readable_name b" and "enc_name a @ p = enc_name b @ q"
  shows "a = b \<and> p = q"
  using assms by (rule name_field.enc_prefix_free)

lemma readable_example: "readable_name ''example.com''"
  by (simp add: readable_name_def valid_name_def name_labels_def label_ok_def)

lemma enc_name_prefix_free_witness:
  "''example.com'' = ''example.com'' \<and> [1, 2] = ([1, 2] :: bytes)"
  using enc_name_prefix_free [OF readable_example readable_example, of "[1, 2]" "[1, 2]"] by simp

section \<open>Round trips\<close>

text \<open>The twelve bytes of a header with the given count of answers.\<close>

definition header_bytes :: "16 word \<Rightarrow> 16 word \<Rightarrow> 16 word \<Rightarrow> bytes" where
  "header_bytes qid flags an =
     u16_bytes qid @ u16_bytes flags @ u16_bytes 1 @ u16_bytes an @ [0, 0, 0, 0]"

lemma length_header_bytes [simp]: "length (header_bytes qid flags an) = 12"
  by (simp add: header_bytes_def)

lemma header_reads:
  "be16_at (header_bytes qid flags an @ rest) 0 = Inr qid"
  "be16_at (header_bytes qid flags an @ rest) 2 = Inr flags"
  "be16_at (header_bytes qid flags an @ rest) 4 = Inr 1"
  "be16_at (header_bytes qid flags an @ rest) 6 = Inr an"
  by (rule be16_at_drop; simp add: header_bytes_def)+

lemma u16_zero: "u16_bytes 0 = [0, 0]"
  by (simp add: numeral_2_eq_2)

lemma Query_bytes:
  assumes "valid_name (trim_suffix name ''.'')"
  shows "Query qid name t = Inr (header_bytes qid 256 0 @ enc_name (trim_suffix name ''.'')
            @ u16_bytes t @ u16_bytes ClassIN)"
  using assms by (simp add: Query_def appendName_spec Let_def header_bytes_def u16_zero)

text \<open>A question at offset 12: what the name reader and the two integer reads give.\<close>

lemma question_reads:
  assumes "valid_name name" and "12 \<le> length msg"
    and d: "drop 12 msg = enc_name name @ u16_bytes t @ u16_bytes c @ rest"
  shows "readName msg 12 =
      (if length (name_labels name) \<le> 64 then Inr (name, 12 + length (enc_name name)) else Inl ErrMalformed)"
    and "be16_at msg (12 + length (enc_name name)) = Inr t"
    and "be16_at msg (12 + length (enc_name name) + 2) = Inr c"
    and "12 + length (enc_name name) + 4 \<le> length msg"
    and "drop (12 + length (enc_name name) + 4) msg = rest"
proof -
  let ?off = "12 + length (enc_name name)"
  show "readName msg 12 = (if length (name_labels name) \<le> 64 then Inr (name, ?off) else Inl ErrMalformed)"
    by (rule readName_enc [OF assms(1,2) d])
  have d2: "drop ?off msg = u16_bytes t @ u16_bytes c @ rest"
    using d by (rule name_field.drop_rest)
  have "length msg - 12 = length (enc_name name) + 4 + length rest"
    using arg_cong [OF d, of length] by simp
  with assms(2) have off: "?off \<le> length msg" by simp
  note two = u16.rd_two [OF TrueI TrueI off d2]
  then show "be16_at msg ?off = Inr t" "be16_at msg (?off + 2) = Inr c" "?off + 4 \<le> length msg"
    by (simp_all add: read_u16_Inr)
  have "drop (?off + 2) msg = u16_bytes c @ rest"
    using u16.drop_rest [OF d2] by (simp only: length_be_bytes)
  from u16.drop_rest [OF this] show "drop (?off + 4) msg = rest"
    by (simp add: add.assoc)
qed

lemma ParseQuestion_bytes:
  assumes "valid_name name" and "12 \<le> length msg"
    and "drop 12 msg = enc_name name @ u16_bytes t @ u16_bytes c @ rest"
    and "be16_at msg 0 = Inr qid" and "be16_at msg 4 = Inr 1"
  shows "ParseQuestion msg =
    (if length (name_labels name) \<le> 64
     then Inr \<lparr>q_ID = qid, q_Name = name, q_Type = t, q_Class = c\<rparr> else Inl ErrMalformed)"
  using question_reads [OF assms(1-3)] assms(2,4,5) by (simp add: ParseQuestion_def)

lemma query_readback:
  assumes "valid_name (trim_suffix name ''.'')"
  shows "\<exists>msg. Query qid name t = Inr msg
    \<and> ParseQuestion msg = (if length (name_labels (trim_suffix name ''.'')) \<le> 64
        then Inr \<lparr>q_ID = qid, q_Name = trim_suffix name ''.'', q_Type = t, q_Class = ClassIN\<rparr>
        else Inl ErrMalformed)"
proof -
  let ?body = "enc_name (trim_suffix name ''.'') @ u16_bytes t @ u16_bytes ClassIN"
  define msg where "msg = header_bytes qid 256 0 @ ?body"
  have "drop 12 msg = enc_name (trim_suffix name ''.'') @ u16_bytes t @ u16_bytes ClassIN @ []"
    by (simp add: msg_def)
  moreover have "12 \<le> length msg" by (simp add: msg_def)
  moreover have "be16_at msg 0 = Inr qid" "be16_at msg 4 = Inr 1"
    unfolding msg_def by (rule header_reads)+
  ultimately have "ParseQuestion msg = (if length (name_labels (trim_suffix name ''.'')) \<le> 64
        then Inr \<lparr>q_ID = qid, q_Name = trim_suffix name ''.'', q_Type = t, q_Class = ClassIN\<rparr>
        else Inl ErrMalformed)"
    using ParseQuestion_bytes [OF assms] by blast
  then show ?thesis using Query_bytes [OF assms] by (simp add: msg_def)
qed

text \<open>
  A query round-trips: for a valid name of at most 64 labels the question the server
  reads is the one that was asked (identifier, name without its trailing dot, type, class IN).
\<close>

lemma query_roundtrip:
  assumes "valid_name (trim_suffix name ''.'')"
    and "length (name_labels (trim_suffix name ''.'')) \<le> 64"
  shows "\<exists>msg. Query qid name t = Inr msg
    \<and> ParseQuestion msg = Inr \<lparr>q_ID = qid, q_Name = trim_suffix name ''.'', q_Type = t, q_Class = ClassIN\<rparr>"
  using query_readback [OF assms(1), of qid t] assms(2) by simp

lemma valid_example: "valid_name (trim_suffix ''example.com.'' ''.'')"
  "length (name_labels (trim_suffix ''example.com.'' ''.'')) \<le> 64"
  by (simp_all add: trim_suffix_def has_suffix_def valid_name_def name_labels_def label_ok_def)

lemma query_roundtrip_witness:
  "\<exists>msg. Query 4660 ''example.com.'' TypeA = Inr msg
    \<and> ParseQuestion msg = Inr \<lparr>q_ID = 4660, q_Name = ''example.com'', q_Type = TypeA, q_Class = ClassIN\<rparr>"
  using query_roundtrip [OF valid_example, of 4660 TypeA]
  by (simp add: trim_suffix_def has_suffix_def)

text \<open>
  Claim C31. The hop limit of \<^verbatim>\<open>readName\<close> counts labels as well as compression pointers: a
  name that \<^verbatim>\<open>Query\<close> accepts but that has more than 64 labels (up to 127 fit in 253 bytes)
  is written without an error and can never be read back.
\<close>

theorem query_many_labels_unreadable:
  assumes "valid_name (trim_suffix name ''.'')"
    and "64 < length (name_labels (trim_suffix name ''.''))"
  shows "\<exists>msg. Query qid name t = Inr msg \<and> ParseQuestion msg = Inl ErrMalformed"
  using query_readback [OF assms(1), of qid t] assms(2) by simp

definition many_labels :: string where
  "many_labels = str_join (replicate 65 ''a'') ''.''"

lemma many_labels_ok: "name_labels (trim_suffix many_labels ''.'') = replicate 65 ''a''"
  "valid_name (trim_suffix many_labels ''.'')"
proof -
  have trim: "trim_suffix many_labels ''.'' = many_labels" by code_simp
  have "name_labels many_labels = replicate 65 ''a''"
    unfolding name_labels_def many_labels_def by (rule split_on_join) auto
  moreover have "length many_labels = 129" by code_simp
  moreover from this have "many_labels \<noteq> []" by auto
  ultimately show "name_labels (trim_suffix many_labels ''.'') = replicate 65 ''a''"
    and "valid_name (trim_suffix many_labels ''.'')"
    by (simp_all add: trim valid_name_def label_ok_def)
qed

theorem query_many_labels_unreadable_witness:
  "\<exists>msg. Query 1 many_labels TypeA = Inr msg \<and> ParseQuestion msg = Inl ErrMalformed"
  by (rule query_many_labels_unreadable) (simp_all add: many_labels_ok)

text \<open>One answer record, and the addresses of a list that a question of the given type gets.\<close>

definition answer_record :: "16 word \<Rightarrow> bytes \<Rightarrow> bytes" where
  "answer_record qtype rdata =
     [192, 12] @ u16_bytes qtype @ u16_bytes ClassIN @ u32_bytes 60
       @ u16_bytes (of_nat (length rdata)) @ rdata"

fun without_zone :: "addr \<Rightarrow> addr" where
  "without_zone (V4 w) = V4 w"
| "without_zone (V6 w z) = V6 w []"

definition answered :: "16 word \<Rightarrow> addr list \<Rightarrow> addr list" where
  "answered qtype addrs =
     map without_zone (filter (\<lambda>a. (qtype = TypeA \<and> addr_Is4 a) \<or> (qtype = TypeAAAA \<and> addr_Is6 a)) addrs)"

lemma answered_simps [simp]:
  "answered qtype [] = []"
  "answered qtype (a # as) =
     (if answer_rdata qtype a = None then answered qtype as else without_zone a # answered qtype as)"
  by (auto simp: answered_def answer_rdata_def TypeA_def TypeAAAA_def)

lemma answer_rdata_read:
  assumes "answer_rdata qtype a = Some rdata"
  shows "record_addrs ClassIN qtype (length rdata) rdata = [without_zone a]" and "length rdata \<le> 16"
proof -
  have "record_addrs ClassIN qtype (length rdata) rdata = [without_zone a] \<and> length rdata \<le> 16"
    using assms by (cases a)
      (auto simp: answer_rdata_def record_addrs_def addr_Is6_def AddrFrom4_def AddrFrom16_def
        be_word_be_bytes take_bit_word_eq_self TypeA_def TypeAAAA_def split: if_splits)
  then show "record_addrs ClassIN qtype (length rdata) rdata = [without_zone a]" and "length rdata \<le> 16"
    by simp_all
qed

definition answer_records :: "16 word \<Rightarrow> addr list \<Rightarrow> bytes" where
  "answer_records qtype addrs = concat (map (answer_record qtype) (List.map_filter (answer_rdata qtype) addrs))"

lemma answer_records_simps [simp]:
  "answer_records qtype [] = []"
  "answer_records qtype (a # as) =
     (case answer_rdata qtype a of None \<Rightarrow> answer_records qtype as
      | Some rdata \<Rightarrow> answer_record qtype rdata @ answer_records qtype as)"
  by (simp_all add: answer_records_def List.map_filter_def split: option.splits)

lemma append_answers_eq:
  "append_answers qtype as msg count =
     (msg @ answer_records qtype as, count + of_nat (length (answered qtype as)))"
  by (induction as arbitrary: msg count) (auto simp: answer_record_def split: option.splits)

text \<open>The name of an answer is a pointer to the question's name: one more hop.\<close>

lemma readName_pointer:
  assumes "off \<le> length msg" and "drop off msg = [192, 12] @ post"
    and "12 \<le> length msg" and "drop 12 msg = enc_name name @ post'"
    and "valid_name name" and "length (name_labels name) \<le> 63"
  shows "readName msg off = Inr (name, off + 2)"
proof -
  have "length msg - off = 2 + length post"
    using arg_cong [OF assms(2), of length] by simp
  with assms(1) have len: "off + 2 \<le> length msg" by simp
  have "msg ! off = hd (drop off msg)" using len by (simp add: hd_drop_conv_nth)
  then have b: "msg ! off = 192" by (simp only: assms(2)) simp
  have "u16_bytes 49164 = [192, 12]" by code_simp
  with assms(1,2) have w: "be16_at msg off = Inr 49164" by (intro be16_at_drop) simp_all
  have "read_name_loop msg [] None 0 off = read_name_loop msg [] (Some (off + 2)) 1 12"
    using len b w by (simp add: read_name_loop.simps [of msg "[]" None 0 off] Let_def)
  also have "\<dots> = Inr (str_join ([] @ name_labels name) ''.'', off + 2)"
    using read_labels [of 12 msg "name_labels name" post' "[]" "Some (off + 2)" 1] assms(3-6)
    by (simp add: enc_name_def valid_name_def)
  finally show ?thesis by (simp add: readName_def name_labels_def)
qed

lemma u16_length: "n \<le> 16 \<Longrightarrow> unat (of_nat n :: 16 word) = n"
  by (simp add: unat_of_nat take_bit_eq_mod)

lemma parse_answers_records:
  assumes "12 \<le> length msg" and "drop 12 msg = enc_name name @ post'"
    and "valid_name name" and "length (name_labels name) \<le> 63"
  shows "off \<le> length msg \<Longrightarrow> drop off msg = answer_records qtype as \<Longrightarrow>
    parse_answers msg (length (answered qtype as)) off acc = Inr (acc @ answered qtype as)"
proof (induction as arbitrary: off acc)
  case Nil
  then show ?case by simp
next
  case (Cons a as)
  show ?case
  proof (cases "answer_rdata qtype a")
    case None
    with Cons show ?thesis by simp
  next
    case (Some rdata)
    note rd = answer_rdata_read [OF Some]
    let ?rest = "answer_records qtype as"
    have d: "drop off msg = [192, 12] @ u16_bytes qtype @ u16_bytes ClassIN @ u32_bytes 60
        @ u16_bytes (of_nat (length rdata)) @ rdata @ ?rest"
      using Cons.prems(2) Some by (simp add: answer_record_def)
    have rn: "readName msg off = Inr (name, off + 2)"
      by (rule readName_pointer [OF Cons.prems(1) d assms])
    have "length msg - off = 12 + length rdata + length ?rest"
      using arg_cong [OF d, of length] by simp
    with Cons.prems(1) have len: "length msg = off + 12 + length rdata + length ?rest" by simp
    have dropn: "drop (off + n) msg = drop n (drop off msg)" for n by (simp add: add.commute)
    have ty: "be16_at msg (off + 2) = Inr qtype"
      by (rule be16_at_drop) (use len in simp, simp only: dropn d, simp)
    have cls: "be16_at msg (off + 2 + 2) = Inr ClassIN"
      by (rule be16_at_drop) (use len in simp, simp only: dropn d add.assoc, simp)
    have rl: "be16_at msg (off + 2 + 8) = Inr (of_nat (length rdata))"
      by (rule be16_at_drop) (use len in simp, simp only: dropn d add.assoc, simp)
    have dat: "drop (off + 2 + 10) msg = rdata @ ?rest" by (simp only: dropn d add.assoc) simp
    have sl: "slice_at msg (off + 2 + 10) (length rdata) = Inr rdata"
      using len by (simp only: slice_at_def dat) simp
    have "drop (off + 2 + 10 + length rdata) msg = drop (length rdata) (drop (off + 2 + 10) msg)"
      by (simp add: add.commute)
    then have nxt: "drop (off + 2 + 10 + length rdata) msg = ?rest"
      by (simp only: dat) simp
    have IH: "parse_answers msg (length (answered qtype as)) (off + 2 + 10 + length rdata)
        (acc @ [without_zone a]) = Inr ((acc @ [without_zone a]) @ answered qtype as)"
      using len by (intro Cons.IH nxt) simp
    have bounds: "\<not> length msg < off + 2 + 10" "\<not> length msg < off + 2 + 10 + length rdata"
      using len by simp_all
    have "parse_answers msg (Suc (length (answered qtype as))) off acc
        = Inr ((acc @ [without_zone a]) @ answered qtype as)"
      unfolding parse_answers.simps rn sum.case prod.case ty cls rl Let_def u16_length [OF rd(2)]
        if_not_P [OF bounds(1)] if_not_P [OF bounds(2)] sl rd(1) by (rule IH)
    then show ?thesis using Some by simp
  qed
qed

text \<open>The flags of an answer: a response, not truncated, with the low four bits of the code.\<close>

lemma answer_flags:
  "(33152 OR (r AND 15) :: 16 word) AND 32768 \<noteq> 0"
  "(33152 OR (r AND 15) :: 16 word) AND 512 = 0"
  "(33152 OR (r AND 15) :: 16 word) AND 15 = r AND 15"
  by (simp_all add: bit.conj_disj_distrib2 and.assoc)

lemma answer_rcode: "uint (of_int rcode AND 15 :: 16 word) = rcode mod 16"
proof -
  have "of_int rcode AND 15 = (take_bit 4 (of_int rcode) :: 16 word)"
    by (simp add: take_bit_eq_mask mask_eq_exp_minus_1)
  then have "uint (of_int rcode AND 15 :: 16 word) = take_bit 4 (take_bit 16 rcode)"
    by (simp add: unsigned_take_bit_eq uint_word_of_int_eq del: take_bit_take_bit)
  then show ?thesis by (simp add: take_bit_eq_mod mod_mod_cancel)
qed

lemma Answer_bytes:
  assumes "valid_name (trim_suffix (q_Name q) ''.'')"
  shows "Answer q rcode addrs =
    Inr (header_bytes (q_ID q) (33152 OR (of_int rcode AND 15)) (of_nat (length (answered (q_Type q) addrs)))
      @ enc_name (trim_suffix (q_Name q) ''.'') @ u16_bytes (q_Type q) @ u16_bytes ClassIN
      @ answer_records (q_Type q) addrs)"
  using assms
  by (simp add: Answer_def appendName_spec Let_def append_answers_eq header_bytes_def)

text \<open>What \<^verbatim>\<open>Parse\<close> makes of an answer.\<close>

lemma answer_parsed:
  assumes "valid_name (trim_suffix (q_Name q) ''.'')"
    and "length (name_labels (trim_suffix (q_Name q) ''.'')) \<le> 63"
    and "length (answered (q_Type q) addrs) < 65536"
  shows "\<exists>msg. Answer q rcode addrs = Inr msg \<and>
    Parse msg = Inr \<lparr>rsp_ID = q_ID q, rsp_RCode = rcode mod 16, rsp_Truncated = False,
      rsp_Question = \<lparr>q_ID = q_ID q, q_Name = trim_suffix (q_Name q) ''.'', q_Type = q_Type q,
        q_Class = ClassIN\<rparr>,
      rsp_Addrs = answered (q_Type q) addrs\<rparr>"
proof -
  let ?name = "trim_suffix (q_Name q) ''.''"
  let ?flags = "33152 OR (of_int rcode AND 15) :: 16 word"
  let ?an = "of_nat (length (answered (q_Type q) addrs)) :: 16 word"
  let ?recs = "answer_records (q_Type q) addrs"
  define body where "body = enc_name ?name @ u16_bytes (q_Type q) @ u16_bytes ClassIN @ ?recs"
  define msg where "msg = header_bytes (q_ID q) ?flags ?an @ body"
  let ?off = "12 + length (enc_name ?name) + 4"
  have ans: "Answer q rcode addrs = Inr msg"
    using Answer_bytes [OF assms(1)] by (simp add: msg_def body_def)
  have len: "12 \<le> length msg" by (simp add: msg_def)
  have d: "drop 12 msg = enc_name ?name @ u16_bytes (q_Type q) @ u16_bytes ClassIN @ ?recs"
    by (simp add: msg_def body_def)
  note reads = question_reads [OF assms(1) len d]
  have hdr: "be16_at msg 0 = Inr (q_ID q)" "be16_at msg 2 = Inr ?flags"
    "be16_at msg 4 = Inr 1" "be16_at msg 6 = Inr ?an"
    unfolding msg_def by (rule header_reads)+
  have an: "unat ?an = length (answered (q_Type q) addrs)"
    using assms(3) by (simp add: unat_of_nat take_bit_eq_mod)
  have qs: "parse_questions msg (q_ID q) 1 0 12 no_question =
      Inr (?off, \<lparr>q_ID = q_ID q, q_Name = ?name, q_Type = q_Type q, q_Class = ClassIN\<rparr>)"
    using reads assms(2) by simp
  have recs: "parse_answers msg (length (answered (q_Type q) addrs)) ?off [] = Inr ([] @ answered (q_Type q) addrs)"
    by (rule parse_answers_records [OF len d assms(1,2) reads(4,5)])
  have "Parse msg = Inr \<lparr>rsp_ID = q_ID q, rsp_RCode = rcode mod 16, rsp_Truncated = False,
      rsp_Question = \<lparr>q_ID = q_ID q, q_Name = ?name, q_Type = q_Type q, q_Class = ClassIN\<rparr>,
      rsp_Addrs = answered (q_Type q) addrs\<rparr>"
    using len hdr an qs recs answer_rcode [of rcode] by (simp add: Parse_def answer_flags)
  with ans show ?thesis by blast
qed

text \<open>
  Claim C11. An answer round-trips: what \<^verbatim>\<open>Answer\<close> builds for a question, \<^verbatim>\<open>Parse\<close> reads back as
  a response with the same identifier and question, the code modulo 16, no truncation, and
  exactly the addresses that match the question's type, in order and without their zone.
  (A name of at most 63 labels: the records' pointer to it costs one more hop; the count is 16 bits.)
\<close>

theorem answer_roundtrip:
  assumes "valid_name (trim_suffix (q_Name q) ''.'')"
    and "length (name_labels (trim_suffix (q_Name q) ''.'')) \<le> 63"
    and "length (answered (q_Type q) addrs) < 65536"
  shows "\<exists>msg. Answer q rcode addrs = Inr msg \<and>
    Parse msg = Inr \<lparr>rsp_ID = q_ID q, rsp_RCode = rcode mod 16, rsp_Truncated = False,
      rsp_Question = \<lparr>q_ID = q_ID q, q_Name = trim_suffix (q_Name q) ''.'', q_Type = q_Type q,
        q_Class = ClassIN\<rparr>,
      rsp_Addrs = answered (q_Type q) addrs\<rparr>"
  using assms by (rule answer_parsed)

definition example_question :: question where
  "example_question = \<lparr>q_ID = 4660, q_Name = ''example.com'', q_Type = TypeA, q_Class = ClassIN\<rparr>"

theorem answer_roundtrip_witness:
  "\<exists>msg r. Answer example_question 3 [V4 (v4_of 1 2 3 4), V6 1 []] = Inr msg
    \<and> Parse msg = Inr r \<and> rsp_Addrs r = [V4 (v4_of 1 2 3 4)] \<and> rsp_RCode r = 3"
proof -
  let ?addrs = "[V4 (v4_of 1 2 3 4), V6 1 []]"
  have trim: "trim_suffix (q_Name example_question) ''.'' = ''example.com''"
    by (simp add: example_question_def trim_suffix_def has_suffix_def)
  have ans: "answered (q_Type example_question) ?addrs = [V4 (v4_of 1 2 3 4)]"
    by (simp add: example_question_def answer_rdata_def TypeA_def TypeAAAA_def)
  have v: "valid_name (trim_suffix (q_Name example_question) ''.'')"
    using readable_example by (simp only: trim readable_name_def)
  have n: "length (name_labels (trim_suffix (q_Name example_question) ''.'')) \<le> 63"
    unfolding trim by (simp add: name_labels_def)
  have c: "length (answered (q_Type example_question) ?addrs) < 65536"
    by (simp only: ans) simp
  from answer_roundtrip [OF v n c, of 3] obtain msg where "Answer example_question 3 ?addrs = Inr msg"
    and "Parse msg = Inr \<lparr>rsp_ID = q_ID example_question, rsp_RCode = 3 mod 16, rsp_Truncated = False,
      rsp_Question = \<lparr>q_ID = q_ID example_question, q_Name = trim_suffix (q_Name example_question) ''.'',
        q_Type = q_Type example_question, q_Class = ClassIN\<rparr>,
      rsp_Addrs = answered (q_Type example_question) ?addrs\<rparr>" by blast
  then show ?thesis unfolding ans by fastforce
qed

end
