(* ===== verification/Dnscheck.thy ===== *)
theory Dnscheck
  imports Netx Signatures Dnswire
begin

text \<open>
  Package dnscheck. The resolvers of resolvers.go: the UDP exchange (\<open>recv_match\<close> is the receive
  loop, \<open>udpExchange\<close> the whole call), \<open>addrsFrom\<close> and the three \<open>Lookup\<close> methods. What the
  operating system, the socket and the HTTP client answer is a parameter of each. Then check.go:
  answers, \<open>Resolve\<close> with one write per goroutine, \<open>Analyze\<close> loop by loop, \<open>IsBogon\<close> and the
  interception test.

  The locale \<open>ipv4_lookup\<close> is the contract of the Go interface \<^verbatim>\<open>Resolver\<close>: a lookup that
  succeeds returns at least one address and only IPv4 addresses. It is interpreted on the three
  resolvers. The address union is an instance of the prelude's \<open>ordered_dedup\<close>.
\<close>

section \<open>Resolver errors\<close>

datatype resolver_kind = NoKind | KindSystem | KindUDP | KindDoH

fun resolver_kind_text :: "resolver_kind \<Rightarrow> string" where
  "resolver_kind_text NoKind = []"
| "resolver_kind_text KindSystem = ''system''"
| "resolver_kind_text KindUDP = ''udp''"
| "resolver_kind_text KindDoH = ''doh''"

definition ErrNXDomain :: goerr where
  "ErrNXDomain = GoErr KNXDomain None False ''name does not exist (NXDOMAIN)'' []"

definition ErrNoAnswer :: goerr where
  "ErrNoAnswer = GoErr KNoAnswer None False ''no IPv4 addresses in answer'' []"

definition rcode_text :: "int \<Rightarrow> string" where
  "rcode_text n =
     (if n = RCodeServFail then ''server failure (SERVFAIL)''
      else if n = RCodeRefused then ''query refused (REFUSED)''
      else ''DNS error code '' @ itoa n)"

definition RCodeError :: "int \<Rightarrow> goerr" where
  "RCodeError n = GoErr (KRCode n) None False (rcode_text n) []"

fun is_RCode :: "err_tag \<Rightarrow> bool" where
  "is_RCode (KRCode n) = True"
| "is_RCode _ = False"

text \<open>The errors of package dnswire as Go errors (a panic is no value: \<open>Parse_outcomes\<close>).\<close>

fun wire_error :: "dns_error \<Rightarrow> goerr" where
  "wire_error ErrMalformed = errors_New ''malformed DNS message''"
| "wire_error ErrNotResponse =
     GoErr KPlain None False ''malformed DNS message: not a response'' [errors_New ''malformed DNS message'']"
| "wire_error (ErrInvalidName n) = errors_New (''invalid DNS name \"'' @ n @ ''\"'')"
| "wire_error IndexPanic = errors_New ''index out of range''"

section \<open>Resolvers\<close>

text \<open>\<^verbatim>\<open>System.Lookup\<close>, given what \<^verbatim>\<open>LookupNetIP\<close> returned.\<close>

definition System_Lookup :: "goerr + addr list \<Rightarrow> goerr + addr list" where
  "System_Lookup r =
     (case r of
        Inl err \<Rightarrow>
          (case find_err (\<lambda>n. is_DNSError (err_kind n)) err of
             Some n \<Rightarrow> (case err_kind n of
                 KDNSError tmo notfound \<Rightarrow> if notfound then Inl ErrNXDomain else Inl err
               | _ \<Rightarrow> Inl err)
           | None \<Rightarrow> Inl err)
      | Inr addrs \<Rightarrow>
          (let addrs' = map addr_Unmap addrs in
           if addrs' = [] then Inl ErrNoAnswer else Inr addrs'))"

text \<open>\<^verbatim>\<open>sameName\<close>: \<^verbatim>\<open>EqualFold\<close> on names without their final dot (ASCII names).\<close>

definition sameName :: "string \<Rightarrow> string \<Rightarrow> bool" where
  "sameName a b \<longleftrightarrow> to_lower (trim_suffix a ''.'') = to_lower (trim_suffix b ''.'')"

text \<open>
  A UDP socket during one exchange: whether the dial and the write fail, the datagrams that
  arrive before the deadline, in order, and the error of the read that finds none left.
\<close>

record udp_obs =
  uo_Dial :: "goerr option"
  uo_Write :: "goerr option"
  uo_Datagrams :: "bytes list"
  uo_ReadErr :: goerr

definition udp_buffer :: nat where "udp_buffer = 1500"

fun recv_match :: "16 word \<Rightarrow> string \<Rightarrow> bytes list \<Rightarrow> goerr \<Rightarrow> goerr + response" where
  "recv_match qid host [] err = Inl err"
| "recv_match qid host (d # ds) err =
     (case Parse (take udp_buffer d) of
        Inl e \<Rightarrow> recv_match qid host ds err
      | Inr resp \<Rightarrow>
          if rsp_ID resp \<noteq> qid \<or> \<not> sameName (q_Name (rsp_Question resp)) host
          then recv_match qid host ds err
          else Inr resp)"

definition udpExchange :: "16 word \<Rightarrow> udp_obs \<Rightarrow> string \<Rightarrow> goerr + response" where
  "udpExchange qid obs host =
     (case Query qid host TypeA of
        Inl e \<Rightarrow> Inl (wire_error e)
      | Inr q \<Rightarrow>
          (case uo_Dial obs of
             Some err \<Rightarrow> Inl err
           | None \<Rightarrow>
               (case uo_Write obs of
                  Some err \<Rightarrow> Inl err
                | None \<Rightarrow> recv_match qid host (uo_Datagrams obs) (uo_ReadErr obs))))"

fun collect_v4 :: "addr list \<Rightarrow> addr list" where
  "collect_v4 [] = []"
| "collect_v4 (a # as) =
     (if addr_Is4 a \<or> addr_Is4In6 a then addr_Unmap a # collect_v4 as else collect_v4 as)"

definition addrsFrom :: "response \<Rightarrow> goerr + addr list" where
  "addrsFrom resp =
     (if rsp_RCode resp = RCodeSuccess then
        (let out = collect_v4 (rsp_Addrs resp) in
         if out = [] then Inl ErrNoAnswer else Inr out)
      else if rsp_RCode resp = RCodeNXDomain then Inl ErrNXDomain
      else Inl (RCodeError (rsp_RCode resp)))"

definition UDP_Lookup :: "16 word \<Rightarrow> udp_obs \<Rightarrow> string \<Rightarrow> goerr + addr list" where
  "UDP_Lookup qid obs host =
     (case udpExchange qid obs host of Inl err \<Rightarrow> Inl err | Inr resp \<Rightarrow> addrsFrom resp)"

definition UDP_Name :: "string \<Rightarrow> string \<Rightarrow> string" where
  "UDP_Name label addr = (if label \<noteq> [] then label else addr)"

definition DoH_Name :: "string \<Rightarrow> string \<Rightarrow> string" where
  "DoH_Name label url = (if label \<noteq> [] then label else url)"

text \<open>
  What the HTTP client does with a DoH request: the request is not built, the exchange fails, or
  there is a status, the bytes of the body and the error that cuts the body short.
\<close>

datatype doh_obs =
    DoHRequestErr goerr
  | DoHDoErr goerr
  | DoHResponse int bytes "goerr option"

definition doh_limit :: nat where "doh_limit = 65535"

definition DoH_Lookup :: "doh_obs \<Rightarrow> string \<Rightarrow> goerr + addr list" where
  "DoH_Lookup obs host =
     (case Query 0 host TypeA of
        Inl e \<Rightarrow> Inl (wire_error e)
      | Inr q \<Rightarrow>
          (case obs of
             DoHRequestErr err \<Rightarrow> Inl err
           | DoHDoErr err \<Rightarrow> Inl err
           | DoHResponse code body berr \<Rightarrow>
               if code \<noteq> 200 then Inl (errors_New (''DoH server answered HTTP '' @ itoa code))
               else if length body < doh_limit \<and> berr \<noteq> None then Inl (the berr)
               else (case Parse (take doh_limit body) of
                   Inl e \<Rightarrow> Inl (wire_error e)
                 | Inr msg \<Rightarrow> addrsFrom msg)))"

section \<open>Answers\<close>

record dns_answer =
  da_Resolver :: string
  da_Kind :: resolver_kind
  da_Addrs :: "addr list"
  da_Err :: "goerr option"
  da_Duration :: int

definition no_answer :: dns_answer where
  "no_answer = \<lparr>da_Resolver = [], da_Kind = NoKind, da_Addrs = [], da_Err = None, da_Duration = 0\<rparr>"

definition answer_OK :: "dns_answer \<Rightarrow> bool" where
  "answer_OK a \<longleftrightarrow> da_Err a = None \<and> 0 < length (da_Addrs a)"

definition Answered :: "dns_answer \<Rightarrow> bool" where
  "Answered a =
     (case da_Err a of
        None \<Rightarrow> True
      | Some e \<Rightarrow> err_is (\<lambda>k. k = KNXDomain) e \<or> err_is (\<lambda>k. k = KNoAnswer) e \<or> err_is is_RCode e)"

definition FailureKind :: "dns_answer \<Rightarrow> string" where
  "FailureKind a =
     (case da_Err a of
        None \<Rightarrow> []
      | Some e \<Rightarrow>
          if err_is (\<lambda>k. k = KNXDomain) e then ''nxdomain''
          else if err_is (\<lambda>k. k = KNoAnswer) e then ''noanswer''
          else (case Classify (Some e) of
              KindTimeout \<Rightarrow> ''timeout''
            | KindRefused \<Rightarrow> ''refused''
            | _ \<Rightarrow> ''error''))"

record dns_result =
  dr_Host :: string
  dr_System :: dns_answer
  dr_Public :: "dns_answer list"
  dr_DoH :: "dns_answer list"

section \<open>Resolve\<close>

text \<open>
  A resolver is its name, its kind and what its lookup returns for a deadline and a host, with
  the time it took. \<open>Resolve\<close> starts one goroutine per resolver; each writes one slot of the
  result, its own, and \<^verbatim>\<open>wg.Wait\<close> returns when all have. A run is therefore the order in
  which the slots are written.
\<close>

record resolver =
  rv_Name :: string
  rv_Kind :: resolver_kind
  rv_Lookup :: "int \<Rightarrow> string \<Rightarrow> (goerr + addr list) \<times> int"

record resolvers =
  rs_System :: "resolver option"
  rs_Public :: "resolver list"
  rs_DoH :: "resolver list"

definition lookup_answer :: "int \<Rightarrow> string \<Rightarrow> resolver \<Rightarrow> dns_answer" where
  "lookup_answer timeout host r =
     (case rv_Lookup r timeout host of (res, d) \<Rightarrow>
        \<lparr>da_Resolver = rv_Name r, da_Kind = rv_Kind r,
         da_Addrs = (case res of Inl e \<Rightarrow> [] | Inr as \<Rightarrow> as),
         da_Err = (case res of Inl e \<Rightarrow> Some e | Inr as \<Rightarrow> None), da_Duration = d\<rparr>)"

datatype slot = SystemSlot | PublicSlot nat | DoHSlot nat

definition slots :: "resolvers \<Rightarrow> slot list" where
  "slots rs =
     (case rs_System rs of None \<Rightarrow> [] | Some r \<Rightarrow> [SystemSlot])
     @ map PublicSlot [0 ..< length (rs_Public rs)] @ map DoHSlot [0 ..< length (rs_DoH rs)]"

fun write_slot :: "int \<Rightarrow> resolvers \<Rightarrow> dns_result \<Rightarrow> slot \<Rightarrow> dns_result" where
  "write_slot timeout rs res SystemSlot =
     (case rs_System rs of None \<Rightarrow> res
      | Some r \<Rightarrow> res\<lparr>dr_System := lookup_answer timeout (dr_Host res) r\<rparr>)"
| "write_slot timeout rs res (PublicSlot i) =
     res\<lparr>dr_Public := (dr_Public res)[i := lookup_answer timeout (dr_Host res) (rs_Public rs ! i)]\<rparr>"
| "write_slot timeout rs res (DoHSlot i) =
     res\<lparr>dr_DoH := (dr_DoH res)[i := lookup_answer timeout (dr_Host res) (rs_DoH rs ! i)]\<rparr>"

definition empty_result :: "string \<Rightarrow> resolvers \<Rightarrow> dns_result" where
  "empty_result host rs =
     \<lparr>dr_Host = host, dr_System = no_answer,
      dr_Public = replicate (length (rs_Public rs)) no_answer,
      dr_DoH = replicate (length (rs_DoH rs)) no_answer\<rparr>"

definition Resolve_order :: "string \<Rightarrow> resolvers \<Rightarrow> int \<Rightarrow> slot list \<Rightarrow> dns_result" where
  "Resolve_order host rs timeout order = foldl (write_slot timeout rs) (empty_result host rs) order"

definition Resolve :: "string \<Rightarrow> resolvers \<Rightarrow> int \<Rightarrow> dns_result" where
  "Resolve host rs timeout = Resolve_order host rs timeout (slots rs)"

section \<open>Bogons\<close>

definition extraBogons :: "prefix4 list" where
  "extraBogons =
     [Prefix4 (v4_of 0 0 0 0) 8, Prefix4 (v4_of 100 64 0 0) 10, Prefix4 (v4_of 192 0 0 0) 24,
      Prefix4 (v4_of 192 0 2 0) 24, Prefix4 (v4_of 198 18 0 0) 15, Prefix4 (v4_of 198 51 100 0) 24,
      Prefix4 (v4_of 203 0 113 0) 24, Prefix4 (v4_of 240 0 0 0) 4]"

fun in_some_prefix :: "addr \<Rightarrow> prefix4 list \<Rightarrow> bool" where
  "in_some_prefix a [] = False"
| "in_some_prefix a (p # ps) = (if prefix_Contains p a then True else in_some_prefix a ps)"

definition IsBogon :: "addr \<Rightarrow> bool" where
  "IsBogon addr =
     (let a = addr_Unmap addr in
      if \<not> addr_IsGlobalUnicast a \<or> addr_IsPrivate a then True else in_some_prefix a extraBogons)"

fun hasBad :: "addr list \<Rightarrow> sig_set \<Rightarrow> bool" where
  "hasBad [] sigs = False"
| "hasBad (a # as) sigs = (if IsBlockIP sigs a then True else hasBad as sigs)"

fun allBogon :: "addr list \<Rightarrow> bool" where
  "allBogon [] = True"
| "allBogon (a # as) = (if \<not> IsBogon a then False else allBogon as)"

fun addr_found :: "addr \<Rightarrow> addr list \<Rightarrow> bool" where
  "addr_found x [] = False"
| "addr_found x (y # ys) = (if x = y then True else addr_found x ys)"

definition union_step :: "addr list \<Rightarrow> addr \<Rightarrow> addr list" where
  "union_step a x = (if \<not> addr_found x a then a @ [x] else a)"

definition union :: "addr list \<Rightarrow> addr list \<Rightarrow> addr list" where
  "union a b = foldl union_step a b"

fun intersects :: "addr list \<Rightarrow> addr list \<Rightarrow> bool" where
  "intersects [] b = False"
| "intersects (x # xs) b = (if addr_found x b then True else intersects xs b)"

section \<open>Analyze\<close>

record analysis =
  an_Reference :: "addr list"
  an_ReferenceKind :: resolver_kind
  an_BlockIPs :: "addr list"
  an_Bogons :: "addr list"
  an_Suspects :: "addr list"
  an_InjectedPublic :: bool
  an_SystemFailure :: string
  an_Unresolvable :: bool
  an_DoHUnavailable :: bool
  an_AllPlainTimeout :: bool
  an_Dropped :: bool

definition empty_analysis :: analysis where
  "empty_analysis =
     \<lparr>an_Reference = [], an_ReferenceKind = NoKind, an_BlockIPs = [], an_Bogons = [],
      an_Suspects = [], an_InjectedPublic = False, an_SystemFailure = [], an_Unresolvable = False,
      an_DoHUnavailable = False, an_AllPlainTimeout = False, an_Dropped = False\<rparr>"

definition Poisoned :: "analysis \<Rightarrow> bool" where
  "Poisoned a \<longleftrightarrow> 0 < length (an_BlockIPs a) \<or> 0 < length (an_Bogons a)"

definition doh_step :: "analysis \<Rightarrow> dns_answer \<Rightarrow> analysis" where
  "doh_step a ans =
     (if answer_OK ans
      then a\<lparr>an_Reference := union (an_Reference a) (da_Addrs ans), an_ReferenceKind := KindDoH\<rparr>
      else a)"

fun fallback_reference :: "sig_set \<Rightarrow> dns_answer list \<Rightarrow> analysis \<Rightarrow> analysis" where
  "fallback_reference sigs [] a = a"
| "fallback_reference sigs (ans # rest) a =
     (if answer_OK ans \<and> \<not> hasBad (da_Addrs ans) sigs
      then a\<lparr>an_Reference := union (an_Reference a) (da_Addrs ans), an_ReferenceKind := da_Kind ans\<rparr>
      else fallback_reference sigs rest a)"

text \<open>The inner loop over the addresses of one plain answer; the flag is the code's \<^verbatim>\<open>bad\<close>.\<close>

definition addr_step :: "sig_set \<Rightarrow> bool \<Rightarrow> analysis \<times> bool \<Rightarrow> addr \<Rightarrow> analysis \<times> bool" where
  "addr_step sigs refPublic s ip =
     (case s of (a, bad) \<Rightarrow>
        if IsBlockIP sigs ip then (a\<lparr>an_BlockIPs := union (an_BlockIPs a) [ip]\<rparr>, True)
        else if refPublic \<and> IsBogon ip then (a\<lparr>an_Bogons := union (an_Bogons a) [ip]\<rparr>, True)
        else (a, bad))"

definition plain_step :: "sig_set \<Rightarrow> bool \<Rightarrow> analysis \<Rightarrow> nat \<times> dns_answer \<Rightarrow> analysis" where
  "plain_step sigs refPublic a ians =
     (case ians of (i, ans) \<Rightarrow>
        if \<not> answer_OK ans then a
        else (case foldl (addr_step sigs refPublic) (a, False) (da_Addrs ans) of (a', bad) \<Rightarrow>
            if bad \<and> 0 < i \<and> an_ReferenceKind a' = KindDoH then a'\<lparr>an_InjectedPublic := True\<rparr>
            else a'))"

definition reference_phase :: "dns_result \<Rightarrow> sig_set \<Rightarrow> analysis" where
  "reference_phase r sigs =
     (let a = foldl doh_step empty_analysis (dr_DoH r) in
      if length (an_Reference a) = 0 then fallback_reference sigs (dr_Public r @ [dr_System r]) a else a)"

definition scan_phase :: "dns_result \<Rightarrow> sig_set \<Rightarrow> analysis \<Rightarrow> analysis" where
  "scan_phase r sigs a =
     (let refPublic = (0 < length (an_Reference a) \<and> \<not> allBogon (an_Reference a))
      in foldl (plain_step sigs refPublic) a (enumerate 0 (dr_System r # dr_Public r)))"

definition suspects_phase :: "dns_result \<Rightarrow> analysis \<Rightarrow> analysis" where
  "suspects_phase r a =
     (if answer_OK (dr_System r) \<and> 0 < length (an_Reference a) \<and> \<not> Poisoned a
         \<and> \<not> intersects (da_Addrs (dr_System r)) (an_Reference a)
      then a\<lparr>an_Suspects := da_Addrs (dr_System r)\<rparr> else a)"

definition failure_phase :: "dns_result \<Rightarrow> analysis \<Rightarrow> analysis" where
  "failure_phase r a =
     (if \<not> answer_OK (dr_System r) \<and> da_Resolver (dr_System r) \<noteq> [] \<and> 0 < length (an_Reference a)
      then a\<lparr>an_SystemFailure := FailureKind (dr_System r)\<rparr> else a)"

definition unresolvable_phase :: "analysis \<Rightarrow> analysis" where
  "unresolvable_phase a =
     (if length (an_Reference a) = 0 \<and> length (an_BlockIPs a) = 0 \<and> length (an_Bogons a) = 0
      then a\<lparr>an_Unresolvable := True\<rparr> else a)"

definition doh_step2 :: "analysis \<Rightarrow> dns_answer \<Rightarrow> analysis" where
  "doh_step2 a ans = (if Answered ans then a\<lparr>an_DoHUnavailable := False\<rparr> else a)"

definition doh_phase :: "dns_result \<Rightarrow> analysis \<Rightarrow> analysis" where
  "doh_phase r a =
     (if 0 < length (dr_DoH r) then foldl doh_step2 (a\<lparr>an_DoHUnavailable := True\<rparr>) (dr_DoH r) else a)"

definition timeout_step :: "analysis \<Rightarrow> dns_answer \<Rightarrow> analysis" where
  "timeout_step a ans =
     (if da_Resolver ans \<noteq> [] \<and> FailureKind ans \<noteq> ''timeout''
      then a\<lparr>an_AllPlainTimeout := False\<rparr> else a)"

definition timeout_phase :: "dns_result \<Rightarrow> analysis \<Rightarrow> analysis" where
  "timeout_phase r a =
     (if 0 < length (dr_Public r)
      then foldl timeout_step (a\<lparr>an_AllPlainTimeout := True\<rparr>) (dr_System r # dr_Public r) else a)"

definition Analyze :: "dns_result \<Rightarrow> sig_set \<Rightarrow> analysis" where
  "Analyze r sigs =
     (let a0 = reference_phase r sigs;
          a1 = scan_phase r sigs a0;
          a2 = suspects_phase r a1;
          a3 = failure_phase r a2;
          a4 = unresolvable_phase a3;
          a5 = doh_phase r a4
      in timeout_phase r a5)"

section \<open>The interception test\<close>

record interception =
  ic_Probe :: string
  ic_Detected :: bool
  ic_Addrs :: "addr list"
  ic_Err :: "goerr option"

definition CheckInterception :: "16 word \<Rightarrow> udp_obs \<Rightarrow> string \<Rightarrow> interception" where
  "CheckInterception qid obs prb =
     (case udpExchange qid obs ''example.com'' of
        Inl err \<Rightarrow> \<lparr>ic_Probe = prb, ic_Detected = False, ic_Addrs = [], ic_Err = Some err\<rparr>
      | Inr resp \<Rightarrow> \<lparr>ic_Probe = prb, ic_Detected = True, ic_Addrs = rsp_Addrs resp, ic_Err = None\<rparr>)"

section \<open>Facts about the address lists\<close>

lemma addr_found_iff [simp]: "addr_found x ys \<longleftrightarrow> x \<in> set ys"
  by (induction ys) auto

lemma intersects_iff [simp]: "intersects a b \<longleftrightarrow> set a \<inter> set b \<noteq> {}"
  by (induction a) auto

lemma hasBad_iff [simp]: "hasBad as sigs \<longleftrightarrow> (\<exists>a \<in> set as. IsBlockIP sigs a)"
  by (induction as) auto

lemma allBogon_iff [simp]: "allBogon as \<longleftrightarrow> (\<forall>a \<in> set as. IsBogon a)"
  by (induction as) auto

lemma set_collect_v4: "set (collect_v4 as) = addr_Unmap ` {a \<in> set as. addr_Is4 a \<or> addr_Is4In6 a}"
  by (induction as) auto

lemma collect_v4_Is4: "a \<in> set (collect_v4 as) \<Longrightarrow> addr_Is4 a"
proof -
  have "addr_Is4 (addr_Unmap b)" if "addr_Is4 b \<or> addr_Is4In6 b" for b
    using that by (cases b) auto
  then show "a \<in> set (collect_v4 as) \<Longrightarrow> addr_Is4 a"
    by (auto simp: set_collect_v4)
qed

interpretation addr_union: ordered_dedup union_step "\<lambda>s. s" "\<lambda>a. a" "\<lambda>s. True"
  by unfold_locales (auto simp: union_step_def)

lemma set_union [simp]: "set (union a b) = set a \<union> set b"
  using addr_union.keys_fold [of a b] by (simp add: union_def)

lemma distinct_union: "distinct a \<Longrightarrow> distinct (union a b)"
  using addr_union.distinct_fold [of a b] by (simp add: union_def)

lemma union_Nil [simp]: "union a [] = a"
  by (simp add: union_def)

lemma union_append: "union (union a b) c = union a (b @ c)"
  by (simp add: union_def)

section \<open>The interface of a resolver\<close>

text \<open>A resolver of the given name and kind whose lookup ends with the given outcome.\<close>

definition resolver_of :: "string \<Rightarrow> resolver_kind \<Rightarrow> goerr + addr list \<Rightarrow> int \<Rightarrow> resolver" where
  "resolver_of nm k res d = \<lparr>rv_Name = nm, rv_Kind = k, rv_Lookup = (\<lambda>timeout host. (res, d))\<rparr>"

locale ipv4_lookup =
  fixes lookup :: "'obs \<Rightarrow> goerr + addr list"
    and valid :: "'obs \<Rightarrow> bool"
  assumes lookup_addrs: "valid ob \<Longrightarrow> lookup ob = Inr as \<Longrightarrow> as \<noteq> [] \<and> (\<forall>a \<in> set as. addr_Is4 a)"
begin

lemma answer_OK_iff: "valid ob \<Longrightarrow> answer_OK (lookup_answer t h (resolver_of nm k (lookup ob) d)) \<longleftrightarrow> (\<exists>as. lookup ob = Inr as)"
  using lookup_addrs [of ob] by (cases "lookup ob") (auto simp: lookup_answer_def resolver_of_def answer_OK_def)

lemma answer_FailureKind_Nil:
  "FailureKind (lookup_answer t h (resolver_of nm k (lookup ob) d)) = [] \<longleftrightarrow> (\<exists>as. lookup ob = Inr as)"
  by (cases "lookup ob") (auto simp: lookup_answer_def resolver_of_def FailureKind_def split: errkind.splits)

lemma answer_or_failure:
  "valid ob \<Longrightarrow> answer_OK (lookup_answer t h (resolver_of nm k (lookup ob) d)) \<longleftrightarrow> FailureKind (lookup_answer t h (resolver_of nm k (lookup ob) d)) = []"
  by (simp add: answer_OK_iff answer_FailureKind_Nil)

lemma answer_Is4:
  assumes "valid ob" and "a \<in> set (da_Addrs (lookup_answer t h (resolver_of nm k (lookup ob) d)))"
  shows "addr_Is4 a"
proof (cases "lookup ob")
  case (Inl e)
  with assms(2) show ?thesis by (simp add: lookup_answer_def resolver_of_def)
next
  case (Inr as)
  with assms(2) lookup_addrs [OF assms(1) Inr] show ?thesis by (simp add: lookup_answer_def resolver_of_def)
qed

end

lemma addrsFrom_addrs: "addrsFrom resp = Inr as \<Longrightarrow> as \<noteq> [] \<and> (\<forall>a \<in> set as. addr_Is4 a)"
  using collect_v4_Is4 [of _ "rsp_Addrs resp"]
  by (auto simp: addrsFrom_def Let_def split: if_splits)

lemma UDP_Lookup_addrs: "UDP_Lookup qid obs host = Inr as \<Longrightarrow> as \<noteq> [] \<and> (\<forall>a \<in> set as. addr_Is4 a)"
  using addrsFrom_addrs by (fastforce simp: UDP_Lookup_def split: sum.splits)

interpretation udp: ipv4_lookup "\<lambda>(qid, obs, host). UDP_Lookup qid obs host" "\<lambda>ob. True"
  by unfold_locales (auto dest: UDP_Lookup_addrs split: prod.splits)

lemma DoH_Lookup_addrs: "DoH_Lookup obs host = Inr as \<Longrightarrow> as \<noteq> [] \<and> (\<forall>a \<in> set as. addr_Is4 a)"
  using addrsFrom_addrs by (fastforce simp: DoH_Lookup_def split: sum.splits doh_obs.splits if_splits)

interpretation doh: ipv4_lookup "\<lambda>(obs, host). DoH_Lookup obs host" "\<lambda>ob. True"
  by unfold_locales (auto dest: DoH_Lookup_addrs split: prod.splits)

lemma System_Lookup_addrs:
  assumes "System_Lookup r = Inr as" and "\<forall>l. r = Inr l \<longrightarrow> (\<forall>a \<in> set l. addr_Is4 a \<or> addr_Is4In6 a)"
  shows "as \<noteq> [] \<and> (\<forall>a \<in> set as. addr_Is4 a)"
proof (cases r)
  case (Inl e)
  with assms(1) show ?thesis
    by (auto simp: System_Lookup_def split: option.splits err_tag.splits if_splits)
next
  case (Inr l)
  have "addr_Is4 (addr_Unmap b)" if "addr_Is4 b \<or> addr_Is4In6 b" for b
    using that by (cases b) auto
  with Inr assms show ?thesis
    by (auto simp: System_Lookup_def Let_def split: if_splits)
qed

text \<open>The system resolver was asked for the network \<^verbatim>\<open>ip4\<close>: what it returns is IPv4 or mapped IPv4.\<close>

interpretation system: ipv4_lookup System_Lookup
  "\<lambda>r. \<forall>l. r = Inr l \<longrightarrow> (\<forall>a \<in> set l. addr_Is4 a \<or> addr_Is4In6 a)"
  by unfold_locales (auto dest: System_Lookup_addrs)

section \<open>The UDP exchange\<close>

definition dgram_matches :: "16 word \<Rightarrow> string \<Rightarrow> bytes \<Rightarrow> response option" where
  "dgram_matches qid host d =
     (case Parse (take udp_buffer d) of
        Inl e \<Rightarrow> None
      | Inr resp \<Rightarrow> if rsp_ID resp = qid \<and> sameName (q_Name (rsp_Question resp)) host then Some resp else None)"

lemma recv_match_eq:
  "recv_match qid host ds err =
     (case List.map_filter (dgram_matches qid host) ds of [] \<Rightarrow> Inl err | resp # rest \<Rightarrow> Inr resp)"
  by (induction ds) (auto simp: dgram_matches_def map_filter_simps split: sum.splits)

section \<open>The loops of Analyze in closed form\<close>

definition plain :: "dns_result \<Rightarrow> dns_answer list" where
  "plain r = dr_System r # dr_Public r"

definition bad_addr :: "sig_set \<Rightarrow> bool \<Rightarrow> addr \<Rightarrow> bool" where
  "bad_addr sigs refPublic ip \<longleftrightarrow> IsBlockIP sigs ip \<or> (refPublic \<and> IsBogon ip)"

lemma foldl_union_set: "set (foldl union a bs) = set a \<union> \<Union> (set ` set bs)"
  by (induction bs arbitrary: a) auto

lemma foldl_union_distinct: "distinct a \<Longrightarrow> distinct (foldl union a bs)"
  by (induction bs arbitrary: a) (auto intro: distinct_union)

lemma doh_loop:
  "foldl doh_step a ds =
     a\<lparr>an_Reference := foldl union (an_Reference a) (map da_Addrs (filter answer_OK ds)),
       an_ReferenceKind := (if \<exists>ans \<in> set ds. answer_OK ans then KindDoH else an_ReferenceKind a)\<rparr>"
  by (induction ds arbitrary: a) (auto simp: doh_step_def)

lemma fallback_eq:
  "fallback_reference sigs ds a =
     (case find (\<lambda>ans. answer_OK ans \<and> \<not> hasBad (da_Addrs ans) sigs) ds of
        None \<Rightarrow> a
      | Some ans \<Rightarrow> a\<lparr>an_Reference := union (an_Reference a) (da_Addrs ans), an_ReferenceKind := da_Kind ans\<rparr>)"
  by (induction ds) auto

lemma addr_step_app:
  "addr_step sigs rp (a, bad) ip =
     (a\<lparr>an_BlockIPs := union (an_BlockIPs a) (if IsBlockIP sigs ip then [ip] else []),
        an_Bogons := union (an_Bogons a) (if \<not> IsBlockIP sigs ip \<and> rp \<and> IsBogon ip then [ip] else [])\<rparr>,
      bad \<or> bad_addr sigs rp ip)"
  by (auto simp: addr_step_def bad_addr_def)

lemma addr_loop:
  "foldl (addr_step sigs rp) (a, bad) ips =
     (a\<lparr>an_BlockIPs := union (an_BlockIPs a) (filter (IsBlockIP sigs) ips),
        an_Bogons := union (an_Bogons a) (filter (\<lambda>ip. \<not> IsBlockIP sigs ip \<and> rp \<and> IsBogon ip) ips)\<rparr>,
      bad \<or> (\<exists>ip \<in> set ips. bad_addr sigs rp ip))"
proof (induction ips arbitrary: a bad)
  case Nil
  then show ?case by simp
next
  case (Cons ip ips)
  show ?case
    by (simp add: Cons.IH addr_step_app union_append)
qed

lemma plain_step_app:
  "plain_step sigs rp a (i, ans) =
     (if answer_OK ans
      then a\<lparr>an_BlockIPs := union (an_BlockIPs a) (filter (IsBlockIP sigs) (da_Addrs ans)),
              an_Bogons := union (an_Bogons a)
                (filter (\<lambda>ip. \<not> IsBlockIP sigs ip \<and> rp \<and> IsBogon ip) (da_Addrs ans)),
              an_InjectedPublic := (an_InjectedPublic a \<or> (an_ReferenceKind a = KindDoH \<and> 0 < i
                \<and> (\<exists>ip \<in> set (da_Addrs ans). bad_addr sigs rp ip)))\<rparr>
      else a)"
  by (simp add: plain_step_def addr_loop)

lemma plain_loop:
  "foldl (plain_step sigs rp) a (enumerate n xs) =
     a\<lparr>an_BlockIPs := foldl union (an_BlockIPs a)
           (map (\<lambda>ans. filter (IsBlockIP sigs) (da_Addrs ans)) (filter answer_OK xs)),
       an_Bogons := foldl union (an_Bogons a)
           (map (\<lambda>ans. filter (\<lambda>ip. \<not> IsBlockIP sigs ip \<and> rp \<and> IsBogon ip) (da_Addrs ans)) (filter answer_OK xs)),
       an_InjectedPublic := (an_InjectedPublic a \<or> (an_ReferenceKind a = KindDoH \<and>
          (\<exists>(i, ans) \<in> set (enumerate n xs). 0 < i \<and> answer_OK ans \<and> (\<exists>ip \<in> set (da_Addrs ans). bad_addr sigs rp ip))))\<rparr>"
proof (induction xs arbitrary: a n)
  case Nil
  then show ?case by simp
next
  case (Cons ans xs)
  show ?case
    by (cases "answer_OK ans"; cases "an_ReferenceKind a = KindDoH") (auto simp: Cons.IH plain_step_app)
qed

lemma public_positions:
  "(\<exists>(i, ans) \<in> set (enumerate 0 (x # xs)). 0 < i \<and> P ans) \<longleftrightarrow> (\<exists>ans \<in> set xs. P ans)"
proof
  assume "\<exists>(i, ans) \<in> set (enumerate 0 (x # xs)). 0 < i \<and> P ans"
  then obtain i ans where "(i, ans) \<in> set (enumerate 0 (x # xs))" "0 < i" "P ans" by auto
  then show "\<exists>ans \<in> set xs. P ans"
    by (cases i) (auto simp: in_set_enumerate_eq intro: nth_mem)
next
  assume "\<exists>ans \<in> set xs. P ans"
  then obtain k where "k < length xs" "P (xs ! k)" by (auto simp: in_set_conv_nth)
  then have "(Suc k, xs ! k) \<in> set (enumerate 0 (x # xs))"
    by (simp only: in_set_enumerate_eq) simp
  with \<open>P (xs ! k)\<close> show "\<exists>(i, ans) \<in> set (enumerate 0 (x # xs)). 0 < i \<and> P ans"
    by (intro bexI [of _ "(Suc k, xs ! k)"]) auto
qed

lemma reference_phase_fields [simp]:
  "an_BlockIPs (reference_phase r sigs) = []" "an_Bogons (reference_phase r sigs) = []"
  "an_Suspects (reference_phase r sigs) = []" "\<not> an_InjectedPublic (reference_phase r sigs)"
  "an_SystemFailure (reference_phase r sigs) = []" "\<not> an_Unresolvable (reference_phase r sigs)"
  "\<not> an_DoHUnavailable (reference_phase r sigs)" "\<not> an_AllPlainTimeout (reference_phase r sigs)"
  "\<not> an_Dropped (reference_phase r sigs)"
  by (auto simp: reference_phase_def doh_loop fallback_eq empty_analysis_def Let_def split: option.splits)

definition ref_public :: "addr list \<Rightarrow> bool" where
  "ref_public ref \<longleftrightarrow> (\<exists>a \<in> set ref. \<not> IsBogon a)"

lemma ref_public_code: "0 < length ref \<and> \<not> allBogon ref \<longleftrightarrow> ref_public ref"
  by (auto simp: ref_public_def)

definition found :: "(addr \<Rightarrow> bool) \<Rightarrow> dns_result \<Rightarrow> addr list" where
  "found P r = foldl union [] (map (\<lambda>ans. filter P (da_Addrs ans)) (filter answer_OK (plain r)))"

lemma set_found: "set (found P r) = {ip. P ip \<and> (\<exists>ans \<in> set (plain r). answer_OK ans \<and> ip \<in> set (da_Addrs ans))}"
  by (auto simp: found_def foldl_union_set)

lemma distinct_found: "distinct (found P r)"
  by (simp add: found_def foldl_union_distinct)

lemma scan_phase_eq:
  "scan_phase r sigs (reference_phase r sigs) =
     (let rp = ref_public (an_Reference (reference_phase r sigs)) in
      (reference_phase r sigs)
       \<lparr>an_BlockIPs := found (IsBlockIP sigs) r,
        an_Bogons := found (\<lambda>ip. \<not> IsBlockIP sigs ip \<and> rp \<and> IsBogon ip) r,
        an_InjectedPublic := (an_ReferenceKind (reference_phase r sigs) = KindDoH \<and>
          (\<exists>ans \<in> set (dr_Public r). answer_OK ans \<and> (\<exists>ip \<in> set (da_Addrs ans). bad_addr sigs rp ip)))\<rparr>)"
  by (simp only: scan_phase_def ref_public_code plain_loop public_positions reference_phase_fields
      found_def plain_def Let_def simp_thms)

lemma suspects_phase_eq:
  "suspects_phase r a =
     a\<lparr>an_Suspects := (if answer_OK (dr_System r) \<and> an_Reference a \<noteq> [] \<and> an_BlockIPs a = []
         \<and> an_Bogons a = [] \<and> set (da_Addrs (dr_System r)) \<inter> set (an_Reference a) = {}
       then da_Addrs (dr_System r) else an_Suspects a)\<rparr>"
  by (auto simp: suspects_phase_def Poisoned_def)

lemma failure_phase_eq:
  "failure_phase r a =
     a\<lparr>an_SystemFailure :=
        (if \<not> answer_OK (dr_System r) \<and> da_Resolver (dr_System r) \<noteq> [] \<and> an_Reference a \<noteq> []
         then FailureKind (dr_System r) else an_SystemFailure a)\<rparr>"
  by (auto simp: failure_phase_def)

lemma unresolvable_phase_eq:
  "unresolvable_phase a =
     a\<lparr>an_Unresolvable := (an_Unresolvable a \<or> (an_Reference a = [] \<and> an_BlockIPs a = [] \<and> an_Bogons a = []))\<rparr>"
  by (auto simp: unresolvable_phase_def)

lemma doh_phase_eq:
  "doh_phase r a =
     a\<lparr>an_DoHUnavailable :=
        (if dr_DoH r \<noteq> [] then \<forall>ans \<in> set (dr_DoH r). \<not> Answered ans else an_DoHUnavailable a)\<rparr>"
proof -
  have "foldl doh_step2 a ds =
      a\<lparr>an_DoHUnavailable := (an_DoHUnavailable a \<and> (\<forall>ans \<in> set ds. \<not> Answered ans))\<rparr>" for a ds
    by (induction ds arbitrary: a) (auto simp: doh_step2_def)
  then show ?thesis by (simp add: doh_phase_def)
qed

lemma timeout_phase_eq:
  "timeout_phase r a =
     a\<lparr>an_AllPlainTimeout :=
        (if dr_Public r \<noteq> []
         then \<forall>ans \<in> set (plain r). da_Resolver ans \<noteq> [] \<longrightarrow> FailureKind ans = ''timeout''
         else an_AllPlainTimeout a)\<rparr>"
proof -
  have "foldl timeout_step a ds = a\<lparr>an_AllPlainTimeout := (an_AllPlainTimeout a
      \<and> (\<forall>ans \<in> set ds. da_Resolver ans \<noteq> [] \<longrightarrow> FailureKind ans = ''timeout''))\<rparr>" for a ds
    by (induction ds arbitrary: a) (auto simp: timeout_step_def)
  then show ?thesis by (simp only: timeout_phase_def plain_def) simp
qed

lemma Analyze_fields:
  fixes r sigs
  defines "ref \<equiv> an_Reference (reference_phase r sigs)"
    and "kind \<equiv> an_ReferenceKind (reference_phase r sigs)"
    and "rp \<equiv> ref_public (an_Reference (reference_phase r sigs))"
    and "blk \<equiv> found (IsBlockIP sigs) r"
    and "bog \<equiv> found (\<lambda>ip. \<not> IsBlockIP sigs ip
                 \<and> ref_public (an_Reference (reference_phase r sigs)) \<and> IsBogon ip) r"
  shows "an_Reference (Analyze r sigs) = ref"
    and "an_ReferenceKind (Analyze r sigs) = kind"
    and "an_BlockIPs (Analyze r sigs) = blk"
    and "an_Bogons (Analyze r sigs) = bog"
    and "an_Suspects (Analyze r sigs) =
      (if answer_OK (dr_System r) \<and> ref \<noteq> [] \<and> blk = [] \<and> bog = []
          \<and> set (da_Addrs (dr_System r)) \<inter> set ref = {}
       then da_Addrs (dr_System r) else [])"
    and "an_InjectedPublic (Analyze r sigs) \<longleftrightarrow>
      kind = KindDoH \<and> (\<exists>ans \<in> set (dr_Public r). answer_OK ans \<and> (\<exists>ip \<in> set (da_Addrs ans). bad_addr sigs rp ip))"
    and "an_SystemFailure (Analyze r sigs) =
      (if \<not> answer_OK (dr_System r) \<and> da_Resolver (dr_System r) \<noteq> [] \<and> ref \<noteq> []
       then FailureKind (dr_System r) else [])"
    and "an_Unresolvable (Analyze r sigs) \<longleftrightarrow> ref = [] \<and> blk = [] \<and> bog = []"
    and "an_DoHUnavailable (Analyze r sigs) \<longleftrightarrow> dr_DoH r \<noteq> [] \<and> (\<forall>ans \<in> set (dr_DoH r). \<not> Answered ans)"
    and "an_AllPlainTimeout (Analyze r sigs) \<longleftrightarrow>
      dr_Public r \<noteq> [] \<and> (\<forall>ans \<in> set (plain r). da_Resolver ans \<noteq> [] \<longrightarrow> FailureKind ans = ''timeout'')"
    and "\<not> an_Dropped (Analyze r sigs)"
  unfolding assms Analyze_def Let_def scan_phase_eq suspects_phase_eq failure_phase_eq
    unresolvable_phase_eq doh_phase_eq timeout_phase_eq
  by simp_all

section \<open>Bogon ranges\<close>

text \<open>The addresses that are not public unicast, as closed ranges in increasing order.\<close>

definition bogon_ranges :: "(32 word \<times> 32 word) list" where
  "bogon_ranges =
     [(v4_of 0 0 0 0, v4_of 0 255 255 255), (v4_of 10 0 0 0, v4_of 10 255 255 255),
      (v4_of 100 64 0 0, v4_of 100 127 255 255), (v4_of 127 0 0 0, v4_of 127 255 255 255),
      (v4_of 169 254 0 0, v4_of 169 254 255 255), (v4_of 172 16 0 0, v4_of 172 31 255 255),
      (v4_of 192 0 0 0, v4_of 192 0 0 255), (v4_of 192 0 2 0, v4_of 192 0 2 255),
      (v4_of 192 168 0 0, v4_of 192 168 255 255), (v4_of 198 18 0 0, v4_of 198 19 255 255),
      (v4_of 198 51 100 0, v4_of 198 51 100 255), (v4_of 203 0 113 0, v4_of 203 0 113 255),
      (v4_of 224 0 0 0, v4_of 255 255 255 255)]"

lemma two_octets: "b < 256 \<Longrightarrow> (n :: nat) div 16777216 = a \<and> n div 65536 mod 256 = b \<longleftrightarrow> n div 65536 = a * 256 + b"
proof -
  have "n div 16777216 = n div 65536 div 256" by (simp add: div_mult2_eq [symmetric])
  then show "b < 256 \<Longrightarrow> ?thesis"
    using div_mod_decomp [of "n div 65536" 256] by auto
qed

lemma in_range_word: "lo \<le> w \<and> w \<le> hi \<longleftrightarrow> unat lo \<le> unat w \<and> unat w \<le> unat (hi :: 32 word)"
  by (simp add: word_le_nat_alt)

lemma unat_and15: "unat (w AND 15 :: 32 word) = unat w mod 16"
proof -
  have "w AND 15 = take_bit 4 w"
    by (simp add: take_bit_eq_mask mask_eq_exp_minus_1)
  then show ?thesis by (simp add: take_bit_eq_mod unat_mod_distrib)
qed

lemma word_eq_numeral: "w = (numeral k :: 32 word) \<longleftrightarrow> unat w = unat (numeral k :: 32 word)"
  by (rule word_unat_eq_iff)

lemma bogon_ranges_iff:
  fixes w :: "32 word"
  defines "n \<equiv> unat w"
  shows "(\<exists>(lo, hi) \<in> set bogon_ranges. lo \<le> w \<and> w \<le> hi) \<longleftrightarrow>
    n \<le> 16777215 \<or> (167772160 \<le> n \<and> n \<le> 184549375) \<or> (1681915904 \<le> n \<and> n \<le> 1686110207)
    \<or> (2130706432 \<le> n \<and> n \<le> 2147483647) \<or> (2851995648 \<le> n \<and> n \<le> 2852061183)
    \<or> (2886729728 \<le> n \<and> n \<le> 2887778303) \<or> (3221225472 \<le> n \<and> n \<le> 3221225727)
    \<or> (3221225984 \<le> n \<and> n \<le> 3221226239) \<or> (3232235520 \<le> n \<and> n \<le> 3232301055)
    \<or> (3323068416 \<le> n \<and> n \<le> 3323199487) \<or> (3325256704 \<le> n \<and> n \<le> 3325256959)
    \<or> (3405803776 \<le> n \<and> n \<le> 3405804031) \<or> 3758096384 \<le> n"
proof -
  have n: "n < 4294967296" unfolding n_def using unsigned_less [of w, where ?'a = nat] by simp
  show ?thesis
    using n unfolding n_def
    by (simp add: bogon_ranges_def in_range_word v4_of_def del: word_le_nat_alt)
qed

lemma extra_prefixes:
  fixes w :: "32 word"
  defines "n \<equiv> unat w"
  shows "in_some_prefix (V4 w) extraBogons \<longleftrightarrow>
    n div 16777216 = 0 \<or> n div 4194304 = 401 \<or> n div 256 = 12582912 \<or> n div 256 = 12582914
    \<or> n div 131072 = 25353 \<or> n div 256 = 12989284 \<or> n div 256 = 13303921 \<or> n div 268435456 = 15"
  unfolding n_def extraBogons_def
  by (simp only: in_some_prefix.simps prefix_Contains_iff if_bool_eq_disj) (auto simp: v4_of_def)

lemma unicast_arith:
  fixes w :: "32 word"
  defines "n \<equiv> unat w"
  shows "\<not> addr_IsGlobalUnicast (V4 w) \<longleftrightarrow>
      n = 0 \<or> n = 4294967295 \<or> n div 16777216 = 127 \<or> n div 268435456 = 14 \<or> n div 65536 = 43518"
proof -
  have m: "drop_bit 28 w = 14 \<longleftrightarrow> n div 268435456 = 14"
    unfolding n_def by (simp only: word_unat_eq_iff unat_drop) simp
  have l: "v4_octet w 0 = 169 \<and> v4_octet w 1 = 254 \<longleftrightarrow> n div 65536 = 43518"
    unfolding n_def v4_octet_0 v4_octet_eq [of w 1] using two_octets [of 254 "unat w" 169] by simp
  have z: "w = 0 \<longleftrightarrow> n = 0" "w = 4294967295 \<longleftrightarrow> n = 4294967295"
    unfolding n_def by (simp_all add: word_unat_eq_iff)
  show ?thesis
    unfolding addr_IsGlobalUnicast.simps addr_IsLoopback.simps addr_IsMulticast.simps
      addr_IsLinkLocalUnicast.simps m l z
    by (auto simp: v4_octet_0 n_def)
qed

lemma private_arith:
  fixes w :: "32 word"
  defines "n \<equiv> unat w"
  shows "addr_IsPrivate (V4 w) \<longleftrightarrow> n div 16777216 = 10 \<or> n div 1048576 = 2753 \<or> n div 65536 = 49320"
proof -
  have b: "drop_bit 20 w AND 15 = 1 \<longleftrightarrow> n div 1048576 mod 16 = 1"
    unfolding n_def by (simp only: word_unat_eq_iff unat_and15 unat_drop) simp
  have c: "v4_octet w 0 = 192 \<and> v4_octet w 1 = 168 \<longleftrightarrow> n div 65536 = 49320"
    unfolding n_def v4_octet_0 v4_octet_eq [of w 1] using two_octets [of 168 "unat w" 192] by simp
  have d: "n div 16777216 = 172 \<and> n div 1048576 mod 16 = 1 \<longleftrightarrow> n div 1048576 = 2753"
  proof -
    have "n div 16777216 = n div 1048576 div 16" by (simp add: div_mult2_eq [symmetric])
    moreover have "m div 16 = 172 \<and> m mod 16 = 1 \<longleftrightarrow> m = 2753" for m :: nat
      by presburger
    ultimately show ?thesis by simp
  qed
  show ?thesis
    unfolding addr_IsPrivate.simps b c
    using d by (simp add: v4_octet_0 n_def)
qed

lemma div_range:
  assumes "0 < (k :: nat)" and "lo = c * k" and "hi = lo + (k - 1)"
  shows "n div k = c \<longleftrightarrow> lo \<le> n \<and> n \<le> hi"
proof
  assume c: "n div k = c"
  have "n div k * k \<le> n" by (rule div_times_less_eq_dividend)
  moreover have "n < k + n div k * k" using assms(1) by (rule dividend_less_div_times)
  ultimately show "lo \<le> n \<and> n \<le> hi" using assms c by simp
next
  assume "lo \<le> n \<and> n \<le> hi"
  then show "n div k = c" using assms by (intro div_nat_eqI) (auto simp: mult.commute)
qed

lemma bogon_divs:
  assumes "n < (4294967296 :: nat)"
  shows "n = 0 \<or> n div 16777216 = 0 \<longleftrightarrow> n \<le> 16777215"
    and "n div 16777216 = 10 \<longleftrightarrow> 167772160 \<le> n \<and> n \<le> 184549375"
    and "n div 4194304 = 401 \<longleftrightarrow> 1681915904 \<le> n \<and> n \<le> 1686110207"
    and "n div 16777216 = 127 \<longleftrightarrow> 2130706432 \<le> n \<and> n \<le> 2147483647"
    and "n div 65536 = 43518 \<longleftrightarrow> 2851995648 \<le> n \<and> n \<le> 2852061183"
    and "n div 1048576 = 2753 \<longleftrightarrow> 2886729728 \<le> n \<and> n \<le> 2887778303"
    and "n div 256 = 12582912 \<longleftrightarrow> 3221225472 \<le> n \<and> n \<le> 3221225727"
    and "n div 256 = 12582914 \<longleftrightarrow> 3221225984 \<le> n \<and> n \<le> 3221226239"
    and "n div 65536 = 49320 \<longleftrightarrow> 3232235520 \<le> n \<and> n \<le> 3232301055"
    and "n div 131072 = 25353 \<longleftrightarrow> 3323068416 \<le> n \<and> n \<le> 3323199487"
    and "n div 256 = 12989284 \<longleftrightarrow> 3325256704 \<le> n \<and> n \<le> 3325256959"
    and "n div 256 = 13303921 \<longleftrightarrow> 3405803776 \<le> n \<and> n \<le> 3405804031"
    and "n = 4294967295 \<or> n div 268435456 = 14 \<or> n div 268435456 = 15 \<longleftrightarrow> 3758096384 \<le> n"
proof -
  have "n div 268435456 = 14 \<longleftrightarrow> 3758096384 \<le> n \<and> n \<le> 4026531839"
    and "n div 268435456 = 15 \<longleftrightarrow> 4026531840 \<le> n \<and> n \<le> 4294967295"
    by (rule div_range; simp)+
  with assms show "n = 4294967295 \<or> n div 268435456 = 14 \<or> n div 268435456 = 15 \<longleftrightarrow> 3758096384 \<le> n"
    by linarith
  have "n div 16777216 = 0 \<longleftrightarrow> 0 \<le> n \<and> n \<le> 16777215"
    by (rule div_range; simp)
  then show "n = 0 \<or> n div 16777216 = 0 \<longleftrightarrow> n \<le> 16777215" by auto
qed (rule div_range; simp)+

lemma IsBogon_ranges: "IsBogon (V4 w) \<longleftrightarrow> (\<exists>(lo, hi) \<in> set bogon_ranges. lo \<le> w \<and> w \<le> hi)"
proof -
  have n: "unat w < 4294967296" using unsigned_less [of w, where ?'a = nat] by simp
  have "IsBogon (V4 w) \<longleftrightarrow> \<not> addr_IsGlobalUnicast (V4 w) \<or> addr_IsPrivate (V4 w) \<or> in_some_prefix (V4 w) extraBogons"
    by (simp add: IsBogon_def Let_def del: addr_IsGlobalUnicast.simps addr_IsPrivate.simps)
  then show ?thesis
    unfolding bogon_ranges_iff bogon_divs [OF n, symmetric] extra_prefixes unicast_arith private_arith
    by satx
qed

section \<open>Properties\<close>

text \<open>
  Claim C34. A plain-DNS address counts as bogon exactly when it is in one of the thirteen reserved
  ranges; a mapped IPv6 address is judged as the IPv4 address it carries.
\<close>

theorem IsBogon_spec:
  "(IsBogon (V4 w) \<longleftrightarrow> (\<exists>(lo, hi) \<in> set bogon_ranges. lo \<le> w \<and> w \<le> hi))
   \<and> IsBogon a = IsBogon (addr_Unmap a)"
proof
  show "IsBogon (V4 w) \<longleftrightarrow> (\<exists>(lo, hi) \<in> set bogon_ranges. lo \<le> w \<and> w \<le> hi)"
    by (rule IsBogon_ranges)
  show "IsBogon a = IsBogon (addr_Unmap a)"
    by (simp only: IsBogon_def addr_Unmap_idem)
qed

lemma reference_doh_nonempty:
  "foldl union [] (map da_Addrs (filter answer_OK ds)) = [] \<longleftrightarrow> \<not> (\<exists>ans \<in> set ds. answer_OK ans)"
proof -
  have "foldl union [] (map da_Addrs (filter answer_OK ds)) = [] \<longleftrightarrow>
      set (foldl union [] (map da_Addrs (filter answer_OK ds))) = {}" by simp
  also have "\<dots> \<longleftrightarrow> \<not> (\<exists>ans \<in> set ds. answer_OK ans)"
    by (auto simp: foldl_union_set answer_OK_def)
  finally show ?thesis .
qed

lemma reference_phase_eq:
  "reference_phase r sigs =
     (if \<exists>ans \<in> set (dr_DoH r). answer_OK ans
      then empty_analysis\<lparr>an_Reference := foldl union [] (map da_Addrs (filter answer_OK (dr_DoH r))),
             an_ReferenceKind := KindDoH\<rparr>
      else (case find (\<lambda>ans. answer_OK ans \<and> \<not> hasBad (da_Addrs ans) sigs) (dr_Public r @ [dr_System r]) of
          None \<Rightarrow> empty_analysis
        | Some ans \<Rightarrow> empty_analysis\<lparr>an_Reference := union [] (da_Addrs ans), an_ReferenceKind := da_Kind ans\<rparr>))"
proof -
  have e: "an_Reference empty_analysis = []" "an_ReferenceKind empty_analysis = NoKind"
    by (simp_all add: empty_analysis_def)
  show ?thesis
  proof (cases "\<exists>ans \<in> set (dr_DoH r). answer_OK ans")
    case True
    then show ?thesis
      using reference_doh_nonempty [of "dr_DoH r"]
      by (simp add: reference_phase_def doh_loop e Let_def)
  next
    case False
    then have "foldl doh_step empty_analysis (dr_DoH r) = empty_analysis"
      using reference_doh_nonempty [of "dr_DoH r"] by (simp add: doh_loop e)
    with False show ?thesis
      by (simp add: reference_phase_def e fallback_eq Let_def del: hasBad_iff cong: option.case_cong)
  qed
qed

text \<open>
  Claim C26. The reference addresses have no duplicates. With a usable DoH answer they are the union
  of the usable DoH answers; without one they are the addresses of the first usable plain answer
  free of block-page addresses, public resolvers before the system one; otherwise there are none.
\<close>

theorem Analyze_reference:
  "distinct (an_Reference (Analyze r sigs))
   \<and> (if \<exists>ans \<in> set (dr_DoH r). answer_OK ans
      then an_ReferenceKind (Analyze r sigs) = KindDoH
           \<and> set (an_Reference (Analyze r sigs)) = \<Union> {set (da_Addrs ans) | ans. ans \<in> set (dr_DoH r) \<and> answer_OK ans}
      else (case find (\<lambda>ans. answer_OK ans \<and> \<not> (\<exists>ip \<in> set (da_Addrs ans). IsBlockIP sigs ip))
                   (dr_Public r @ [dr_System r]) of
          None \<Rightarrow> an_Reference (Analyze r sigs) = [] \<and> an_ReferenceKind (Analyze r sigs) = NoKind
        | Some ans \<Rightarrow> set (an_Reference (Analyze r sigs)) = set (da_Addrs ans)
                      \<and> an_ReferenceKind (Analyze r sigs) = da_Kind ans))"
  unfolding Analyze_fields(1,2) reference_phase_eq hasBad_iff
  by (auto simp: empty_analysis_def foldl_union_distinct foldl_union_set distinct_union split: option.splits)

lemma Analyze_doh_reference:
  assumes "\<exists>ans \<in> set (dr_DoH r). answer_OK ans"
  shows "a \<in> set (an_Reference (Analyze r sigs)) \<longleftrightarrow>
    (\<exists>ans \<in> set (dr_DoH r). answer_OK ans \<and> a \<in> set (da_Addrs ans))"
proof -
  have "an_Reference (Analyze r sigs) = foldl union [] (map da_Addrs (filter answer_OK (dr_DoH r)))"
    unfolding Analyze_fields(1) reference_phase_eq if_P [OF assms] by simp
  then have "set (an_Reference (Analyze r sigs)) = (\<Union>ans \<in> set (filter answer_OK (dr_DoH r)). set (da_Addrs ans))"
    by (simp only: foldl_union_set set_map image_image) simp
  then show ?thesis by auto
qed

lemma Poisoned_iff:
  "Poisoned (Analyze r sigs) \<longleftrightarrow>
     (\<exists>ans \<in> set (plain r). answer_OK ans \<and> (\<exists>ip \<in> set (da_Addrs ans).
        IsBlockIP sigs ip \<or> (IsBogon ip \<and> (\<exists>a \<in> set (an_Reference (Analyze r sigs)). \<not> IsBogon a))))"
proof -
  have "Poisoned (Analyze r sigs) \<longleftrightarrow>
      set (an_BlockIPs (Analyze r sigs)) \<noteq> {} \<or> set (an_Bogons (Analyze r sigs)) \<noteq> {}"
    by (simp add: Poisoned_def)
  then show ?thesis
    unfolding Analyze_fields set_found ref_public_def by blast
qed

text \<open>
  Claim C7. The answers alone prove poisoning exactly when some usable plain answer holds a known
  block-page address, or a bogon while some reference address is public. The two lists have no
  duplicates, share no address, and hold exactly those addresses.
\<close>

theorem Analyze_poisoned:
  "(Poisoned (Analyze r sigs) \<longleftrightarrow>
      (\<exists>ans \<in> set (plain r). answer_OK ans \<and> (\<exists>ip \<in> set (da_Addrs ans).
         IsBlockIP sigs ip \<or> (IsBogon ip \<and> (\<exists>a \<in> set (an_Reference (Analyze r sigs)). \<not> IsBogon a)))))
   \<and> distinct (an_BlockIPs (Analyze r sigs) @ an_Bogons (Analyze r sigs))
   \<and> set (an_BlockIPs (Analyze r sigs)) =
       {ip. IsBlockIP sigs ip \<and> (\<exists>ans \<in> set (plain r). answer_OK ans \<and> ip \<in> set (da_Addrs ans))}"
proof (intro conjI)
  show "Poisoned (Analyze r sigs) \<longleftrightarrow>
      (\<exists>ans \<in> set (plain r). answer_OK ans \<and> (\<exists>ip \<in> set (da_Addrs ans).
         IsBlockIP sigs ip \<or> (IsBogon ip \<and> (\<exists>a \<in> set (an_Reference (Analyze r sigs)). \<not> IsBogon a))))"
    by (rule Poisoned_iff)
  show "distinct (an_BlockIPs (Analyze r sigs) @ an_Bogons (Analyze r sigs))"
    unfolding Analyze_fields by (auto simp: distinct_found set_found)
  show "set (an_BlockIPs (Analyze r sigs)) =
       {ip. IsBlockIP sigs ip \<and> (\<exists>ans \<in> set (plain r). answer_OK ans \<and> ip \<in> set (da_Addrs ans))}"
    unfolding Analyze_fields set_found by simp
qed

lemma reference_none_iff:
  "an_Reference (reference_phase r sigs) = [] \<longleftrightarrow>
     \<not> (\<exists>ans \<in> set (dr_DoH r). answer_OK ans)
     \<and> \<not> (\<exists>ans \<in> set (plain r). answer_OK ans \<and> \<not> hasBad (da_Addrs ans) sigs)"
proof -
  let ?P = "\<lambda>ans. answer_OK ans \<and> \<not> hasBad (da_Addrs ans) sigs"
  have set_plain: "set (dr_Public r @ [dr_System r]) = set (plain r)"
    by (auto simp: plain_def)
  show ?thesis
  proof (cases "\<exists>ans \<in> set (dr_DoH r). answer_OK ans")
    case True
    then show ?thesis
      using reference_doh_nonempty [of "dr_DoH r"] by (simp add: reference_phase_eq)
  next
    case False
    have ne: "union [] (da_Addrs ans) \<noteq> []" if "?P ans" for ans
    proof
      assume "union [] (da_Addrs ans) = []"
      then have "set (da_Addrs ans) = {}" using set_union [of "[]" "da_Addrs ans"] by (simp del: set_union)
      with that show False by (simp add: answer_OK_def)
    qed
    show ?thesis
    proof (cases "find ?P (dr_Public r @ [dr_System r])")
      case None
      then have "\<not> (\<exists>ans \<in> set (plain r). ?P ans)"
        unfolding find_None_iff set_plain by blast
      with False None show ?thesis
        by (simp only: reference_phase_eq) (simp add: empty_analysis_def)
    next
      case (Some ans)
      then have "ans \<in> set (plain r) \<and> ?P ans"
        using find_SomeD set_plain by metis
      with False Some ne show ?thesis
        by (simp only: reference_phase_eq) (auto simp: empty_analysis_def)
    qed
  qed
qed

lemma found_Nil_iff:
  "found P r = [] \<longleftrightarrow> \<not> (\<exists>ans \<in> set (plain r). answer_OK ans \<and> (\<exists>ip \<in> set (da_Addrs ans). P ip))"
proof -
  have "found P r = [] \<longleftrightarrow> set (found P r) = {}" by simp
  then show ?thesis unfolding set_found by blast
qed

lemma Analyze_unresolvable:
  "an_Unresolvable (Analyze r sigs) \<longleftrightarrow> \<not> (\<exists>ans \<in> set (dr_DoH r) \<union> set (plain r). answer_OK ans)"
  unfolding Analyze_fields(8) reference_none_iff hasBad_iff found_Nil_iff by blast

text \<open>
  Claim C21. System addresses become suspects, to be verified by a handshake, exactly when nothing
  is proved by the answers alone, the system resolver answered, a reference exists and the two
  share no address; then all of them do. A name is unresolvable exactly when no resolver returned
  an address.
\<close>

theorem Analyze_suspects:
  "(an_Suspects (Analyze r sigs) \<noteq> [] \<longleftrightarrow>
      answer_OK (dr_System r) \<and> an_Reference (Analyze r sigs) \<noteq> [] \<and> \<not> Poisoned (Analyze r sigs)
      \<and> set (da_Addrs (dr_System r)) \<inter> set (an_Reference (Analyze r sigs)) = {})
   \<and> an_Suspects (Analyze r sigs) \<in> {[], da_Addrs (dr_System r)}
   \<and> (an_Unresolvable (Analyze r sigs) \<longleftrightarrow> \<not> (\<exists>ans \<in> set (dr_DoH r) \<union> set (plain r). answer_OK ans))"
proof (intro conjI)
  show "an_Suspects (Analyze r sigs) \<noteq> [] \<longleftrightarrow>
      answer_OK (dr_System r) \<and> an_Reference (Analyze r sigs) \<noteq> [] \<and> \<not> Poisoned (Analyze r sigs)
      \<and> set (da_Addrs (dr_System r)) \<inter> set (an_Reference (Analyze r sigs)) = {}"
    by (auto simp: Analyze_fields Poisoned_def answer_OK_def)
  show "an_Suspects (Analyze r sigs) \<in> {[], da_Addrs (dr_System r)}"
    by (simp add: Analyze_fields)
  show "an_Unresolvable (Analyze r sigs) \<longleftrightarrow> \<not> (\<exists>ans \<in> set (dr_DoH r) \<union> set (plain r). answer_OK ans)"
    by (rule Analyze_unresolvable)
qed

text \<open>
  A public resolver is reported as injected exactly when the reference comes from DoH and
  a usable answer of a public resolver holds a bad address; and then the answers prove poisoning.
  DoH counts as unavailable exactly when resolvers were configured and none answered, not even
  negatively, and queries as timed out exactly when public resolvers were asked and every lookup
  that was made failed with a timeout.
\<close>

lemma Analyze_network:
  "(an_InjectedPublic (Analyze r sigs) \<longleftrightarrow>
      an_ReferenceKind (Analyze r sigs) = KindDoH
      \<and> (\<exists>ans \<in> set (dr_Public r). answer_OK ans \<and> (\<exists>ip \<in> set (da_Addrs ans).
           ip \<in> set (an_BlockIPs (Analyze r sigs)) \<union> set (an_Bogons (Analyze r sigs)))))
   \<and> \<not> (an_InjectedPublic (Analyze r sigs) \<and> \<not> Poisoned (Analyze r sigs))
   \<and> (an_DoHUnavailable (Analyze r sigs) \<longleftrightarrow> dr_DoH r \<noteq> [] \<and> \<not> (\<exists>ans \<in> set (dr_DoH r). Answered ans))
   \<and> (an_AllPlainTimeout (Analyze r sigs) \<longleftrightarrow>
        dr_Public r \<noteq> []
        \<and> \<not> (\<exists>ans \<in> set (plain r). da_Resolver ans \<noteq> [] \<and> FailureKind ans \<noteq> ''timeout''))"
proof -
  let ?ref = "an_Reference (reference_phase r sigs)"
  have bad: "ip \<in> set (an_BlockIPs (Analyze r sigs)) \<union> set (an_Bogons (Analyze r sigs)) \<longleftrightarrow>
      bad_addr sigs (ref_public ?ref) ip"
    if "ans \<in> set (dr_Public r)" "answer_OK ans" "ip \<in> set (da_Addrs ans)" for ans ip
    using that unfolding Analyze_fields set_found by (auto simp: plain_def bad_addr_def)
  have inj: "an_InjectedPublic (Analyze r sigs) \<longleftrightarrow>
      an_ReferenceKind (Analyze r sigs) = KindDoH
      \<and> (\<exists>ans \<in> set (dr_Public r). answer_OK ans \<and> (\<exists>ip \<in> set (da_Addrs ans).
           ip \<in> set (an_BlockIPs (Analyze r sigs)) \<union> set (an_Bogons (Analyze r sigs))))"
    unfolding Analyze_fields(6) Analyze_fields(2) using bad by blast
  then have "\<not> (an_InjectedPublic (Analyze r sigs) \<and> \<not> Poisoned (Analyze r sigs))"
    by (auto simp: Poisoned_def)
  with inj show ?thesis
    by (simp only: Analyze_fields(9,10)) auto
qed

section \<open>Properties of the resolvers\<close>

definition first_match :: "('d \<Rightarrow> 'r option) \<Rightarrow> 'd list \<Rightarrow> 'r \<Rightarrow> bool" where
  "first_match m ds r \<longleftrightarrow>
     (\<exists>pre d post. ds = pre @ d # post \<and> \<not> (\<exists>d' \<in> set pre. m d' \<noteq> None) \<and> m d = Some r)"

lemma first_match_Nil [simp]: "\<not> first_match m [] r"
  by (simp add: first_match_def)

lemma first_match_Cons [simp]:
  "first_match m (d0 # ds) r \<longleftrightarrow> (if m d0 = None then first_match m ds r else m d0 = Some r)"
proof
  assume "first_match m (d0 # ds) r"
  then obtain pre d post where 1: "d0 # ds = pre @ d # post" "\<not> (\<exists>d' \<in> set pre. m d' \<noteq> None)" "m d = Some r"
    by (auto simp: first_match_def)
  then show "if m d0 = None then first_match m ds r else m d0 = Some r"
    by (cases pre) (auto simp: first_match_def)
next
  assume R: "if m d0 = None then first_match m ds r else m d0 = Some r"
  show "first_match m (d0 # ds) r"
  proof (cases "m d0")
    case None
    with R obtain pre d post where "ds = pre @ d # post" "\<not> (\<exists>d' \<in> set pre. m d' \<noteq> None)" "m d = Some r"
      by (auto simp: first_match_def)
    with None show ?thesis
      unfolding first_match_def by (intro exI [of _ "d0 # pre"] exI [of _ d] exI [of _ post]) auto
  next
    case (Some r')
    with R show ?thesis
      unfolding first_match_def by (intro exI [of _ "[]"] exI [of _ d0] exI [of _ ds]) auto
  qed
qed

lemma recv_match_first: "recv_match qid host ds err = Inr resp \<longleftrightarrow> first_match (dgram_matches qid host) ds resp"
  by (induction ds) (auto simp: dgram_matches_def split: sum.splits)

text \<open>
  A UDP lookup returns addresses exactly when the query could be built and sent and the
  first datagram that parses, carries the query's identifier and names the host is a success
  response with an IPv4 address; every earlier datagram is ignored.
\<close>

lemma UDP_Lookup_first_match:
  "UDP_Lookup qid obs host = Inr as \<longleftrightarrow>
     (\<exists>q. Query qid host TypeA = Inr q) \<and> uo_Dial obs = None \<and> uo_Write obs = None
     \<and> (\<exists>pre d post resp. uo_Datagrams obs = pre @ d # post
          \<and> \<not> (\<exists>d' \<in> set pre. dgram_matches qid host d' \<noteq> None)
          \<and> dgram_matches qid host d = Some resp \<and> addrsFrom resp = Inr as)"
proof -
  have "UDP_Lookup qid obs host = Inr as \<longleftrightarrow>
     (\<exists>q. Query qid host TypeA = Inr q) \<and> uo_Dial obs = None \<and> uo_Write obs = None
     \<and> (\<exists>resp. recv_match qid host (uo_Datagrams obs) (uo_ReadErr obs) = Inr resp \<and> addrsFrom resp = Inr as)"
    by (auto simp: UDP_Lookup_def udpExchange_def split: sum.splits option.splits)
  then show ?thesis
    unfolding recv_match_first first_match_def by blast
qed

text \<open>
  Claim C32. Every resolver keeps the contract the analysis relies on: a lookup that returns no
  error returns at least one address and only IPv4 addresses, so that an answer is usable exactly
  when it has no failure kind.
\<close>

theorem resolvers_answer_or_fail:
  "(answer_OK (lookup_answer t h (resolver_of nm KindUDP (UDP_Lookup qid uobs host) d)) \<longleftrightarrow>
      FailureKind (lookup_answer t h (resolver_of nm KindUDP (UDP_Lookup qid uobs host) d)) = [])
   \<and> (answer_OK (lookup_answer t h (resolver_of nm KindDoH (DoH_Lookup dobs host) d)) \<longleftrightarrow>
      FailureKind (lookup_answer t h (resolver_of nm KindDoH (DoH_Lookup dobs host) d)) = [])
   \<and> list_all addr_Is4 (da_Addrs (lookup_answer t h (resolver_of nm KindUDP (UDP_Lookup qid uobs host) d)))
   \<and> list_all addr_Is4 (da_Addrs (lookup_answer t h (resolver_of nm KindDoH (DoH_Lookup dobs host) d)))"
  using udp.answer_or_failure [where ob = "(qid, uobs, host)" and t = t and h = h and nm = nm and k = KindUDP and d = d]
    doh.answer_or_failure [where ob = "(dobs, host)" and t = t and h = h and nm = nm and k = KindDoH and d = d]
    udp.answer_Is4 [where ob = "(qid, uobs, host)" and t = t and h = h and nm = nm and k = KindUDP and d = d]
    doh.answer_Is4 [where ob = "(dobs, host)" and t = t and h = h and nm = nm and k = KindDoH and d = d]
  by (auto simp: list_all_iff)

text \<open>The result of \<open>Resolve\<close> when every slot has been written.\<close>

definition resolved :: "string \<Rightarrow> resolvers \<Rightarrow> int \<Rightarrow> dns_result" where
  "resolved host rs timeout =
     \<lparr>dr_Host = host,
      dr_System = (case rs_System rs of None \<Rightarrow> no_answer | Some r \<Rightarrow> lookup_answer timeout host r),
      dr_Public = map (lookup_answer timeout host) (rs_Public rs),
      dr_DoH = map (lookup_answer timeout host) (rs_DoH rs)\<rparr>"

text \<open>What the writes done so far leave in the result.\<close>

lemma write_slots:
  assumes "set order \<subseteq> set (slots rs)"
  shows "Resolve_order host rs timeout order =
     \<lparr>dr_Host = host,
      dr_System = (if SystemSlot \<in> set order then dr_System (resolved host rs timeout) else no_answer),
      dr_Public = map (\<lambda>i. if PublicSlot i \<in> set order then lookup_answer timeout host (rs_Public rs ! i) else no_answer)
                    [0 ..< length (rs_Public rs)],
      dr_DoH = map (\<lambda>i. if DoHSlot i \<in> set order then lookup_answer timeout host (rs_DoH rs ! i) else no_answer)
                    [0 ..< length (rs_DoH rs)]\<rparr>"
  using assms
proof (induction order rule: rev_induct)
  case Nil
  show ?case
    by (auto simp: Resolve_order_def empty_result_def map_replicate_const [symmetric] intro: nth_equalityI)
next
  case (snoc s order)
  then have IH: "Resolve_order host rs timeout (order @ [s]) = write_slot timeout rs
     \<lparr>dr_Host = host,
      dr_System = (if SystemSlot \<in> set order then dr_System (resolved host rs timeout) else no_answer),
      dr_Public = map (\<lambda>i. if PublicSlot i \<in> set order then lookup_answer timeout host (rs_Public rs ! i) else no_answer)
                    [0 ..< length (rs_Public rs)],
      dr_DoH = map (\<lambda>i. if DoHSlot i \<in> set order then lookup_answer timeout host (rs_DoH rs ! i) else no_answer)
                    [0 ..< length (rs_DoH rs)]\<rparr> s"
    by (simp add: Resolve_order_def)
  have s: "s \<in> set (slots rs)" using snoc.prems by simp
  show ?case
  proof (cases s)
    case SystemSlot
    from s IH show ?thesis
      unfolding SystemSlot
      by (auto simp: slots_def resolved_def split: option.splits)
  next
    case (PublicSlot i)
    from s IH show ?thesis
      unfolding PublicSlot
      by (auto simp: slots_def nth_list_update split: option.splits intro!: nth_equalityI)
  next
    case (DoHSlot i)
    from s IH show ?thesis
      unfolding DoHSlot
      by (auto simp: slots_def nth_list_update split: option.splits intro!: nth_equalityI)
  qed
qed

lemma Resolve_order_complete:
  assumes "set order = set (slots rs)"
  shows "Resolve_order host rs timeout order = resolved host rs timeout"
proof -
  have mem: "PublicSlot i \<in> set order \<longleftrightarrow> i < length (rs_Public rs)"
    "DoHSlot i \<in> set order \<longleftrightarrow> i < length (rs_DoH rs)"
    "SystemSlot \<in> set order \<longleftrightarrow> rs_System rs \<noteq> None" for i
    unfolding assms by (cases "rs_System rs"; auto simp: slots_def)+
  have nth: "map (\<lambda>i. if i < length xs then f (xs ! i) else y) [0 ..< length xs] = map f xs"
    for f :: "resolver \<Rightarrow> dns_answer" and xs y
    by (rule nth_equalityI) auto
  have "set order \<subseteq> set (slots rs)" using assms by simp
  from write_slots [OF this] show ?thesis
    by (simp only: mem nth) (auto simp: resolved_def split: option.splits)
qed

lemma Resolve_resolved: "Resolve host rs timeout = resolved host rs timeout"
  by (simp add: Resolve_def Resolve_order_complete)

text \<open>
  Claim C33. The concurrent lookups cannot disturb each other: in whatever order the goroutines
  write, once each has written the result holds every resolver's answer at that resolver's place.
\<close>

theorem Resolve_any_order:
  assumes "set order = set (slots rs)"
  shows "Resolve_order host rs timeout order = resolved host rs timeout
    \<and> Resolve host rs timeout = resolved host rs timeout"
  using Resolve_order_complete [OF assms] Resolve_resolved by blast

definition sample_resolvers :: resolvers where
  "sample_resolvers =
     \<lparr>rs_System = Some (resolver_of ''system'' KindSystem (Inl ErrNXDomain) 5),
      rs_Public = [resolver_of ''1.1.1.1'' KindUDP (Inr [V4 (v4_of 10 10 34 34)]) 7],
      rs_DoH = [resolver_of ''doh'' KindDoH (Inr [V4 (v4_of 93 184 216 34)]) 9]\<rparr>"

theorem Resolve_any_order_witness:
  "Resolve_order ''example.com'' sample_resolvers 3 [DoHSlot 0, SystemSlot, PublicSlot 0]
     = resolved ''example.com'' sample_resolvers 3"
proof -
  have "set [DoHSlot 0, SystemSlot, PublicSlot 0] = set (slots sample_resolvers)"
    by (auto simp: slots_def sample_resolvers_def)
  from Resolve_any_order [OF this] show ?thesis by blast
qed

end
