(* ===== verification/Tcpcheck.thy ===== *)
theory Tcpcheck
  imports Netx Netip
begin

text \<open>
  Package tcpcheck (internal/tcpcheck/tcpcheck.go). The network is a parameter: what the dialer
  returned for the \<open>i\<close>-th attempt (an error or none, and the time it took), so that two dials
  of one address may end differently. \<^verbatim>\<open>ProbeAll\<close> starts one goroutine per address, each of which
  writes its own element of the result, so the order of the writes cannot be observed.
\<close>

datatype tcp_outcome = TcpOK | TcpTimeout | TcpRefused | TcpReset | TcpUnreachable | TcpError

fun tcp_outcome_text :: "tcp_outcome \<Rightarrow> string" where
  "tcp_outcome_text TcpOK = ''ok''"
| "tcp_outcome_text TcpTimeout = ''timeout''"
| "tcp_outcome_text TcpRefused = ''refused''"
| "tcp_outcome_text TcpReset = ''reset''"
| "tcp_outcome_text TcpUnreachable = ''unreachable''"
| "tcp_outcome_text TcpError = ''error''"

record tcp_result =
  tcp_Addr :: addr_port
  tcp_Outcome :: tcp_outcome
  tcp_Err :: "goerr option"
  tcp_Duration :: int

definition Rejected :: "tcp_result \<Rightarrow> bool" where [outcome_defs]:
  "Rejected r \<longleftrightarrow> tcp_Outcome r = TcpRefused \<or> tcp_Outcome r = TcpReset"

definition tcp_FromError :: "goerr option \<Rightarrow> tcp_outcome" where
  "tcp_FromError err =
     (case Classify err of
        KindNone \<Rightarrow> TcpOK
      | KindTimeout \<Rightarrow> TcpTimeout
      | KindRefused \<Rightarrow> TcpRefused
      | KindReset \<Rightarrow> TcpReset
      | KindEOF \<Rightarrow> TcpReset
      | KindUnreachable \<Rightarrow> TcpUnreachable
      | _ \<Rightarrow> TcpError)"

type_synonym dial_fun = "nat \<Rightarrow> string \<Rightarrow> goerr option \<times> int"

definition tcp_Probe :: "(string \<Rightarrow> goerr option \<times> int) \<Rightarrow> addr_port \<Rightarrow> tcp_result" where
  "tcp_Probe dial a =
     (case dial (addr_port_String a) of (err, d) \<Rightarrow>
        \<lparr>tcp_Addr = a, tcp_Outcome = tcp_FromError err, tcp_Err = err, tcp_Duration = d\<rparr>)"

definition ProbeAll :: "dial_fun \<Rightarrow> addr_port list \<Rightarrow> tcp_result list" where
  "ProbeAll dial addrs = map (\<lambda>(i, a). tcp_Probe (dial i) a) (enumerate 0 addrs)"

record tcp_summary =
  ts_Working :: "tcp_result option"
  ts_AllTimeout :: bool
  ts_AnyRejected :: bool
  ts_AllUnreachable :: bool

definition empty_summary :: tcp_summary where
  "empty_summary =
     \<lparr>ts_Working = None, ts_AllTimeout = False, ts_AnyRejected = False, ts_AllUnreachable = False\<rparr>"

text \<open>One pass through the body of the loop of \<^verbatim>\<open>Summarize\<close>.\<close>

definition summarize_step :: "tcp_summary \<Rightarrow> tcp_result \<Rightarrow> tcp_summary" where
  "summarize_step s r =
     (let s1 = (if tcp_Outcome r = TcpOK \<and> ts_Working s = None then s\<lparr>ts_Working := Some r\<rparr> else s);
          s2 = (if tcp_Outcome r \<noteq> TcpTimeout then s1\<lparr>ts_AllTimeout := False\<rparr> else s1);
          s3 = (if tcp_Outcome r \<noteq> TcpUnreachable then s2\<lparr>ts_AllUnreachable := False\<rparr> else s2)
      in if Rejected r then s3\<lparr>ts_AnyRejected := True\<rparr> else s3)"

definition Summarize :: "tcp_result list \<Rightarrow> tcp_summary" where
  "Summarize results =
     (if results = [] then empty_summary
      else foldl summarize_step (empty_summary\<lparr>ts_AllTimeout := True, ts_AllUnreachable := True\<rparr>) results)"

section \<open>Properties\<close>

lemma tcp_FromError_OK_iff: "tcp_FromError err = TcpOK \<longleftrightarrow> err = None"
  by (auto simp: tcp_FromError_def Classify_none_iff [symmetric] split: errkind.splits)

lemma summarize_fold:
  "ts_Working (foldl summarize_step s rs) =
     (if ts_Working s = None then find (\<lambda>r. tcp_Outcome r = TcpOK) rs else ts_Working s)"
  "ts_AllTimeout (foldl summarize_step s rs) \<longleftrightarrow>
     ts_AllTimeout s \<and> (\<forall>r \<in> set rs. tcp_Outcome r = TcpTimeout)"
  "ts_AllUnreachable (foldl summarize_step s rs) \<longleftrightarrow>
     ts_AllUnreachable s \<and> (\<forall>r \<in> set rs. tcp_Outcome r = TcpUnreachable)"
  "ts_AnyRejected (foldl summarize_step s rs) \<longleftrightarrow> ts_AnyRejected s \<or> (\<exists>r \<in> set rs. Rejected r)"
  by (induction rs arbitrary: s) (auto simp: summarize_step_def Let_def outcome_defs)

text \<open>
  The loop of \<^verbatim>\<open>Summarize\<close> computes what its fields promise: the first connection that
  succeeded, and whether all attempts timed out, all had no route, or any was rejected (all
  false for no attempts).
\<close>

lemma Summarize_spec:
  "ts_Working (Summarize rs) = find (\<lambda>r. tcp_Outcome r = TcpOK) rs
   \<and> (ts_AllTimeout (Summarize rs) \<longleftrightarrow> rs \<noteq> [] \<and> (\<forall>r \<in> set rs. tcp_Outcome r = TcpTimeout))
   \<and> (ts_AllUnreachable (Summarize rs) \<longleftrightarrow> rs \<noteq> [] \<and> (\<forall>r \<in> set rs. tcp_Outcome r = TcpUnreachable))
   \<and> (ts_AnyRejected (Summarize rs) \<longleftrightarrow> (\<exists>r \<in> set rs. Rejected r))"
  by (auto simp: Summarize_def summarize_fold empty_summary_def)

lemma Summarize_Working: "ts_Working (Summarize rs) = find (\<lambda>r. tcp_Outcome r = TcpOK) rs"
  by (auto simp: Summarize_def summarize_fold empty_summary_def)

lemma Summarize_flags:
  "ts_AllTimeout (Summarize rs) \<longleftrightarrow> rs \<noteq> [] \<and> (\<forall>r \<in> set rs. tcp_Outcome r = TcpTimeout)"
  "ts_AllUnreachable (Summarize rs) \<longleftrightarrow> rs \<noteq> [] \<and> (\<forall>r \<in> set rs. tcp_Outcome r = TcpUnreachable)"
  "ts_AnyRejected (Summarize rs) \<longleftrightarrow> (\<exists>r \<in> set rs. Rejected r)"
  by (auto simp: Summarize_def summarize_fold empty_summary_def)

lemma Summarize_Nil [simp]: "Summarize [] = empty_summary"
  by (simp add: Summarize_def)

lemma Working_mem: "ts_Working (Summarize rs) = Some r \<Longrightarrow> r \<in> set rs \<and> tcp_Outcome r = TcpOK"
  by (auto simp: Summarize_Working find_Some_iff)

lemma ProbeAll_nth:
  "i < length addrs \<Longrightarrow> ProbeAll dial addrs ! i = tcp_Probe (dial i) (addrs ! i)"
  by (simp add: ProbeAll_def nth_enumerate_eq)

lemma length_ProbeAll [simp]: "length (ProbeAll dial addrs) = length addrs"
  by (simp add: ProbeAll_def)

lemma tcp_Probe_fields [simp]:
  "tcp_Addr (tcp_Probe d a) = a"
  "tcp_Outcome (tcp_Probe d a) = tcp_FromError (fst (d (addr_port_String a)))"
  by (simp_all add: tcp_Probe_def split: prod.splits)

text \<open>
  Probing keeps the order of the addresses and reports a working address exactly when
  some dial returned no error: the summary's address is the first such one.
\<close>

lemma ProbeAll_working:
  "map tcp_Addr (ProbeAll dial addrs) = addrs
   \<and> (ts_Working (Summarize (ProbeAll dial addrs)) = None \<longleftrightarrow>
        (\<forall>i < length addrs. fst (dial i (addr_port_String (addrs ! i))) \<noteq> None))"
proof
  show "map tcp_Addr (ProbeAll dial addrs) = addrs"
    by (rule nth_equalityI) (simp_all add: ProbeAll_nth)
  have "ts_Working (Summarize (ProbeAll dial addrs)) = None \<longleftrightarrow>
      (\<forall>i < length addrs. tcp_Outcome (ProbeAll dial addrs ! i) \<noteq> TcpOK)"
    by (auto simp: Summarize_Working find_None_iff in_set_conv_nth)
  then show "ts_Working (Summarize (ProbeAll dial addrs)) = None \<longleftrightarrow>
      (\<forall>i < length addrs. fst (dial i (addr_port_String (addrs ! i))) \<noteq> None)"
    by (simp add: ProbeAll_nth tcp_FromError_OK_iff)
qed

end
