(* ===== verification/Tlscheck.thy ===== *)
theory Tlscheck
  imports Netx
begin

text \<open>
  Package tlscheck (internal/tlscheck/tlscheck.go). Dialing, the TLS handshake and certificate
  verification are not in the sources (crypto/tls, crypto/x509); what they returned for one
  call of \<^verbatim>\<open>Do\<close> is a record \<open>tls_obs\<close>, and verification of a chain is the argument
  \<open>x509verify\<close>. \<^verbatim>\<open>Check\<close> makes at most three such calls, told apart by \<open>tls_call\<close>, so
  that equal arguments do not force equal outcomes.
\<close>

datatype tls_outcome =
    TlsOK | TlsCertInvalid | TlsAlert | TlsReset | TlsTimeout | TlsEOF | TlsConnectFailed | TlsError

fun tls_outcome_text :: "tls_outcome \<Rightarrow> string" where
  "tls_outcome_text TlsOK = ''ok''"
| "tls_outcome_text TlsCertInvalid = ''cert_invalid''"
| "tls_outcome_text TlsAlert = ''alert''"
| "tls_outcome_text TlsReset = ''reset''"
| "tls_outcome_text TlsTimeout = ''timeout''"
| "tls_outcome_text TlsEOF = ''eof''"
| "tls_outcome_text TlsConnectFailed = ''connect_failed''"
| "tls_outcome_text TlsError = ''error''"

definition CertUnknownAuthority :: string where "CertUnknownAuthority = ''unknown_authority''"
definition CertHostname :: string where "CertHostname = ''hostname''"
definition CertExpired :: string where "CertExpired = ''expired''"
definition CertOther :: string where "CertOther = ''other''"

definition DefaultNeutralSNI :: string where "DefaultNeutralSNI = ''example.com''"

record handshake =
  hs_SNI :: string
  hs_Outcome :: tls_outcome
  hs_Err :: "goerr option"
  hs_Duration :: int
  hs_Version :: string
  hs_Issuer :: string
  hs_IssuerName :: string
  hs_Subject :: string
  hs_CertProblem :: string

definition Reached :: "handshake \<Rightarrow> bool" where [outcome_defs]:
  "Reached h \<longleftrightarrow> hs_Outcome h = TlsOK \<or> hs_Outcome h = TlsCertInvalid \<or> hs_Outcome h = TlsAlert"

definition Blocked :: "handshake \<Rightarrow> bool" where [outcome_defs]:
  "Blocked h \<longleftrightarrow> hs_Outcome h = TlsReset \<or> hs_Outcome h = TlsTimeout \<or> hs_Outcome h = TlsEOF"

definition tls_fromError :: "goerr option \<Rightarrow> tls_outcome" where
  "tls_fromError err =
     (case Classify err of
        KindAlert \<Rightarrow> TlsAlert
      | KindReset \<Rightarrow> TlsReset
      | KindRefused \<Rightarrow> TlsReset
      | KindTimeout \<Rightarrow> TlsTimeout
      | KindEOF \<Rightarrow> TlsEOF
      | _ \<Rightarrow> TlsError)"

section \<open>Certificates\<close>

record certificate =
  cert_Issuer :: string
  cert_IssuerCommonName :: string
  cert_IssuerOrganization :: "string list"
  cert_Subject :: string

text \<open>\<^verbatim>\<open>x509.Certificate.Verify\<close>: leaf, intermediates and host; None is success.\<close>

type_synonym x509_fun = "certificate \<Rightarrow> certificate list \<Rightarrow> string \<Rightarrow> goerr option"

definition tls_Verify :: "x509_fun \<Rightarrow> certificate list \<Rightarrow> string \<Rightarrow> goerr option" where
  "tls_Verify x509verify chain host =
     (case chain of
        [] \<Rightarrow> Some (errors_New ''no certificate presented'')
      | leaf # others \<Rightarrow> x509verify leaf others host)"

text \<open>The test for an expired certificate looks at the first such error.\<close>

fun is_CertificateInvalid :: "err_tag \<Rightarrow> bool" where
  "is_CertificateInvalid (KCertificateInvalid x) = True"
| "is_CertificateInvalid _ = False"

definition cert_expired :: "goerr \<Rightarrow> bool" where
  "cert_expired e =
     (case find_err (\<lambda>n. is_CertificateInvalid (err_kind n)) e of
        None \<Rightarrow> False
      | Some n \<Rightarrow> err_kind n = KCertificateInvalid True)"

definition CertProblem :: "goerr \<Rightarrow> string" where
  "CertProblem e =
     (if err_is (\<lambda>k. k = KUnknownAuthority) e then CertUnknownAuthority
      else if err_is (\<lambda>k. k = KHostnameError) e then CertHostname
      else if cert_expired e then CertExpired
      else if str_contains (err_text e) ''certificate signed by unknown authority''
              \<or> str_contains (err_text e) ''not trusted'' then CertUnknownAuthority
      else CertOther)"

section \<open>Handshakes\<close>

record tls_obs =
  to_DialErr :: "goerr option"
  to_DialTime :: int
  to_HandshakeErr :: "goerr option"
  to_HandshakeTime :: int
  to_Version :: string
  to_Chain :: "certificate list"

definition empty_handshake :: "string \<Rightarrow> handshake" where
  "empty_handshake sni =
     \<lparr>hs_SNI = sni, hs_Outcome = TlsError, hs_Err = None, hs_Duration = 0, hs_Version = [],
      hs_Issuer = [], hs_IssuerName = [], hs_Subject = [], hs_CertProblem = []\<rparr>"

definition issuer_name :: "certificate \<Rightarrow> string" where
  "issuer_name leaf =
     (case cert_IssuerOrganization leaf of [] \<Rightarrow> cert_IssuerCommonName leaf | org # _ \<Rightarrow> org)"

text \<open>
  \<^verbatim>\<open>Do\<close>. (The outcome of \<open>empty_handshake\<close> is overwritten on every path, as the zero
  value of the struct is.)
\<close>

definition tls_Do :: "x509_fun \<Rightarrow> tls_obs \<Rightarrow> string \<Rightarrow> string \<Rightarrow> handshake" where
  "tls_Do x509verify obs sni verifyHost =
     (let h = empty_handshake sni in
      case to_DialErr obs of
        Some err \<Rightarrow>
          h\<lparr>hs_Duration := to_DialTime obs, hs_Outcome := TlsConnectFailed, hs_Err := Some err\<rparr>
      | None \<Rightarrow>
          (let h1 = h\<lparr>hs_Duration := to_HandshakeTime obs\<rparr> in
           case to_HandshakeErr obs of
             Some err \<Rightarrow> h1\<lparr>hs_Err := Some err, hs_Outcome := tls_fromError (Some err)\<rparr>
           | None \<Rightarrow>
               (let h2 = h1\<lparr>hs_Outcome := TlsOK, hs_Version := to_Version obs\<rparr> in
                case to_Chain obs of
                  [] \<Rightarrow> h2
                | leaf # _ \<Rightarrow>
                    (let h3 = h2\<lparr>hs_Issuer := cert_Issuer leaf, hs_IssuerName := issuer_name leaf,
                                 hs_Subject := cert_Subject leaf\<rparr> in
                     if verifyHost \<noteq> [] then
                       (case tls_Verify x509verify (to_Chain obs) verifyHost of
                          None \<Rightarrow> h3
                        | Some err \<Rightarrow> h3\<lparr>hs_Outcome := TlsCertInvalid, hs_Err := Some err,
                                          hs_CertProblem := CertProblem err\<rparr>)
                     else h3))))"

record tls_result =
  tls_Addr :: string
  tls_Real :: handshake
  tls_Neutral :: "handshake option"
  tls_NoSNI :: "handshake option"

definition SNI_filtered :: "tls_result \<Rightarrow> bool" where
  "SNI_filtered r =
     (if \<not> Blocked (tls_Real r) then False
      else (case tls_Neutral r of None \<Rightarrow> False | Some h \<Rightarrow> Reached h)
           \<or> (case tls_NoSNI r of None \<Rightarrow> False | Some h \<Rightarrow> Reached h))"

datatype tls_call = CallReal | CallNeutral | CallNoSNI

definition tls_Check ::
  "x509_fun \<Rightarrow> (tls_call \<Rightarrow> tls_obs) \<Rightarrow> string \<Rightarrow> string \<Rightarrow> string \<Rightarrow> tls_result" where
  "tls_Check x509verify net neutral0 addr host =
     (let neutral = (if neutral0 = [] then DefaultNeutralSNI else neutral0);
          real = tls_Do x509verify (net CallReal) host host;
          res = \<lparr>tls_Addr = addr, tls_Real = real, tls_Neutral = None, tls_NoSNI = None\<rparr>
      in if \<not> Blocked real then res
         else res\<lparr>tls_Neutral := Some (tls_Do x509verify (net CallNeutral) neutral []),
                  tls_NoSNI := Some (tls_Do x509verify (net CallNoSNI) [] [])\<rparr>)"

section \<open>Properties\<close>

lemma Reached_not_Blocked: "Reached h \<Longrightarrow> \<not> Blocked h"
  by (auto simp: outcome_defs)

lemma tls_fromError_cases:
  "tls_fromError e \<in> {TlsAlert, TlsReset, TlsTimeout, TlsEOF, TlsError}"
  by (simp add: tls_fromError_def split: errkind.splits)

lemma tls_Do_OK_iff:
  "hs_Outcome (tls_Do x obs sni host) = TlsOK \<longleftrightarrow>
     to_DialErr obs = None \<and> to_HandshakeErr obs = None
     \<and> (to_Chain obs = [] \<or> host = [] \<or> tls_Verify x (to_Chain obs) host = None)"
  using tls_fromError_cases [of "to_HandshakeErr obs"]
  by (auto simp: tls_Do_def Let_def split: option.splits list.splits)

lemma tls_Do_CertInvalid_iff:
  "hs_Outcome (tls_Do x obs sni host) = TlsCertInvalid \<longleftrightarrow>
     to_DialErr obs = None \<and> to_HandshakeErr obs = None
     \<and> to_Chain obs \<noteq> [] \<and> host \<noteq> [] \<and> tls_Verify x (to_Chain obs) host \<noteq> None"
  using tls_fromError_cases [of "to_HandshakeErr obs"]
  by (auto simp: tls_Do_def Let_def split: option.splits list.splits)

lemma tls_Do_SNI [simp]: "hs_SNI (tls_Do x obs sni host) = sni"
  by (simp add: tls_Do_def Let_def empty_handshake_def split: option.splits list.splits)

text \<open>
  Claim C28. A handshake that is to be verified counts as good only when verification succeeded:
  whenever the server presented a certificate, outcome "ok" means the chain was accepted for the
  host that was asked for, and outcome "cert_invalid" that it was rejected and the rejection is
  recorded with its classification. A handshake without a host to verify is never cert_invalid.
\<close>

theorem tls_Do_verified:
  assumes "to_Chain obs = leaf # others"
  shows "(hs_Outcome (tls_Do x obs sni host) = TlsOK \<and> host \<noteq> [] \<longrightarrow> x leaf others host = None)
    \<and> (hs_Outcome (tls_Do x obs sni host) = TlsCertInvalid \<longrightarrow>
         host \<noteq> [] \<and> (\<exists>e. x leaf others host = Some e
            \<and> hs_Err (tls_Do x obs sni host) = Some e
            \<and> hs_CertProblem (tls_Do x obs sni host) = CertProblem e))"
proof -
  have v: "tls_Verify x (to_Chain obs) host = x leaf others host"
    by (simp add: tls_Verify_def assms)
  have "hs_Err (tls_Do x obs sni host) = Some e \<and> hs_CertProblem (tls_Do x obs sni host) = CertProblem e"
    if "hs_Outcome (tls_Do x obs sni host) = TlsCertInvalid" and "x leaf others host = Some e" for e
    using that v tls_Do_CertInvalid_iff [of x obs sni host] assms
    by (auto simp: tls_Do_def Let_def)
  with v show ?thesis
    using tls_Do_CertInvalid_iff [of x obs sni host] tls_Do_OK_iff [of x obs sni host] assms
    by auto
qed

definition sample_cert :: certificate where
  "sample_cert = \<lparr>cert_Issuer = ''CN=Fortinet CA'', cert_IssuerCommonName = ''Fortinet CA'',
     cert_IssuerOrganization = [''Fortinet''], cert_Subject = ''CN=github.com''\<rparr>"

definition ok_obs :: tls_obs where
  "ok_obs = \<lparr>to_DialErr = None, to_DialTime = 0, to_HandshakeErr = None, to_HandshakeTime = 30000000,
     to_Version = ''TLS 1.3'', to_Chain = [sample_cert]\<rparr>"

definition reset_obs :: tls_obs where
  "reset_obs = ok_obs\<lparr>to_HandshakeErr := Some (GoErr (KErrno ECONNRESET) (Some False) True
     ''read: connection reset by peer'' [])\<rparr>"

theorem tls_Do_verified_witness:
  "hs_CertProblem (tls_Do (\<lambda>_ _ _. Some (GoErr KUnknownAuthority None False ''x509'' [])) ok_obs
     ''github.com'' ''github.com'') = CertUnknownAuthority"
proof -
  let ?x = "\<lambda>(_ :: certificate) (_ :: certificate list) (_ :: string).
      Some (GoErr KUnknownAuthority None False ''x509'' [])"
  have chain: "to_Chain ok_obs = sample_cert # []" by (simp add: ok_obs_def)
  have "hs_Outcome (tls_Do ?x ok_obs ''github.com'' ''github.com'') = TlsCertInvalid"
    by (simp add: tls_Do_CertInvalid_iff ok_obs_def tls_Verify_def)
  with tls_Do_verified [OF chain, of ?x "''github.com''" "''github.com''"]
  have "hs_CertProblem (tls_Do ?x ok_obs ''github.com'' ''github.com'')
      = CertProblem (GoErr KUnknownAuthority None False ''x509'' [])"
    by auto
  then show ?thesis by (simp add: CertProblem_def err_is_def)
qed

lemma tls_Check_real [simp]: "tls_Real (tls_Check x net n a host) = tls_Do x (net CallReal) host host"
  by (simp add: tls_Check_def Let_def)

lemma SNI_filtered_Check:
  "SNI_filtered (tls_Check x net n a host) \<longleftrightarrow>
     Blocked (tls_Do x (net CallReal) host host)
     \<and> (Reached (tls_Do x (net CallNeutral) (if n = [] then DefaultNeutralSNI else n) [])
        \<or> Reached (tls_Do x (net CallNoSNI) [] []))"
  by (simp add: SNI_filtered_def tls_Check_def Let_def)

text \<open>
  \<^verbatim>\<open>Check\<close> concludes SNI filtering exactly when the handshake with the real name died
  on the network while the same address answered a handshake with another name or none; and it
  spends the two extra handshakes only when the real one died that way.
\<close>

lemma SNI_filtered_iff:
  "(SNI_filtered (tls_Check x net n a host) \<longleftrightarrow>
      hs_Outcome (tls_Do x (net CallReal) host host) \<in> {TlsReset, TlsTimeout, TlsEOF}
      \<and> (Reached (tls_Do x (net CallNeutral) (if n = [] then DefaultNeutralSNI else n) [])
         \<or> Reached (tls_Do x (net CallNoSNI) [] [])))
   \<and> (tls_Neutral (tls_Check x net n a host) \<noteq> None \<longleftrightarrow> Blocked (tls_Real (tls_Check x net n a host)))
   \<and> (tls_NoSNI (tls_Check x net n a host) \<noteq> None \<longleftrightarrow> Blocked (tls_Real (tls_Check x net n a host)))"
proof -
  have "tls_Neutral (tls_Check x net n a host) \<noteq> None \<longleftrightarrow> Blocked (tls_Do x (net CallReal) host host)"
    and "tls_NoSNI (tls_Check x net n a host) \<noteq> None \<longleftrightarrow> Blocked (tls_Do x (net CallReal) host host)"
    by (simp_all add: tls_Check_def Let_def)
  then show ?thesis by (auto simp: SNI_filtered_Check Blocked_def)
qed

end
