(* ===== verification/Runes.thy ===== *)
theory Runes
  imports Chera_Prelude
begin

text \<open>
  Go strings as UTF-8: encoding code points, ranging over a string (invalid bytes are read one by
  one as U+FFFD), the white space of package unicode and \<^verbatim>\<open>strings.Fields\<close> on valid text.
  Reading encoded text gives its code points back.
\<close>

section \<open>UTF-8\<close>

definition utf8 :: "nat \<Rightarrow> string" where
  "utf8 n =
     (if n < 128 then [char_of n]
      else if n < 2048 then [char_of (192 + n div 64), char_of (128 + n mod 64)]
      else if n < 65536 then [char_of (224 + n div 4096), char_of (128 + n div 64 mod 64), char_of (128 + n mod 64)]
      else [char_of (240 + n div 262144), char_of (128 + n div 4096 mod 64), char_of (128 + n div 64 mod 64),
            char_of (128 + n mod 64)])"

definition uni :: "nat list \<Rightarrow> string" where
  "uni cps = concat (map utf8 cps)"

section \<open>Runes\<close>

text \<open>Ranging over a string: invalid bytes are read one by one as U+FFFD.\<close>

definition cont :: "char \<Rightarrow> bool" where
  "cont c \<longleftrightarrow> of_char c div 64 = (2::nat)"

definition low6 :: "char \<Rightarrow> nat" where
  "low6 c = of_char c mod 64"

definition RuneError :: nat where "RuneError = 65533"

definition rune2 :: "nat \<Rightarrow> char \<Rightarrow> nat option" where
  "rune2 a c1 = (if 194 \<le> a \<and> a < 224 \<and> cont c1 then Some (a mod 32 * 64 + low6 c1) else None)"

definition rune3 :: "nat \<Rightarrow> char \<Rightarrow> char \<Rightarrow> nat option" where
  "rune3 a c1 c2 =
     (if 224 \<le> a \<and> a < 240 \<and> cont c1 \<and> cont c2 \<and> (a = 224 \<longrightarrow> 32 \<le> low6 c1) \<and> (a = 237 \<longrightarrow> low6 c1 < 32)
      then Some (a mod 16 * 4096 + low6 c1 * 64 + low6 c2) else None)"

definition rune4 :: "nat \<Rightarrow> char \<Rightarrow> char \<Rightarrow> char \<Rightarrow> nat option" where
  "rune4 a c1 c2 c3 =
     (if 240 \<le> a \<and> a < 245 \<and> cont c1 \<and> cont c2 \<and> cont c3 \<and> (a = 240 \<longrightarrow> 16 \<le> low6 c1) \<and> (a = 244 \<longrightarrow> low6 c1 < 16)
      then Some (a mod 8 * 262144 + low6 c1 * 4096 + low6 c2 * 64 + low6 c3) else None)"

text \<open>The first rune of a non-empty string and the bytes it takes.\<close>

definition first_rune :: "char \<Rightarrow> string \<Rightarrow> nat \<times> nat" where
  "first_rune c s =
     (let a = of_char c in
      if a < 128 then (a, 1)
      else (case (case s of c1 # _ \<Rightarrow> rune2 a c1 | _ \<Rightarrow> None) of
          Some r \<Rightarrow> (r, 2)
        | None \<Rightarrow> (case (case s of c1 # c2 # _ \<Rightarrow> rune3 a c1 c2 | _ \<Rightarrow> None) of
            Some r \<Rightarrow> (r, 3)
          | None \<Rightarrow> (case (case s of c1 # c2 # c3 # _ \<Rightarrow> rune4 a c1 c2 c3 | _ \<Rightarrow> None) of
              Some r \<Rightarrow> (r, 4)
            | None \<Rightarrow> (RuneError, 1)))))"

fun runes :: "string \<Rightarrow> nat list" where
  "runes [] = []"
| "runes (c # s) = fst (first_rune c s) # runes (drop (snd (first_rune c s) - 1) s)"

section \<open>Facts about runes\<close>

lemma not_cont_space [simp]: "\<not> cont (CHR '' '')"
  by code_simp

lemma rune_space [simp]:
  "rune2 a (CHR '' '') = None" "rune3 a (CHR '' '') c2 = None" "rune3 a c1 (CHR '' '') = None"
  "rune4 a (CHR '' '') c2 c3 = None" "rune4 a c1 (CHR '' '') c3 = None" "rune4 a c1 c2 (CHR '' '') = None"
  by (simp_all add: rune2_def rune3_def rune4_def)

lemma first_rune_space: "first_rune c (s @ CHR '' '' # t) = first_rune c s"
proof (cases s)
  case Nil
  then show ?thesis
    by (cases t rule: remdups_adj.cases) (simp_all add: first_rune_def Let_def)
next
  case s1: (Cons c1 s')
  show ?thesis
  proof (cases s')
    case Nil
    with s1 show ?thesis by (cases t) (simp_all add: first_rune_def Let_def split: option.split)
  next
    case (Cons c2 s'')
    with s1 show ?thesis by (cases s'') (simp_all add: first_rune_def Let_def split: option.split)
  qed
qed

lemma first_rune_length: "snd (first_rune c s) \<le> Suc (length s)"
  by (auto simp: first_rune_def Let_def split: list.splits option.splits)

lemma first_rune_pos: "0 < snd (first_rune c s)"
  by (auto simp: first_rune_def Let_def split: list.splits option.splits)

lemma runes_space: "runes (s @ CHR '' '' # t) = runes s @ runes (CHR '' '' # t)"
proof (induction s rule: runes.induct)
  case (2 c s)
  have "snd (first_rune c s) - 1 \<le> length s" using first_rune_length [of c s] by simp
  with 2 show ?case by (simp add: first_rune_space del: runes.simps(2) add: runes.simps(2) [of c])
qed simp

lemma runes_spaces: "runes (s @ replicate n (CHR '' '')) = runes s @ replicate n 32"
proof (induction n)
  case (Suc n)
  have one: "runes (CHR '' '' # t) = 32 # runes t" for t
  proof -
    have "(of_char (CHR '' '') :: nat) = 32" by code_simp
    then show ?thesis by (simp add: first_rune_def)
  qed
  have "runes (replicate k (CHR '' '')) = replicate k 32" for k
    by (induction k) (simp_all add: one del: runes.simps(2))
  then show ?case by (simp add: runes_space one del: runes.simps(2))
qed simp

definition scalar :: "nat \<Rightarrow> bool" where
  "scalar n \<longleftrightarrow> n < 55296 \<or> (57344 \<le> n \<and> n < 1114112)"

lemma cont_byte:
  assumes "x < 64"
  shows "cont (char_of (128 + x))" and "low6 (char_of (128 + x)) = x"
proof -
  have "(128 + x) div 64 = 2" by (rule div_nat_eqI) (use assms in simp_all)
  moreover have "(128 + x) mod 64 = x" by (rule mod_nat_eqI) (use assms in simp_all)
  moreover have "(128 + x) mod 256 = 128 + x" using assms by simp
  ultimately show "cont (char_of (128 + x))" and "low6 (char_of (128 + x)) = x"
    by (simp_all only: cont_def low6_def of_char_of)
qed

lemma rune2_val:
  assumes "128 \<le> n" "n < 2048"
  shows "rune2 (192 + n div 64) (char_of (128 + n mod 64)) = Some n"
proof -
  have q: "n div 64 < 32" "2 \<le> n div 64" using assms by simp_all
  have "(192 + n div 64) mod 32 = n div 64" by (rule mod_nat_eqI) (use q in simp_all)
  moreover have "n div 64 * 64 + n mod 64 = n" by (rule div_mult_mod_eq)
  ultimately show ?thesis using q by (simp add: rune2_def cont_byte)
qed

lemma rune3_val:
  assumes "2048 \<le> n" "n < 65536" "scalar n"
  shows "rune3 (224 + n div 4096) (char_of (128 + n div 64 mod 64)) (char_of (128 + n mod 64)) = Some n"
proof -
  define m where "m = n div 64"
  have q: "n div 4096 = m div 64" unfolding m_def by (simp flip: div_mult2_eq)
  have m: "32 \<le> m" "m < 1024" "m < 864 \<or> 896 \<le> m"
    using assms by (auto simp: m_def scalar_def less_eq_div_iff_mult_less_eq div_less_iff_less_mult)
  have "m div 64 < 16" using m(2) by simp
  moreover from this have "(224 + m div 64) mod 16 = m div 64" by (intro mod_nat_eqI) simp_all
  moreover have "m div 64 = 0 \<longrightarrow> 32 \<le> m mod 64" "m div 64 = 13 \<longrightarrow> m mod 64 < 32"
    using div_mult_mod_eq [of m 64] mod_less_divisor [of 64 m] m by linarith+
  moreover have "m div 64 * 4096 + m mod 64 * 64 + n mod 64 = n"
  proof -
    have "a * 4096 + b * 64 + c = (a * 64 + b) * 64 + c" for a b c :: nat by simp
    then show ?thesis by (simp only: div_mult_mod_eq m_def)
  qed
  ultimately show ?thesis by (simp add: rune3_def cont_byte q m_def [symmetric])
qed

lemma rune4_val:
  assumes "65536 \<le> n" "n < 1114112"
  shows "rune4 (240 + n div 262144) (char_of (128 + n div 4096 mod 64)) (char_of (128 + n div 64 mod 64))
    (char_of (128 + n mod 64)) = Some n"
proof -
  define k where "k = n div 4096"
  define m where "m = n div 64"
  have q: "n div 262144 = k div 64" and km: "k = m div 64" unfolding k_def m_def by (simp_all flip: div_mult2_eq)
  have k: "16 \<le> k" "k < 272"
    using assms by (auto simp: k_def less_eq_div_iff_mult_less_eq div_less_iff_less_mult)
  have "k div 64 < 5" using k(2) by simp
  moreover from this have "(240 + k div 64) mod 8 = k div 64" by (intro mod_nat_eqI) simp_all
  moreover have "k div 64 = 0 \<longrightarrow> 16 \<le> k mod 64" "k div 64 = 4 \<longrightarrow> k mod 64 < 16"
    using div_mult_mod_eq [of k 64] mod_less_divisor [of 64 k] k by linarith+
  moreover have "k div 64 * 262144 + k mod 64 * 4096 + m mod 64 * 64 + n mod 64 = n"
  proof -
    have "a * 262144 + b * 4096 + c * 64 + d = ((a * 64 + b) * 64 + c) * 64 + d" for a b c d :: nat by simp
    then have "k div 64 * 262144 + k mod 64 * 4096 + m mod 64 * 64 + n mod 64
        = ((k div 64 * 64 + k mod 64) * 64 + m mod 64) * 64 + n mod 64" .
    also have "\<dots> = (m div 64 * 64 + m mod 64) * 64 + n mod 64" by (simp only: div_mult_mod_eq km)
    also have "\<dots> = n" by (simp only: div_mult_mod_eq m_def)
    finally show ?thesis .
  qed
  ultimately show ?thesis by (simp add: rune4_def cont_byte q k_def [symmetric] m_def [symmetric])
qed

lemma first_rune_utf8:
  assumes "scalar n"
  shows "\<exists>c s. utf8 n = c # s \<and> (\<forall>t. first_rune c (s @ t) = (n, Suc (length s)))"
proof -
  have lim: "n < 1114112" using assms by (auto simp: scalar_def)
  have byte: "of_char (char_of k :: char) = k" if "k < 256" for k :: nat using that by simp
  consider "n < 128" | "128 \<le> n" "n < 2048" | "2048 \<le> n" "n < 65536" | "65536 \<le> n" by linarith
  then show ?thesis
  proof cases
    case 1
    then show ?thesis by (simp add: utf8_def first_rune_def)
  next
    case 2
    then have "n div 64 < 32" by simp
    then have "of_char (char_of (192 + n div 64) :: char) = 192 + n div 64" by (intro byte) simp
    with 2 show ?thesis by (simp add: utf8_def first_rune_def rune2_val)
  next
    case 3
    have b: "of_char (char_of (224 + n div 4096) :: char) = 224 + n div 4096" using 3 by (intro byte) simp
    have "rune2 (224 + n div 4096) c = None" for c by (simp add: rune2_def)
    with 3 b assms show ?thesis by (simp add: utf8_def first_rune_def rune3_val)
  next
    case 4
    have b: "of_char (char_of (240 + n div 262144) :: char) = 240 + n div 262144"
      using lim by (intro byte) simp
    have "rune2 (240 + n div 262144) c = None" "rune3 (240 + n div 262144) c d = None" for c d
      by (simp_all add: rune2_def rune3_def)
    with 4 b lim show ?thesis by (simp add: utf8_def first_rune_def rune4_val)
  qed
qed

text \<open>
  Text is measured in characters: reading the runes of UTF-8 encoded text gives back the
  code points it was made of, so each character is counted once however many bytes it takes.
\<close>

lemma runes_uni:
  assumes "list_all scalar cps"
  shows "runes (uni cps) = cps"
  using assms
proof (induction cps)
  case (Cons n cps)
  then obtain c s where cs: "utf8 n = c # s" "\<And>t. first_rune c (s @ t) = (n, Suc (length s))"
    using first_rune_utf8 [of n] by auto
  have "uni (n # cps) = c # s @ uni cps" by (simp add: uni_def cs(1))
  with Cons show ?case by (simp add: cs(2))
qed (simp add: uni_def)

lemma runes_uni_witness: "runes (uni [1583, 128522, 65]) = [1583, 128522, 65]"
  by (rule runes_uni) (simp add: scalar_def)

lemma runes_scalar: "list_all scalar (runes s)"
proof (induction s rule: runes.induct)
  case (2 c s)
  have r2: "scalar r" if "rune2 a c1 = Some r" for a c1 r
    using that by (auto simp: rune2_def scalar_def low6_def split: if_splits)
  have r3: "scalar r" if "rune3 a c1 c2 = Some r" for a c1 c2 r
  proof -
    have a: "224 \<le> a" "a < 240" "a = 237 \<longrightarrow> low6 c1 < 32"
      and r: "r = a mod 16 * 4096 + low6 c1 * 64 + low6 c2"
      using that by (auto simp: rune3_def split: if_splits)
    define d where "d = a mod 16"
    have d: "d < 16" "d = 13 \<longrightarrow> low6 c1 < 32"
    proof -
      have "a = 224 + d"
        using a(1,2) div_mult_mod_eq [of a 16] div_nat_eqI [of 16 14 a] by (simp add: d_def)
      then show "d < 16" "d = 13 \<longrightarrow> low6 c1 < 32" using a by auto
    qed
    have l: "low6 c1 < 64" "low6 c2 < 64" by (simp_all add: low6_def)
    consider "d \<le> 12" | "d = 13" | "14 \<le> d" by linarith
    then show ?thesis
    proof cases
      case 2
      then show ?thesis using d l r unfolding d_def [symmetric] scalar_def by linarith
    qed (use d(1) l r in \<open>unfold d_def [symmetric] scalar_def, linarith\<close>)+
  qed
  have r4: "scalar r" if "rune4 a c1 c2 c3 = Some r" for a c1 c2 c3 r
  proof -
    have a: "240 \<le> a" "a < 245" "a = 240 \<longrightarrow> 16 \<le> low6 c1" "a = 244 \<longrightarrow> low6 c1 < 16"
      and r: "r = a mod 8 * 262144 + low6 c1 * 4096 + low6 c2 * 64 + low6 c3"
      using that by (auto simp: rune4_def split: if_splits)
    define d where "d = a mod 8"
    have d: "d < 5" "d = 0 \<longrightarrow> 16 \<le> low6 c1" "d = 4 \<longrightarrow> low6 c1 < 16"
    proof -
      have "a = 240 + d"
        using a(1,2) div_mult_mod_eq [of a 8] div_nat_eqI [of 8 30 a] by (simp add: d_def)
      then show "d < 5" "d = 0 \<longrightarrow> 16 \<le> low6 c1" "d = 4 \<longrightarrow> low6 c1 < 16" using a by auto
    qed
    have l: "low6 c1 < 64" "low6 c2 < 64" "low6 c3 < 64" by (simp_all add: low6_def)
    consider "d = 0" | "d = 4" | "1 \<le> d" "d \<le> 3" using d(1) by linarith
    then show ?thesis
    proof cases
      case 1
      then show ?thesis using d l r unfolding d_def [symmetric] scalar_def by linarith
    next
      case 2
      then show ?thesis using d l r unfolding d_def [symmetric] scalar_def by linarith
    next
      case 3
      then show ?thesis using l r unfolding d_def [symmetric] scalar_def by linarith
    qed
  qed
  have "scalar (fst (first_rune c s))"
    by (auto simp: first_rune_def Let_def scalar_def RuneError_def split: option.split list.splits dest!: r2 r3 r4)
  with 2 show ?case by simp
qed simp

section \<open>White space\<close>

definition IsSpace :: "nat \<Rightarrow> bool" where
  "IsSpace r \<longleftrightarrow>
     r \<in> {9, 10, 11, 12, 13, 32, 133, 160, 5760, 8232, 8233, 8239, 8287, 12288} \<or> (8192 \<le> r \<and> r \<le> 8202)"

text \<open>The fields of a sequence of runes; \<open>w\<close> is the current one, last rune first.\<close>

fun rune_fields :: "nat list \<Rightarrow> nat list \<Rightarrow> nat list list" where
  "rune_fields w [] = (if w = [] then [] else [rev w])"
| "rune_fields w (r # rs) =
     (if IsSpace r then (if w = [] then rune_fields [] rs else rev w # rune_fields [] rs) else rune_fields (r # w) rs)"

definition strings_Fields :: "string \<Rightarrow> string list" where
  "strings_Fields s = map uni (rune_fields [] (runes s))"

lemma fields_concat: "concat (rune_fields w rs) = rev w @ filter (\<lambda>r. \<not> IsSpace r) rs"
  by (induction w rs rule: rune_fields.induct) auto

lemma fields_words:
  "list_all (\<lambda>r. \<not> IsSpace r) w \<Longrightarrow> ws \<in> set (rune_fields w rs) \<Longrightarrow> ws \<noteq> [] \<and> list_all (\<lambda>r. \<not> IsSpace r) ws"
  by (induction w rs rule: rune_fields.induct) (auto split: if_splits)

text \<open>Words joined by single spaces.\<close>

fun spaced :: "nat list list \<Rightarrow> nat list" where
  "spaced [] = []"
| "spaced [w] = w"
| "spaced (w # ws) = w @ 32 # spaced ws"

lemma uni_append: "uni (xs @ ys) = uni xs @ uni ys"
  by (simp add: uni_def)

lemma uni_space: "uni (32 # xs) = CHR '' '' # uni xs"
proof -
  have "(char_of (32 :: nat) :: char) = CHR '' ''" by code_simp
  then show ?thesis by (simp add: uni_def utf8_def)
qed

lemma join_uni: "str_join (map uni ws) '' '' = uni (spaced ws)"
  by (induction ws rule: spaced.induct) (simp_all add: uni_append uni_space, simp add: uni_def)

lemma spaced_scalar: "list_all (list_all scalar) ws \<Longrightarrow> list_all scalar (spaced ws)"
  by (induction ws rule: spaced.induct) (auto simp: scalar_def)

end
