(* ===== verification/Httpcheck.thy ===== *)
theory Httpcheck
  imports Netx Signatures Runes
begin

text \<open>
  Package httpcheck (internal/httpcheck/httpcheck.go): one GET without following redirects, and
  the classification of what came back. The HTTP client is a parameter: an \<open>http_obs\<close> says
  whether the request could be built and what \<^verbatim>\<open>client.Do\<close> returned; the body is the bytes the
  server sent before the end or the read error. The one-line preview of the body
  (\<open>snippet\<close>) is the argument \<open>snip\<close> of \<open>Fetch\<close>; the table of printable characters is its parameter.
\<close>

datatype http_class = HttpOK | HttpBlockPage | HttpGeoBlock | HttpLegal | HttpServerError | HttpFailed

fun http_class_text :: "http_class \<Rightarrow> string" where
  "http_class_text HttpOK = ''ok''"
| "http_class_text HttpBlockPage = ''block_page''"
| "http_class_text HttpGeoBlock = ''geo_block''"
| "http_class_text HttpLegal = ''legal''"
| "http_class_text HttpServerError = ''server_error''"
| "http_class_text HttpFailed = ''failed''"

definition maxBody :: nat where "maxBody = 65536"

record http_result =
  hr_URL :: string
  hr_Status :: int
  hr_Location :: string
  hr_Server :: string
  hr_Class :: http_class
  hr_Signature :: string
  hr_Snippet :: string
  hr_Err :: "goerr option"
  hr_ErrKind :: errkind
  hr_Duration :: int

record http_response =
  resp_Status :: int
  resp_Location :: string
  resp_Server :: string
  resp_Body :: string
  resp_BodyErr :: "goerr option"

datatype http_obs =
    BadRequest goerr                        \<comment> \<open>\<^verbatim>\<open>NewRequestWithContext\<close> failed\<close>
  | DoFailed goerr int                      \<comment> \<open>\<^verbatim>\<open>client.Do\<close> failed, after this long\<close>
  | Responded string http_response int      \<comment> \<open>the URL's host name, the response, the time\<close>

text \<open>\<^verbatim>\<open>interface{ Timeout() bool }\<close>: the first node with that method.\<close>

definition classifyErr :: "goerr \<Rightarrow> errkind" where
  "classifyErr e =
     (case find_err (\<lambda>n. err_timeout n \<noteq> None) e of
        Some n \<Rightarrow> if err_timeout n = Some True then KindTimeout else Classify (Some e)
      | None \<Rightarrow> Classify (Some e))"

definition http_Classify ::
  "sig_set option \<Rightarrow> string \<Rightarrow> int \<Rightarrow> string \<Rightarrow> string \<Rightarrow> http_class \<times> string" where
  "http_Classify sigs host st location body =
     (let fallback = (if st = 451 then (HttpLegal, [])
                      else if 500 \<le> st then (HttpServerError, [])
                      else (HttpOK, []))
      in case sigs of
           None \<Rightarrow> fallback
         | Some s \<Rightarrow>
             if MatchBlockPage s location body \<noteq> [] then (HttpBlockPage, MatchBlockPage s location body)
             else if MatchGeoBlock s host st body \<noteq> [] then (HttpGeoBlock, MatchGeoBlock s host st body)
             else fallback)"

text \<open>
  \<^verbatim>\<open>io.ReadAll(io.LimitReader(resp.Body, maxBody))\<close>: at most \<open>maxBody\<close> bytes, and the read
  error only if it comes before that many.
\<close>

definition read_limited :: "http_response \<Rightarrow> string \<times> goerr option" where
  "read_limited r =
     (if maxBody \<le> length (resp_Body r) then (take maxBody (resp_Body r), None)
      else (resp_Body r, resp_BodyErr r))"

definition empty_http_result :: "string \<Rightarrow> http_result" where
  "empty_http_result url =
     \<lparr>hr_URL = url, hr_Status = 0, hr_Location = [], hr_Server = [], hr_Class = HttpFailed,
      hr_Signature = [], hr_Snippet = [], hr_Err = None, hr_ErrKind = KindNone, hr_Duration = 0\<rparr>"

definition Fetch :: "(string \<Rightarrow> string) \<Rightarrow> sig_set option \<Rightarrow> http_obs \<Rightarrow> string \<Rightarrow> http_result" where
  "Fetch snip sigs obs rawURL =
     (let res = empty_http_result rawURL in
      case obs of
        BadRequest err \<Rightarrow> res\<lparr>hr_Class := HttpFailed, hr_Err := Some err, hr_ErrKind := KindOther\<rparr>
      | DoFailed err d \<Rightarrow>
          res\<lparr>hr_Duration := d, hr_Class := HttpFailed, hr_Err := Some err, hr_ErrKind := classifyErr err\<rparr>
      | Responded host r d \<Rightarrow>
          (case read_limited r of (body, readErr) \<Rightarrow>
           case http_Classify sigs host (resp_Status r) (resp_Location r) body of (cls, sg) \<Rightarrow>
             (let res1 = res\<lparr>hr_Duration := d, hr_Status := resp_Status r, hr_Location := resp_Location r,
                    hr_Server := resp_Server r, hr_Snippet := snip body, hr_Class := cls, hr_Signature := sg\<rparr>
              in case readErr of
                   Some e \<Rightarrow>
                     if cls = HttpOK \<and> body = []
                     then res1\<lparr>hr_Class := HttpFailed, hr_Err := Some e, hr_ErrKind := classifyErr e\<rparr>
                     else res1
                 | None \<Rightarrow> res1)))"

section \<open>The preview\<close>

text \<open>\<^verbatim>\<open>strings.Map\<close>: white space becomes a space, other unprintable runes are dropped.\<close>

definition clean_text :: "(nat \<Rightarrow> bool) \<Rightarrow> string \<Rightarrow> string" where
  "clean_text IsPrint s =
     uni (concat (map (\<lambda>r. if IsSpace r then [32] else if \<not> IsPrint r then [] else [r]) (runes s)))"

definition snippet :: "(nat \<Rightarrow> bool) \<Rightarrow> string \<Rightarrow> string" where
  "snippet IsPrint b =
     (let s = str_join (strings_Fields (clean_text IsPrint b)) '' '';
          r = runes s
      in if 160 < length r then uni (take 160 r) @ ''...'' else s)"

definition preview_words :: "(nat \<Rightarrow> bool) \<Rightarrow> string \<Rightarrow> nat list list" where
  "preview_words IsPrint b =
     rune_fields [] (concat (map (\<lambda>r. if IsSpace r then [32] else if \<not> IsPrint r then [] else [r]) (runes b)))"

lemma preview_words_facts:
  "concat (preview_words P b) = filter (\<lambda>r. P r \<and> \<not> IsSpace r) (runes b)"
  "w \<in> set (preview_words P b) \<Longrightarrow> w \<noteq> [] \<and> list_all (\<lambda>r. P r \<and> \<not> IsSpace r) w"
  "list_all (list_all scalar) (preview_words P b)"
proof -
  have sp: "IsSpace 32" by (simp add: IsSpace_def)
  let ?f = "\<lambda>r. if IsSpace r then [32] else if \<not> P r then [] else [r]"
  have "filter (\<lambda>r. \<not> IsSpace r) (concat (map ?f rs)) = filter (\<lambda>r. P r \<and> \<not> IsSpace r) rs" for rs
    by (induction rs) (auto simp: sp)
  then show c: "concat (preview_words P b) = filter (\<lambda>r. P r \<and> \<not> IsSpace r) (runes b)"
    by (simp add: preview_words_def fields_concat)
  have all: "r \<in> set (runes b) \<and> P r \<and> \<not> IsSpace r" if "w \<in> set (preview_words P b)" "r \<in> set w" for w r
    using arg_cong [OF c, of set] that by (auto simp: set_eq_iff)
  then show "w \<in> set (preview_words P b) \<Longrightarrow> w \<noteq> [] \<and> list_all (\<lambda>r. P r \<and> \<not> IsSpace r) w"
    using fields_words [of "[]" w] by (auto simp: preview_words_def list_all_iff)
  show "list_all (list_all scalar) (preview_words P b)"
    using all runes_scalar [of b] by (auto simp: list_all_iff)
qed

lemma snippet_words:
  "snippet P b =
     (let xs = spaced (preview_words P b) in if 160 < length xs then uni (take 160 xs @ [46, 46, 46]) else uni xs)"
proof -
  have "list_all scalar (concat (map (\<lambda>r. if IsSpace r then [32] else if \<not> P r then [] else [r]) (runes b)))"
    using runes_scalar [of b] by (auto simp: list_all_iff scalar_def)
  then have "strings_Fields (clean_text P b) = map uni (preview_words P b)"
    by (simp add: strings_Fields_def clean_text_def runes_uni preview_words_def)
  moreover have "runes (uni (spaced (preview_words P b))) = spaced (preview_words P b)"
    by (intro runes_uni spaced_scalar preview_words_facts)
  moreover have "uni [46, 46, 46] = ''...''" by code_simp
  ultimately show ?thesis by (simp add: snippet_def join_uni uni_append Let_def)
qed

text \<open>
  The preview of a body is one line of at most 163 characters: the printable characters of
  the body, all of them and in their order, in words separated by single spaces, cut
  after 160 characters with three dots behind.
\<close>

lemma snippet_spec:
  fixes P b
  defines "ws \<equiv> preview_words P b"
  shows "runes (snippet P b) = (if 160 < length (spaced ws) then take 160 (spaced ws) @ [46, 46, 46] else spaced ws)
    \<and> concat ws = filter (\<lambda>r. P r \<and> \<not> IsSpace r) (runes b) \<and> [] \<notin> set ws"
proof -
  have sc: "list_all scalar (spaced ws)" unfolding ws_def by (intro spaced_scalar preview_words_facts)
  then have "list_all scalar (take 160 (spaced ws) @ [46, 46, 46])"
    by (auto simp: list_all_iff scalar_def dest: in_set_takeD)
  with sc have "runes (snippet P b) = (if 160 < length (spaced ws) then take 160 (spaced ws) @ [46, 46, 46] else spaced ws)"
    unfolding snippet_words ws_def Let_def by (simp only: runes_uni split: if_split) simp
  then show ?thesis using preview_words_facts(1,2) [where P = P and b = b] unfolding ws_def by blast
qed

section \<open>Properties\<close>

lemma classifyErr_not_none [simp]: "classifyErr e \<noteq> KindNone"
  by (auto simp: classifyErr_def Classify_none_iff split: option.splits)

text \<open>
  The order of the classification: a response is a block page exactly when a loaded
  signature matches it, whatever its status; a geo-block only when no block page matched; a
  legal block is status 451 and a server error any status from 500 that no signature explains;
  everything else, 401, 403 and 404 included, is a normal answer.
\<close>

lemma http_Classify_spec:
  assumes "wf_sigs s"
  shows "fst (http_Classify (Some s) host st loc body) =
     (if \<exists>p \<in> set (sg_BlockPages s). page_matches (to_lower loc) (to_lower body) p then HttpBlockPage
      else if \<exists>g \<in> set (sg_GeoBlocks s). geo_matches (to_lower host) st (to_lower body) g then HttpGeoBlock
      else if st = 451 then HttpLegal else if st \<ge> 500 then HttpServerError else HttpOK)"
proof -
  have geo: "MatchGeoBlock s host st body \<noteq> [] \<longleftrightarrow>
      (\<exists>g \<in> set (sg_GeoBlocks s). geo_matches (to_lower host) st (to_lower body) g)"
  proof
    assume "MatchGeoBlock s host st body \<noteq> []"
    then show "\<exists>g \<in> set (sg_GeoBlocks s). geo_matches (to_lower host) st (to_lower body) g"
      by (blast dest: MatchGeoBlock_nonemptyD)
  next
    assume "\<exists>g \<in> set (sg_GeoBlocks s). geo_matches (to_lower host) st (to_lower body) g"
    then obtain g where "find (geo_matches (to_lower host) st (to_lower body)) (sg_GeoBlocks s) = Some g"
      by (metis find_None_iff not_None_eq)
    with find_SomeD [OF this] assms show "MatchGeoBlock s host st body \<noteq> []"
      by (auto simp: MatchGeoBlock_def match_geo_find wf_sigs_def)
  qed
  show ?thesis
    unfolding http_Classify_def Let_def option.case MatchBlockPage_nonempty_iff [OF assms] geo
    by simp
qed

lemma http_Classify_spec_witness:
  "fst (http_Classify (Some sig_New) ''api.openai.com'' 403 [] ''Forbidden'') = HttpOK"
  using http_Classify_spec [OF wf_sig_New, of "''api.openai.com''" 403 "[]" "''Forbidden''"]
  by (simp add: sig_New_def)

text \<open>When a signature describes a response, said without the loops that look for it.\<close>

definition holds_text :: "string \<Rightarrow> string list \<Rightarrow> bool" where
  "holds_text s needles \<longleftrightarrow> (\<exists>n \<in> set needles. n \<noteq> [] \<and> (\<exists>a b. to_lower s = a @ to_lower n @ b))"

definition page_describes :: "string \<Rightarrow> string \<Rightarrow> block_page_sig \<Rightarrow> bool" where
  "page_describes loc body p \<longleftrightarrow> holds_text loc (bp_URLContains p) \<or> holds_text body (bp_BodyContains p)"

definition geo_describes :: "string \<Rightarrow> int \<Rightarrow> string \<Rightarrow> geo_block_sig \<Rightarrow> bool" where
  "geo_describes host st body g \<longleftrightarrow>
     (gb_HostSuffix g = [] \<or> to_lower host = to_lower (gb_HostSuffix g)
        \<or> (\<exists>sub. to_lower host = sub @ ''.'' @ to_lower (gb_HostSuffix g)))
     \<and> (gb_Status g = [] \<or> st \<in> set (gb_Status g)) \<and> holds_text body (gb_BodyContains g)"

lemma describes_iff:
  "page_matches (to_lower loc) (to_lower body) = page_describes loc body"
  "geo_matches (to_lower host) st (to_lower body) = geo_describes host st body"
  by (auto simp: fun_eq_iff page_matches_def page_describes_def geo_matches_def geo_describes_def
      holds_text_def containsAny_iff hasHostSuffix_def has_suffix_iff)

text \<open>
  Claim C23. Which signature a response is put down to, for every set of signatures with names (all
  loaded ones have them), every host, status, redirect and body: the first block page that
  describes it, whatever the status; if there is none, the first geo-block that does, with the
  host on a label boundary, the status listed or none listed, and a text found; and without either, a
  legal block for 451, a server error from 500 on, and otherwise a normal answer, 401, 403 and
  404 included.
\<close>

theorem http_Classify_first:
  assumes "wf_sigs s"
  shows "http_Classify (Some s) host st loc body =
    (case find (page_describes loc body) (sg_BlockPages s) of
       Some p \<Rightarrow> (HttpBlockPage, bp_Name p)
     | None \<Rightarrow>
         (case find (geo_describes host st body) (sg_GeoBlocks s) of
            Some g \<Rightarrow> (HttpGeoBlock, gb_Name g)
          | None \<Rightarrow> (if st = 451 then HttpLegal else if 500 \<le> st then HttpServerError else HttpOK, [])))"
proof -
  have page: "bp_Name p \<noteq> []" if "find (page_describes loc body) (sg_BlockPages s) = Some p" for p
    using assms find_SomeD [OF that] by (simp add: wf_sigs_def)
  have geo: "gb_Name g \<noteq> []" if "find (geo_describes host st body) (sg_GeoBlocks s) = Some g" for g
    using assms find_SomeD [OF that] by (simp add: wf_sigs_def)
  show ?thesis
    unfolding http_Classify_def MatchBlockPage_def MatchGeoBlock_def match_pages_find match_geo_find describes_iff
    using page geo by (auto simp: Let_def split: option.splits)
qed

theorem http_Classify_first_witness:
  "find (page_describes [] ''Unsupported_Country_region'') (sg_BlockPages sample_sigs) = None
   \<and> map_option gb_Name (find (geo_describes ''api.OpenAI.com'' 403 ''Unsupported_Country_region'') (sg_GeoBlocks sample_sigs))
       = Some ''openai-unsupported-region''"
proof -
  have wf: "wf_sigs sample_sigs" by code_simp
  have "http_Classify (Some sample_sigs) ''api.OpenAI.com'' 403 [] ''Unsupported_Country_region''
      = (HttpGeoBlock, ''openai-unsupported-region'')" by code_simp
  then show ?thesis
    unfolding http_Classify_first [OF wf] by (auto split: option.splits if_splits)
qed

lemma Fetch_failed:
  "hr_Class (Fetch snip sigs obs url) = HttpFailed \<longleftrightarrow>
     (case obs of
        BadRequest e \<Rightarrow> True
      | DoFailed e d \<Rightarrow> True
      | Responded host r d \<Rightarrow>
          resp_Body r = [] \<and> resp_BodyErr r \<noteq> None
          \<and> fst (http_Classify sigs host (resp_Status r) (resp_Location r) []) = HttpOK)"
  "hr_Class (Fetch snip sigs obs url) = HttpFailed \<longleftrightarrow> hr_Err (Fetch snip sigs obs url) \<noteq> None"
  "hr_Class (Fetch snip sigs obs url) = HttpFailed \<longleftrightarrow> hr_ErrKind (Fetch snip sigs obs url) \<noteq> KindNone"
proof -
  have notfail: "fst (http_Classify sigs h st l b) \<noteq> HttpFailed" for h st l b
    by (auto simp: http_Classify_def Let_def split: option.splits if_splits)
  then have cls: "c \<noteq> HttpFailed" if "http_Classify sigs h st l b = (c, g)" for h st l b c g
    using that by (metis fst_conv)
  show "hr_Class (Fetch snip sigs obs url) = HttpFailed \<longleftrightarrow>
     (case obs of
        BadRequest e \<Rightarrow> True
      | DoFailed e d \<Rightarrow> True
      | Responded host r d \<Rightarrow>
          resp_Body r = [] \<and> resp_BodyErr r \<noteq> None
          \<and> fst (http_Classify sigs host (resp_Status r) (resp_Location r) []) = HttpOK)"
    by (cases obs) (auto simp: Fetch_def Let_def read_limited_def maxBody_def
        split: prod.splits option.splits dest: cls)
  show "hr_Class (Fetch snip sigs obs url) = HttpFailed \<longleftrightarrow> hr_Err (Fetch snip sigs obs url) \<noteq> None"
    by (cases obs) (auto simp: Fetch_def Let_def read_limited_def empty_http_result_def
        split: prod.splits option.splits dest: cls)
  show "hr_Class (Fetch snip sigs obs url) = HttpFailed \<longleftrightarrow> hr_ErrKind (Fetch snip sigs obs url) \<noteq> KindNone"
    by (cases obs) (auto simp: Fetch_def Let_def read_limited_def empty_http_result_def
        split: prod.splits option.splits dest: cls)
qed

text \<open>
  A fetch fails exactly when there is no usable response: the request could not be
  built, the exchange failed, or the connection broke before the first body byte of an otherwise
  normal answer; then it carries the error with a category other than "none", and the reported
  status is the server's in every other case.
\<close>

lemma Fetch_failed_iff:
  "(hr_Class (Fetch snip sigs obs url) = HttpFailed \<longleftrightarrow>
     (case obs of
        BadRequest e \<Rightarrow> True
      | DoFailed e d \<Rightarrow> True
      | Responded host r d \<Rightarrow>
          resp_Body r = [] \<and> resp_BodyErr r \<noteq> None
          \<and> fst (http_Classify sigs host (resp_Status r) (resp_Location r) []) = HttpOK))
   \<and> (hr_Class (Fetch snip sigs obs url) = HttpFailed \<longleftrightarrow> hr_Err (Fetch snip sigs obs url) \<noteq> None)
   \<and> (hr_Class (Fetch snip sigs obs url) = HttpFailed \<longleftrightarrow> hr_ErrKind (Fetch snip sigs obs url) \<noteq> KindNone)"
  by (intro conjI Fetch_failed)

end
