(* ===== verification/Outage.thy ===== *)
theory Outage
  imports Netx
begin

text \<open>
  Package outage (internal/outage/outage.go): what an official status page said. The HTTP
  exchange and the JSON decoder are parameters: an observation of the exchange, and a decoder
  from the (limited) body to the indicator and description.
\<close>

record outage_result =
  or_URL :: string
  or_Indicator :: string
  or_Description :: string
  or_Err :: "goerr option"

definition Confirmed :: "outage_result \<Rightarrow> bool" where [outcome_defs]:
  "Confirmed r \<longleftrightarrow>
     or_Indicator r = ''minor'' \<or> or_Indicator r = ''major'' \<or> or_Indicator r = ''critical''"

definition Severe :: "outage_result \<Rightarrow> bool" where [outcome_defs]:
  "Severe r \<longleftrightarrow> or_Indicator r = ''major'' \<or> or_Indicator r = ''critical''"

datatype status_obs =
    StatusBadRequest goerr
  | StatusDoFailed goerr
  | StatusResponded int string \<comment> \<open>the status code and the body\<close>

definition outage_Check ::
  "(string \<Rightarrow> goerr + string \<times> string) \<Rightarrow> status_obs \<Rightarrow> string \<Rightarrow> outage_result" where
  "outage_Check decode obs url =
     (let res = \<lparr>or_URL = url, or_Indicator = [], or_Description = [], or_Err = None\<rparr> in
      case obs of
        StatusBadRequest err \<Rightarrow> res\<lparr>or_Err := Some err\<rparr>
      | StatusDoFailed err \<Rightarrow> res\<lparr>or_Err := Some err\<rparr>
      | StatusResponded code body \<Rightarrow>
          if code \<noteq> 200 then
            res\<lparr>or_Err := Some (errors_New (''status page answered HTTP '' @ itoa code))\<rparr>
          else (case decode (take 1048576 body) of
              Inl err \<Rightarrow> res\<lparr>or_Err := Some (wrap_err ''status page: '' err)\<rparr>
            | Inr (ind, desc) \<Rightarrow>
                if ind = [] then res\<lparr>or_Err := Some (errors_New ''status page: no status indicator'')\<rparr>
                else res\<lparr>or_Indicator := ind, or_Description := desc\<rparr>))"

lemma Severe_Confirmed: "Severe r \<Longrightarrow> Confirmed r"
  by (auto simp: outcome_defs)

text \<open>
  An outage is confirmed only by a status page that was really read: an HTTP 200 answer
  whose body decodes to a minor, major or critical indicator. Any failure to read it is an error
  and confirms nothing, and a severe incident is always a confirmed one.
\<close>

lemma outage_confirmed_iff:
  "(Confirmed (outage_Check decode obs url) \<longleftrightarrow>
     (\<exists>body ind desc. obs = StatusResponded 200 body \<and> decode (take 1048576 body) = Inr (ind, desc)
        \<and> ind \<in> {''minor'', ''major'', ''critical''}))
   \<and> (or_Err (outage_Check decode obs url) \<noteq> None \<longrightarrow> \<not> Confirmed (outage_Check decode obs url))
   \<and> (Severe (outage_Check decode obs url) \<longrightarrow> Confirmed (outage_Check decode obs url))"
proof -
  have "Confirmed (outage_Check decode obs url) \<longleftrightarrow>
     (\<exists>body ind desc. obs = StatusResponded 200 body \<and> decode (take 1048576 body) = Inr (ind, desc)
        \<and> ind \<in> {''minor'', ''major'', ''critical''})"
    by (auto simp: outage_Check_def Let_def Confirmed_def split: status_obs.splits sum.splits prod.splits)
  moreover have "\<not> Confirmed (outage_Check decode obs url)" if "or_Err (outage_Check decode obs url) \<noteq> None"
    using that by (auto simp: outage_Check_def Let_def Confirmed_def
        split: status_obs.splits sum.splits prod.splits if_splits)
  ultimately show ?thesis using Severe_Confirmed by blast
qed

lemma outage_confirmed_iff_witness:
  "\<not> Confirmed (outage_Check (\<lambda>_. Inr (''none'', ''All Systems Operational'')) (StatusResponded 503 []) ''u'')"
  using outage_confirmed_iff
    [of "\<lambda>_. Inr (''none'', ''All Systems Operational'')" "StatusResponded 503 []" "''u''"]
  by (simp add: outage_Check_def)

end
