(* ===== verification/Gotime.thy ===== *)
theory Gotime
  imports Chera_Prelude
begin

text \<open>
  The parts of Go's runtime that measure and print quantities: durations of package time
  (64-bit counts of nanoseconds) with their rounding and text form, and the IEEE 754 binary64
  operations that the throughput comparison of package speed uses.

  A binary64 value is its exact rational value here. All values that occur are zero or lie
  between about $10^{-10}$ and $10^{16}$, far from overflow and from the subnormal range, so a
  floating-point operation is the exact operation followed by \<open>fl\<close>, rounding to 53
  significant bits, to nearest and to even on a tie.
\<close>

section \<open>Durations\<close>

definition Millisecond :: int where "Millisecond = 1000000"
definition Second :: int where "Second = 1000000000"

definition max_duration :: int where "max_duration = 9223372036854775807"
definition min_duration :: int where "min_duration = - 9223372036854775808"

text \<open>\<^verbatim>\<open>Duration.Round\<close>, for a positive multiple: halves go away from zero.\<close>

definition dur_round :: "int \<Rightarrow> int \<Rightarrow> int" where
  "dur_round d m =
     (if d < 0 then
        (let r = (- d) mod m in
         if r + r < m then d + r
         else if min_duration \<le> d - m + r then d - m + r else min_duration)
      else
        (let r = d mod m in
         if r + r < m then d - r
         else if d + m - r \<le> max_duration then d + m - r else max_duration))"

text \<open>
  \<open>frac_digits prec v\<close> is the text of \<^verbatim>\<open>fmtFrac\<close>: the last \<open>prec\<close> decimal digits of
  \<open>v\<close> after a point, without trailing zeros, and without the point if nothing is left.
\<close>

fun frac_digits :: "nat \<Rightarrow> int \<Rightarrow> bool \<Rightarrow> string \<Rightarrow> string" where
  "frac_digits 0 v seen acc = (if seen then CHR ''.'' # acc else acc)"
| "frac_digits (Suc p) v seen acc =
     (let d = v mod 10; seen' = (seen \<or> d \<noteq> 0) in
      frac_digits p (v div 10) seen' (if seen' then itoa d @ acc else acc))"

definition dur_abs_String :: "int \<Rightarrow> string" where
  "dur_abs_String u =
     (if u < Second then
        (if u = 0 then ''0s''
         else if u < 1000 then itoa u @ ''ns''
         else if u < Millisecond then
           itoa (u div 1000) @ frac_digits 3 u False [] @ [CHR 0xC2, CHR 0xB5] @ ''s''
         else itoa (u div Millisecond) @ frac_digits 6 u False [] @ ''ms'')
      else
        (let secs = u div Second; mins = secs div 60; hours = mins div 60 in
         (if mins > 0 then (if hours > 0 then itoa hours @ ''h'' else []) @ itoa (mins mod 60) @ ''m'' else [])
         @ itoa (secs mod 60) @ frac_digits 9 u False [] @ ''s''))"

definition dur_String :: "int \<Rightarrow> string" where
  "dur_String d = (if d < 0 then CHR ''-'' # dur_abs_String (- d) else dur_abs_String d)"

section \<open>Binary64 rounding\<close>

text \<open>Two to an integer power, and the nearest integer with ties to even.\<close>

definition pow2 :: "int \<Rightarrow> rat" where
  "pow2 e = (if 0 \<le> e then 2 ^ nat e else 1 / 2 ^ nat (- e))"

definition round_even :: "rat \<Rightarrow> int" where
  "round_even x =
     (let f = \<lfloor>x\<rfloor>; r = x - of_int f in
      if r < 1 / 2 then f else if 1 / 2 < r then f + 1 else if even f then f else f + 1)"

function bit_length :: "int \<Rightarrow> int" where
  "bit_length n = (if n \<le> 0 then 0 else 1 + bit_length (n div 2))"
  by pat_completeness auto
termination
  by (relation "measure nat") auto

declare bit_length.simps [simp del]

text \<open>The exponent \<open>e\<close> with \<open>pow2 e \<le> x < pow2 (e + 1)\<close>, for a positive \<open>x\<close>.\<close>

definition exponent :: "rat \<Rightarrow> int" where
  "exponent x =
     (case quotient_of x of (a, b) \<Rightarrow>
        let e = bit_length a - bit_length b in
        if pow2 e \<le> x then e else e - 1)"

definition fl :: "rat \<Rightarrow> rat" where
  "fl x = (if x \<le> 0 then 0
           else let u = pow2 (exponent x - 52) in u * of_int (round_even (x / u)))"

text \<open>\<^verbatim>\<open>Duration.Seconds\<close>, for a positive duration.\<close>

definition dur_Seconds :: "int \<Rightarrow> rat" where
  "dur_Seconds d =
     fl (fl (of_int (d div Second)) + fl (fl (of_int (d mod Second)) / 1000000000))"

text \<open>Rounding to the nearest integer moves a value by at most a half.\<close>

lemma round_even_error: "\<bar>x - of_int (round_even x)\<bar> \<le> 1 / 2"
proof -
  define f where "f = \<lfloor>x\<rfloor>"
  have "of_int f \<le> x" "x < of_int f + 1" unfolding f_def by linarith+
  then show ?thesis unfolding round_even_def Let_def f_def [symmetric]
    by (auto simp: abs_if)
qed

lemma round_even_of_int [simp]: "round_even (of_int n) = n"
  by (simp add: round_even_def)

end
