(* ===== verification/Speed.thy ===== *)
theory Speed
  imports Netx Gotime
begin

text \<open>
  Package speed (internal/speed/speed.go): timed downloads and the throttling thresholds. A
  measurement is what the HTTP client and its trace callbacks reported; \<open>speed_Measure\<close>
  takes these reports as an observation.
\<close>

definition MinBytes :: int where "MinBytes = 65536"
definition MaxBytes :: int where "MaxBytes = 1048576"
definition SlowRate :: rat where "SlowRate = 262144"
definition RateRatio :: rat where "RateRatio = 8"
definition SlowHandshake :: int where "SlowHandshake = 1500000000"
definition HandshakeRatio :: int where "HandshakeRatio = 5"

record measurement =
  sm_URL :: string
  sm_Status :: int
  sm_Bytes :: int
  sm_Duration :: int
  sm_Handshake :: int
  sm_Err :: "goerr option"

definition Rate :: "measurement \<Rightarrow> rat" where
  "Rate m = (if sm_Duration m \<le> 0 then 0 else fl (fl (of_int (sm_Bytes m)) / dur_Seconds (sm_Duration m)))"

text \<open>
  What happened during one download: the TLS handshake time the trace callbacks saw (0 if none
  started), and how the exchange went: the bytes the server sent before the stream ended, and
  the error it ended with, if any.
\<close>

datatype download =
    MeasureBadRequest goerr
  | MeasureDoFailed goerr int int           \<comment> \<open>error, duration, handshake time\<close>
  | Downloaded int int "goerr option" int int \<comment> \<open>status, bytes, read error, duration, handshake time\<close>

definition speed_Measure :: "download \<Rightarrow> string \<Rightarrow> measurement" where
  "speed_Measure obs url =
     (let m = \<lparr>sm_URL = url, sm_Status = 0, sm_Bytes = 0, sm_Duration = 0, sm_Handshake = 0, sm_Err = None\<rparr> in
      case obs of
        MeasureBadRequest err \<Rightarrow> m\<lparr>sm_Err := Some err\<rparr>
      | MeasureDoFailed err d hs \<Rightarrow> m\<lparr>sm_Handshake := hs, sm_Duration := d, sm_Err := Some err\<rparr>
      | Downloaded st sent readErr d hs \<Rightarrow>
          (let n = (if sent < MaxBytes then sent else MaxBytes);
               err = (if sent < MaxBytes then readErr else None);
               m1 = m\<lparr>sm_Handshake := hs, sm_Status := st, sm_Duration := d, sm_Bytes := n\<rparr>
           in case err of
                None \<Rightarrow> m1
              | Some e \<Rightarrow>
                  if err_is (\<lambda>k. k = KContextDeadline) e \<and> n > 0 then m1
                  else m1\<lparr>sm_Err := Some e\<rparr>))"

datatype speed_kind = NotThrottled | Throughput | HandshakeTime

fun speed_kind_text :: "speed_kind \<Rightarrow> string" where
  "speed_kind_text NotThrottled = []"
| "speed_kind_text Throughput = ''throughput''"
| "speed_kind_text HandshakeTime = ''handshake''"

record speed_result =
  sr_Target :: measurement
  sr_Baseline :: measurement
  sr_Throttled :: bool
  sr_Kind :: speed_kind

definition success :: "int \<Rightarrow> bool" where
  "success st \<longleftrightarrow> 200 \<le> st \<and> st < 300"

definition Compare :: "measurement \<Rightarrow> measurement \<Rightarrow> speed_result" where
  "Compare tgt baseline =
     (let r = \<lparr>sr_Target = tgt, sr_Baseline = baseline, sr_Throttled = False, sr_Kind = NotThrottled\<rparr> in
      if sm_Err tgt \<noteq> None \<or> sm_Err baseline \<noteq> None \<or> \<not> success (sm_Status baseline) then r
      else if success (sm_Status tgt) \<and> MinBytes \<le> sm_Bytes tgt \<and> MinBytes \<le> sm_Bytes baseline
              \<and> Rate tgt < SlowRate \<and> fl (Rate tgt * RateRatio) \<le> Rate baseline
      then r\<lparr>sr_Throttled := True, sr_Kind := Throughput\<rparr>
      else if SlowHandshake < sm_Handshake tgt \<and> 0 < sm_Handshake baseline
              \<and> HandshakeRatio * sm_Handshake baseline < sm_Handshake tgt
      then r\<lparr>sr_Throttled := True, sr_Kind := HandshakeTime\<rparr>
      else r)"

text \<open>\<^verbatim>\<open>%.0f\<close> and \<^verbatim>\<open>%.1f\<close>: the exact value rounded to that many decimals, halves to even.\<close>

definition fmt_f0 :: "rat \<Rightarrow> string" where
  "fmt_f0 x = itoa (round_even x)"

definition fmt_f1 :: "rat \<Rightarrow> string" where
  "fmt_f1 x = (let n = round_even (x * 10) in itoa (n div 10) @ ''.'' @ itoa (n mod 10))"

definition FormatRate :: "rat \<Rightarrow> string" where
  "FormatRate bps =
     (if 1048576 \<le> bps then fmt_f1 (bps / 1048576) @ '' MB/s''
      else if 1024 \<le> bps then fmt_f0 (bps / 1024) @ '' KB/s''
      else fmt_f0 bps @ '' B/s'')"

section \<open>Properties\<close>

lemma Compare_Kind: "sr_Throttled (Compare t b) \<longleftrightarrow> sr_Kind (Compare t b) \<noteq> NotThrottled"
  by (simp add: Compare_def Let_def)

lemma Compare_keeps [simp]: "sr_Target (Compare t b) = t" "sr_Baseline (Compare t b) = b"
  by (simp_all add: Compare_def Let_def)

text \<open>
  The measurement keeps a download that the timeout cut off after some bytes (a
  throttled connection looks like that) and never counts more than the cap; an error is recorded
  in every other case in which one occurred.
\<close>

lemma Measure_partial:
  "sm_Bytes (speed_Measure (Downloaded st sent readErr d hs) url) \<le> MaxBytes
   \<and> (sm_Err (speed_Measure (Downloaded st sent readErr d hs) url) \<noteq> None \<longleftrightarrow>
        sent < MaxBytes \<and> (\<exists>e. readErr = Some e \<and> \<not> (err_is (\<lambda>k. k = KContextDeadline) e \<and> sent > 0)))"
  by (auto simp: speed_Measure_def Let_def split: option.splits)

text \<open>
  Throttling is concluded only from a comparison that makes sense: neither download
  failed, the baseline answered with success, and either both downloads are large enough, the
  target is below 256 KB/s and its rate times eight does not exceed the baseline's, or its
  handshake took over 1.5 s and more than five times the baseline's.
\<close>

lemma Compare_throttled_iff:
  "sr_Throttled (Compare t b) \<longleftrightarrow>
     sm_Err t = None \<and> sm_Err b = None \<and> 200 \<le> sm_Status b \<and> sm_Status b \<le> 299
     \<and> ((200 \<le> sm_Status t \<and> sm_Status t \<le> 299 \<and> 65536 \<le> sm_Bytes t \<and> 65536 \<le> sm_Bytes b
          \<and> Rate t < 262144 \<and> fl (Rate t * 8) \<le> Rate b)
        \<or> (1500000000 < sm_Handshake t \<and> 0 < sm_Handshake b \<and> 5 * sm_Handshake b < sm_Handshake t))"
  by (auto simp: Compare_def Let_def success_def MinBytes_def SlowRate_def RateRatio_def
      SlowHandshake_def HandshakeRatio_def)

end
