(* ===== verification/Verdict.thy ===== *)
theory Verdict
  imports Localnet Dnscheck Tcpcheck Tlscheck Httpcheck Outage Speed
begin

text \<open>
  Package verdict (internal/verdict/verdict.go): from everything measured for one target to
  exactly one verdict, with a confidence, a reason and secondary findings. A nil pointer of the
  input, a layer that did not run, is \<^const>\<open>None\<close>; a nil \<^verbatim>\<open>*Decision\<close> is \<^const>\<open>None\<close> too.

  The definitions follow the code function by function: \<open>decide\<close> builds a decision from a key and
  a list of argument names and values, \<open>dnsDecision\<close> judges the DNS layer, \<open>pathDecision\<close> the
  connection to the verified addresses (split in two where the code reaches the HTTP layer), and
  \<open>Decide\<close> orders them. The lemmas give each verdict its exact condition.
\<close>

section \<open>Input and decision\<close>

record input =
  in_Local :: "local_result option"
  in_Intercept :: "interception option"
  in_DNS :: analysis
  in_TCP :: "tcp_result list"
  in_TLS :: "tls_result option"
  in_Verify :: "handshake option"
  in_HTTP :: "http_result option"
  in_Outage :: "outage_result option"
  in_Speed :: "speed_result option"
  in_Signatures :: "sig_set option"

record decision =
  d_Verdict :: verdict
  d_Confidence :: confidence
  d_Reason :: reason
  d_Also :: "verdict list"

text \<open>The loop over the variadic arguments: pairs, an odd last one ignored.\<close>

fun fill_args :: "string list \<Rightarrow> (string \<rightharpoonup> string) \<Rightarrow> (string \<rightharpoonup> string)" where
  "fill_args (k # v # rest) m = fill_args rest (m(k \<mapsto> v))"
| "fill_args _ m = m"

definition decide :: "verdict \<Rightarrow> confidence \<Rightarrow> string \<Rightarrow> string list \<Rightarrow> decision" where
  "decide v c key args =
     \<lparr>d_Verdict = v, d_Confidence = c,
      d_Reason = \<lparr>reason_Key = key, reason_Args = fill_args args Map.empty\<rparr>, d_Also = []\<rparr>"

lemma decide_simps [simp]:
  "d_Verdict (decide v c key args) = v"
  "d_Confidence (decide v c key args) = c"
  "d_Also (decide v c key args) = []"
  "reason_Key (d_Reason (decide v c key args)) = key"
  "reason_Args (d_Reason (decide v c key args)) = fill_args args Map.empty"
  by (simp_all add: decide_def)

section \<open>The DNS decision\<close>

fun first_addr :: "addr list list \<Rightarrow> string" where
  "first_addr [] = []"
| "first_addr (l # ls) = (case l of a # as \<Rightarrow> addr_String a | [] \<Rightarrow> first_addr ls)"

definition suspectInvalid :: "input \<Rightarrow> bool" where
  "suspectInvalid inp =
     (case in_Verify inp of
        None \<Rightarrow> False
      | Some v \<Rightarrow>
          if hs_Outcome v = TlsOK then False
          else if Reached v then True
          else (case in_TLS inp of None \<Rightarrow> False | Some t \<Rightarrow> hs_Outcome (tls_Real t) = TlsOK))"

definition mismatch :: "input \<Rightarrow> bool" where
  "mismatch inp \<longleftrightarrow>
     0 < length (an_Suspects (in_DNS inp)) \<and> in_Verify inp \<noteq> None \<and> suspectInvalid inp"

definition intercepted :: "input \<Rightarrow> bool" where
  "intercepted inp \<longleftrightarrow> (case in_Intercept inp of None \<Rightarrow> False | Some i \<Rightarrow> ic_Detected i)"

definition dnsDecision :: "input \<Rightarrow> decision option" where
  "dnsDecision inp =
     (let a = in_DNS inp;
          plain = (if an_ReferenceKind a \<noteq> KindDoH then ''_plain'' else [])
      in if Poisoned a \<or> mismatch inp then
           (let ip = first_addr [an_BlockIPs a, an_Bogons a, an_Suspects a] in
            if intercepted inp \<or> an_InjectedPublic a then
              Some (decide DNSIntercepted High ''dns.intercepted'' [''ip'', ip])
            else if 0 < length (an_BlockIPs a) then
              Some (decide DNSPoisoned High ''dns.block_ip'' [''ip'', ip])
            else if 0 < length (an_Bogons a) then
              Some (decide DNSPoisoned High (''dns.bogon'' @ plain) [''ip'', ip])
            else Some (decide DNSPoisoned Medium ''dns.mismatch'' [''ip'', ip]))
         else if an_SystemFailure a = [] then None
         else if an_SystemFailure a = ''nxdomain'' \<or> an_SystemFailure a = ''noanswer'' then
           Some (decide DNSPoisoned Medium (''dns.nxdomain'' @ plain) [])
         else Some (decide DNSPoisoned Low (''dns.failed'' @ plain) [''error'', an_SystemFailure a]))"

section \<open>The path decision\<close>

definition outageDecision :: "outage_result \<Rightarrow> decision" where
  "outageDecision o1 =
     decide UpstreamOutage (if Severe o1 then High else Medium) ''outage.confirmed''
       [''description'', or_Description o1]"

definition outage_confirmed :: "input \<Rightarrow> bool" where
  "outage_confirmed inp \<longleftrightarrow> (case in_Outage inp of None \<Rightarrow> False | Some o1 \<Rightarrow> Confirmed o1)"

text \<open>The decision when no connection was accepted.\<close>

definition tcpDecision :: "input \<Rightarrow> tcp_summary \<Rightarrow> decision" where
  "tcpDecision inp smry =
     (let ip = addr_String (fst (tcp_Addr (hd (in_TCP inp))));
          baselineOK = (case in_Local inp of None \<Rightarrow> False | Some l \<Rightarrow> AnyBaseline l)
      in if ts_AnyRejected smry then decide ConnectionReset Medium ''tcp.reset'' [''ip'', ip]
         else if ts_AllTimeout smry then
           decide IPBlocked (if baselineOK then High else Medium) ''tcp.timeout'' [''ip'', ip]
         else if ts_AllUnreachable smry then decide IPBlocked Medium ''tcp.unreachable'' [''ip'', ip]
         else decide Inconclusive Low ''inconclusive'' [])"

text \<open>The throttling decision and the healthy end of the path.\<close>

definition speedDecision :: "input \<Rightarrow> string \<Rightarrow> decision" where
  "speedDecision inp stat =
     (let healthy = decide OK High ''ok.http'' [''status'', stat] in
      case in_Speed inp of
        None \<Rightarrow> healthy
      | Some sp \<Rightarrow>
          if sr_Throttled sp then
            (if sr_Kind sp = HandshakeTime then
               decide Throttled Medium ''speed.handshake''
                 [''target'', dur_String (dur_round (sm_Handshake (sr_Target sp)) Millisecond),
                  ''baseline'', dur_String (dur_round (sm_Handshake (sr_Baseline sp)) Millisecond)]
             else
               decide Throttled Medium ''speed.throughput''
                 [''target'', FormatRate (Rate (sr_Target sp)),
                  ''baseline'', FormatRate (Rate (sr_Baseline sp))])
          else healthy)"

text \<open>The switch over the class of the HTTP result.\<close>

definition httpDecision :: "input \<Rightarrow> http_result \<Rightarrow> decision" where
  "httpDecision inp h =
     (let stat = itoa (hr_Status h) in
      case hr_Class h of
        HttpGeoBlock \<Rightarrow>
          decide ProviderGeoBlock High ''http.geo_block'' [''status'', stat, ''signature'', hr_Signature h]
      | HttpLegal \<Rightarrow> decide ProviderGeoBlock Medium ''http.451'' []
      | HttpServerError \<Rightarrow>
          if outage_confirmed inp then outageDecision (the (in_Outage inp))
          else decide UpstreamOutage Medium ''http.5xx'' [''status'', stat]
      | HttpFailed \<Rightarrow>
          if hr_ErrKind h = KindReset \<or> hr_ErrKind h = KindEOF then
            decide ConnectionReset Medium ''http.reset'' []
          else if outage_confirmed inp then outageDecision (the (in_Outage inp))
          else if hr_ErrKind h = KindTimeout then decide Inconclusive Low ''http.timeout'' []
          else decide Inconclusive Low ''http.error'' [''error'', Short (hr_Err h)]
      | _ \<Rightarrow> speedDecision inp stat)"

text \<open>The certificate switch.\<close>

definition certDecision :: "handshake \<Rightarrow> decision" where
  "certDecision hs =
     (let issuer = hs_IssuerName hs in
      if hs_CertProblem hs = CertUnknownAuthority then
        decide TLSIntercepted High ''tls.untrusted'' [''issuer'', issuer]
      else if hs_CertProblem hs = CertHostname then
        decide TLSIntercepted Medium ''tls.hostname'' [''issuer'', issuer]
      else if hs_CertProblem hs = CertExpired then decide TLSIntercepted Low ''tls.expired'' []
      else decide TLSIntercepted Medium ''tls.untrusted'' [''issuer'', issuer])"

definition issuer_match :: "input \<Rightarrow> handshake \<Rightarrow> string" where
  "issuer_match inp hs =
     (case in_Signatures inp of None \<Rightarrow> [] | Some s \<Rightarrow> MatchInterceptionIssuer s (hs_Issuer hs))"

text \<open>The part of \<^verbatim>\<open>pathDecision\<close> after a handshake that completed.\<close>

definition serviceDecision :: "input \<Rightarrow> handshake \<Rightarrow> decision" where
  "serviceDecision inp hs =
     (if (case in_HTTP inp of None \<Rightarrow> False | Some h \<Rightarrow> hr_Class h = HttpBlockPage) then
        decide BlockPage High ''http.block_page'' [''signature'', hr_Signature (the (in_HTTP inp))]
      else if hs_Outcome hs = TlsCertInvalid then certDecision hs
      else if issuer_match inp hs \<noteq> [] then
        decide TLSIntercepted Medium ''tls.middlebox'' [''issuer'', issuer_match inp hs]
      else (case in_HTTP inp of
          None \<Rightarrow> decide OK Medium ''ok.tls'' []
        | Some h \<Rightarrow> httpDecision inp h))"

definition tlsDecision :: "input \<Rightarrow> string \<Rightarrow> tls_result \<Rightarrow> decision" where
  "tlsDecision inp ip t =
     (let real = tls_Real t in
      if SNI_filtered t then
        decide SNIFiltered High
          (if hs_Outcome real = TlsTimeout then ''tls.sni_timeout'' else ''tls.sni_reset'') []
      else if hs_Outcome real = TlsTimeout then decide IPBlocked Medium ''tls.timeout'' [''ip'', ip]
      else if Blocked real then decide ConnectionReset Medium ''tls.reset'' [''ip'', ip]
      else if hs_Outcome real = TlsAlert then
        decide Inconclusive Low ''tls.alert'' [''error'', Short (hs_Err real)]
      else if hs_Outcome real \<noteq> TlsOK \<and> hs_Outcome real \<noteq> TlsCertInvalid then
        decide Inconclusive Low ''inconclusive'' []
      else serviceDecision inp real)"

definition pathDecision :: "input \<Rightarrow> tcp_summary \<Rightarrow> decision option" where
  "pathDecision inp smry =
     (if length (in_TCP inp) = 0 then None
      else (case ts_Working smry of
          None \<Rightarrow> Some (tcpDecision inp smry)
        | Some w \<Rightarrow>
            (case in_TLS inp of
               None \<Rightarrow> Some (decide OK Low ''ok.tls'' [])
             | Some t \<Rightarrow> Some (tlsDecision inp (addr_String (fst (tcp_Addr w))) t))))"

section \<open>Decide\<close>

text \<open>The switch after the local network: the path decision and the DNS decision are combined.\<close>

definition combine :: "input \<Rightarrow> decision option \<Rightarrow> decision option \<Rightarrow> decision" where
  "combine inp dnsD pathD =
     (case pathD of
        None \<Rightarrow>
          (case dnsD of
             Some d \<Rightarrow> d
           | None \<Rightarrow>
               if an_Dropped (in_DNS inp) then decide DNSIntercepted Medium ''dns.dropped'' []
               else if an_Unresolvable (in_DNS inp) \<and> outage_confirmed inp then
                 outageDecision (the (in_Outage inp))
               else if an_Unresolvable (in_DNS inp) \<and> an_DoHUnavailable (in_DNS inp) then
                 decide Inconclusive Low ''dns.unresolvable_nodoh'' []
               else if an_Unresolvable (in_DNS inp) then decide Inconclusive Low ''dns.unresolvable'' []
               else decide Inconclusive Low ''inconclusive'' [])
      | Some p \<Rightarrow>
          (case dnsD of
             None \<Rightarrow> p
           | Some d \<Rightarrow>
               if d_Verdict p = OK \<or> d_Verdict p = Inconclusive then d
               else p\<lparr>d_Also := d_Also p @ [d_Verdict d]\<rparr>))"

definition local_down :: "input \<Rightarrow> tcp_summary \<Rightarrow> string option" where
  "local_down inp smry =
     (case in_Local inp of
        None \<Rightarrow> None
      | Some l \<Rightarrow>
          if ts_Working smry = None then
            (case Down l of (down, why) \<Rightarrow> if down then Some why else None)
          else None)"

definition Decide :: "input \<Rightarrow> decision" where
  "Decide inp =
     (let smry = Summarize (in_TCP inp) in
      case local_down inp smry of
        Some why \<Rightarrow>
          decide LocalNetworkDown (if why = DownUnreachable then Medium else High) (''local.'' @ why) []
      | None \<Rightarrow> combine inp (dnsDecision inp) (pathDecision inp smry))"

section \<open>Facts about the parts\<close>

abbreviation working :: "input \<Rightarrow> tcp_result option" where
  "working inp \<equiv> ts_Working (Summarize (in_TCP inp))"

abbreviation path_of :: "input \<Rightarrow> decision option" where
  "path_of inp \<equiv> pathDecision inp (Summarize (in_TCP inp))"

abbreviation down_of :: "input \<Rightarrow> string option" where
  "down_of inp \<equiv> local_down inp (Summarize (in_TCP inp))"

definition dns_problem :: "input \<Rightarrow> bool" where
  "dns_problem inp \<longleftrightarrow> Poisoned (in_DNS inp) \<or> mismatch inp \<or> an_SystemFailure (in_DNS inp) \<noteq> []"

lemma dnsDecision_None_iff: "dnsDecision inp = None \<longleftrightarrow> \<not> dns_problem inp"
  by (simp add: dnsDecision_def dns_problem_def Let_def)

lemma dnsDecision_Some:
  "dnsDecision inp = Some d \<Longrightarrow> d_Also d = [] \<and> d_Verdict d \<in> {DNSPoisoned, DNSIntercepted}
     \<and> (d_Verdict d = DNSIntercepted \<longleftrightarrow>
          (Poisoned (in_DNS inp) \<or> mismatch inp) \<and> (intercepted inp \<or> an_InjectedPublic (in_DNS inp)))"
  by (auto simp: dnsDecision_def Let_def split: if_splits)

lemma outageDecision_simps [simp]:
  "d_Verdict (outageDecision o1) = UpstreamOutage" "d_Also (outageDecision o1) = []"
  by (simp_all add: outageDecision_def)

lemma certDecision_verdict [simp]: "d_Verdict (certDecision h) = TLSIntercepted" "d_Also (certDecision h) = []"
  by (simp_all add: certDecision_def Let_def)

definition throttled :: "input \<Rightarrow> bool" where
  "throttled inp \<longleftrightarrow> (case in_Speed inp of None \<Rightarrow> False | Some sp \<Rightarrow> sr_Throttled sp)"

lemma speedDecision_verdict:
  "d_Verdict (speedDecision inp st) = (if throttled inp then Throttled else OK)"
  "d_Also (speedDecision inp st) = []"
  by (simp_all add: speedDecision_def throttled_def Let_def split: option.splits)

lemma httpDecision_verdict:
  "d_Verdict (httpDecision inp h) =
     (case hr_Class h of
        HttpGeoBlock \<Rightarrow> ProviderGeoBlock
      | HttpLegal \<Rightarrow> ProviderGeoBlock
      | HttpServerError \<Rightarrow> UpstreamOutage
      | HttpFailed \<Rightarrow>
          if hr_ErrKind h = KindReset \<or> hr_ErrKind h = KindEOF then ConnectionReset
          else if outage_confirmed inp then UpstreamOutage else Inconclusive
      | _ \<Rightarrow> if throttled inp then Throttled else OK)"
  "d_Also (httpDecision inp h) = []"
  by (simp_all add: httpDecision_def speedDecision_verdict Let_def split: http_class.splits)

definition block_page :: "input \<Rightarrow> bool" where
  "block_page inp \<longleftrightarrow> (case in_HTTP inp of None \<Rightarrow> False | Some h \<Rightarrow> hr_Class h = HttpBlockPage)"

lemma serviceDecision_verdict:
  "d_Verdict (serviceDecision inp hs) =
     (if block_page inp then BlockPage
      else if hs_Outcome hs = TlsCertInvalid \<or> issuer_match inp hs \<noteq> [] then TLSIntercepted
      else (case in_HTTP inp of None \<Rightarrow> OK | Some h \<Rightarrow> d_Verdict (httpDecision inp h)))"
  "d_Also (serviceDecision inp hs) = []"
  by (simp_all add: serviceDecision_def block_page_def httpDecision_verdict(2) split: option.splits)

definition handshake_done :: "tls_result \<Rightarrow> bool" where
  "handshake_done t \<longleftrightarrow> hs_Outcome (tls_Real t) = TlsOK \<or> hs_Outcome (tls_Real t) = TlsCertInvalid"

lemma handshake_done_not_filtered: "handshake_done t \<Longrightarrow> \<not> SNI_filtered t"
  by (auto simp: handshake_done_def SNI_filtered_def Blocked_def)

lemma tlsDecision_verdict:
  "d_Verdict (tlsDecision inp ip t) =
     (if handshake_done t then d_Verdict (serviceDecision inp (tls_Real t))
      else if SNI_filtered t then SNIFiltered
      else if hs_Outcome (tls_Real t) = TlsTimeout then IPBlocked
      else if Blocked (tls_Real t) then ConnectionReset
      else Inconclusive)"
  "d_Also (tlsDecision inp ip t) = []"
  using handshake_done_not_filtered [of t]
  by (auto simp: tlsDecision_def handshake_done_def Let_def serviceDecision_verdict(2) Blocked_def)

lemma tcpDecision_verdict:
  "d_Verdict (tcpDecision inp smry) =
     (if ts_AnyRejected smry then ConnectionReset
      else if ts_AllTimeout smry \<or> ts_AllUnreachable smry then IPBlocked else Inconclusive)"
  "d_Also (tcpDecision inp smry) = []"
  by (simp_all add: tcpDecision_def Let_def)

lemma working_nonempty: "ts_Working (Summarize rs) = Some w \<Longrightarrow> rs \<noteq> []"
  by (auto dest: Working_mem)

lemma path_of_eq:
  "path_of inp =
     (if in_TCP inp = [] then None
      else case working inp of
          None \<Rightarrow> Some (tcpDecision inp (Summarize (in_TCP inp)))
        | Some w \<Rightarrow> (case in_TLS inp of None \<Rightarrow> Some (decide OK Low ''ok.tls'' [])
                     | Some t \<Rightarrow> Some (tlsDecision inp (addr_String (fst (tcp_Addr w))) t)))"
  by (simp add: pathDecision_def)

lemma path_of_Some:
  "path_of inp = Some p \<longleftrightarrow>
     (in_TCP inp \<noteq> [] \<and> working inp = None \<and> p = tcpDecision inp (Summarize (in_TCP inp)))
     \<or> (working inp \<noteq> None \<and> in_TLS inp = None \<and> p = decide OK Low ''ok.tls'' [])
     \<or> (\<exists>w t. working inp = Some w \<and> in_TLS inp = Some t
          \<and> p = tlsDecision inp (addr_String (fst (tcp_Addr w))) t)"
  using working_nonempty [of "in_TCP inp"]
  by (cases "working inp"; cases "in_TLS inp") (auto simp: path_of_eq)

lemma path_of_None: "path_of inp = None \<longleftrightarrow> in_TCP inp = []"
  by (simp add: path_of_eq split: option.splits)

lemma path_Also: "path_of inp = Some p \<Longrightarrow> d_Also p = []"
  by (auto simp: path_of_Some tcpDecision_verdict(2) tlsDecision_verdict(2))

text \<open>Which verdicts each part can give.\<close>

lemma httpDecision_range:
  "d_Verdict (httpDecision inp h) \<in> {ProviderGeoBlock, UpstreamOutage, ConnectionReset, Inconclusive, Throttled, OK}"
  by (simp add: httpDecision_verdict split: http_class.splits)

lemma serviceDecision_range:
  "d_Verdict (serviceDecision inp hs) \<in> {BlockPage, TLSIntercepted, ProviderGeoBlock, UpstreamOutage,
     ConnectionReset, Inconclusive, Throttled, OK}"
  using httpDecision_range by (auto simp: serviceDecision_verdict split: option.splits)

lemma tlsDecision_range:
  "d_Verdict (tlsDecision inp ip t) \<in> {BlockPage, TLSIntercepted, ProviderGeoBlock, UpstreamOutage,
     ConnectionReset, Inconclusive, Throttled, OK, SNIFiltered, IPBlocked}"
  using serviceDecision_range [of inp "tls_Real t"] by (auto simp: tlsDecision_verdict)

lemma tlsDecision_SNI: "d_Verdict (tlsDecision inp ip t) = SNIFiltered \<longleftrightarrow> SNI_filtered t"
  using serviceDecision_range [of inp "tls_Real t"] handshake_done_not_filtered [of t]
  by (auto simp: tlsDecision_verdict)

lemma tcpDecision_range: "d_Verdict (tcpDecision inp smry) \<in> {ConnectionReset, IPBlocked, Inconclusive}"
  by (simp add: tcpDecision_verdict)

lemma path_not_dns:
  "path_of inp = Some p \<Longrightarrow> d_Verdict p \<notin> {DNSPoisoned, DNSIntercepted, LocalNetworkDown}"
proof -
  assume "path_of inp = Some p"
  then consider "p = tcpDecision inp (Summarize (in_TCP inp))" | "p = decide OK Low ''ok.tls'' []"
    | ip t where "p = tlsDecision inp ip t"
    by (auto simp: path_of_Some)
  then show ?thesis
  proof cases
    case 1
    then show ?thesis using tcpDecision_range [of inp "Summarize (in_TCP inp)"] by auto
  next
    case 2
    then show ?thesis by simp
  next
    case 3
    then show ?thesis using tlsDecision_range [of inp ip t] by auto
  qed
qed

text \<open>A verdict that needs an accepted connection is given by the TLS part.\<close>

lemma path_definite:
  assumes "v \<notin> {ConnectionReset, IPBlocked, Inconclusive, OK}"
  shows "(\<exists>p. path_of inp = Some p \<and> d_Verdict p = v) \<longleftrightarrow>
    (\<exists>w t. working inp = Some w \<and> in_TLS inp = Some t
       \<and> d_Verdict (tlsDecision inp (addr_String (fst (tcp_Addr w))) t) = v)"
  using assms tcpDecision_range [of inp "Summarize (in_TCP inp)"] by (auto simp: path_of_Some)

lemma down_of_Some_iff:
  "down_of inp \<noteq> None \<longleftrightarrow> working inp = None \<and> (\<exists>l. in_Local inp = Some l \<and> fst (Down l))"
  by (auto simp: local_down_def split: option.splits prod.splits)

text \<open>A definite verdict of the path is the verdict, whatever DNS says.\<close>

lemma Decide_path_definite:
  assumes "v \<notin> {OK, Inconclusive, UpstreamOutage, DNSPoisoned, DNSIntercepted, LocalNetworkDown}"
  shows "d_Verdict (Decide inp) = v \<longleftrightarrow> down_of inp = None \<and> (\<exists>p. path_of inp = Some p \<and> d_Verdict p = v)"
  using assms dnsDecision_Some [of inp]
  by (auto simp: Decide_def combine_def Let_def split: option.splits)

lemma Decide_down: "down_of inp = Some why \<Longrightarrow>
    Decide inp = decide LocalNetworkDown (if why = DownUnreachable then Medium else High) (''local.'' @ why) []"
  by (simp add: Decide_def Let_def)

lemma Decide_combine: "down_of inp = None \<Longrightarrow> Decide inp = combine inp (dnsDecision inp) (path_of inp)"
  by (simp add: Decide_def Let_def)

lemma Decide_cases:
  "(\<And>why. down_of inp = Some why \<Longrightarrow> P (decide LocalNetworkDown (if why = DownUnreachable then Medium else High) (''local.'' @ why) []))
   \<Longrightarrow> (down_of inp = None \<Longrightarrow> P (combine inp (dnsDecision inp) (path_of inp)))
   \<Longrightarrow> P (Decide inp)"
  by (cases "down_of inp") (simp_all add: Decide_down Decide_combine)

lemma working_down: "working inp = Some w \<Longrightarrow> down_of inp = None"
  using down_of_Some_iff [of inp] by auto

section \<open>Properties\<close>

text \<open>
  A target is reported as LOCAL_NETWORK_DOWN exactly when none of its connections was
  accepted and the local check found the machine offline.
\<close>

lemma Decide_local_down:
  "d_Verdict (Decide inp) = LocalNetworkDown \<longleftrightarrow>
     working inp = None \<and> (\<exists>l. in_Local inp = Some l \<and> fst (Down l))"
proof -
  have "d_Verdict (combine inp (dnsDecision inp) (path_of inp)) \<noteq> LocalNetworkDown"
    using dnsDecision_Some [of inp] path_not_dns [of inp]
    by (auto simp: combine_def split: option.splits)
  then have "d_Verdict (Decide inp) = LocalNetworkDown \<longleftrightarrow> down_of inp \<noteq> None"
    by (cases "down_of inp") (simp_all add: Decide_down Decide_combine)
  then show ?thesis by (simp only: down_of_Some_iff)
qed

lemma down_of_None_iff: "down_of inp = None \<longleftrightarrow> d_Verdict (Decide inp) \<noteq> LocalNetworkDown"
  unfolding Decide_local_down using down_of_Some_iff [of inp] by (cases "down_of inp") auto

text \<open>
  Claim C9. SNI_FILTERED is reported exactly when a connection was accepted and the handshakes on
  it show that the server name is what kills them; always with high confidence, and the DNS layer
  cannot hide it.
\<close>

theorem Decide_SNI_filtered:
  "(d_Verdict (Decide inp) = SNIFiltered \<longleftrightarrow>
      working inp \<noteq> None \<and> (\<exists>t. in_TLS inp = Some t \<and> SNI_filtered t))
   \<and> \<not> (d_Verdict (Decide inp) = SNIFiltered \<and> d_Confidence (Decide inp) \<noteq> High)"
proof
  have path: "(\<exists>p. path_of inp = Some p \<and> d_Verdict p = SNIFiltered) \<longleftrightarrow>
      working inp \<noteq> None \<and> (\<exists>t. in_TLS inp = Some t \<and> SNI_filtered t)"
    by (simp add: path_definite tlsDecision_SNI)
  then show iff: "d_Verdict (Decide inp) = SNIFiltered \<longleftrightarrow>
      working inp \<noteq> None \<and> (\<exists>t. in_TLS inp = Some t \<and> SNI_filtered t)"
    using working_down by (auto simp: Decide_path_definite)
  show "\<not> (d_Verdict (Decide inp) = SNIFiltered \<and> d_Confidence (Decide inp) \<noteq> High)"
  proof
    assume A: "d_Verdict (Decide inp) = SNIFiltered \<and> d_Confidence (Decide inp) \<noteq> High"
    then obtain w t where w: "working inp = Some w" and t: "in_TLS inp = Some t" "SNI_filtered t"
      using iff by auto
    then have "path_of inp = Some (decide SNIFiltered High
        (if hs_Outcome (tls_Real t) = TlsTimeout then ''tls.sni_timeout'' else ''tls.sni_reset'') [])"
      using working_nonempty [OF w] by (simp add: path_of_eq tlsDecision_def Let_def)
    then show False
      using A Decide_combine [OF working_down [OF w]]
      by (auto simp: combine_def split: option.splits)
  qed
qed

lemma Decide_TLS_part:
  assumes "v \<notin> {OK, Inconclusive, UpstreamOutage, DNSPoisoned, DNSIntercepted, LocalNetworkDown,
      ConnectionReset, IPBlocked}"
  shows "d_Verdict (Decide inp) = v \<longleftrightarrow>
    (\<exists>w t. working inp = Some w \<and> in_TLS inp = Some t
       \<and> d_Verdict (tlsDecision inp (addr_String (fst (tcp_Addr w))) t) = v)"
proof -
  have "d_Verdict (Decide inp) = v \<longleftrightarrow> down_of inp = None \<and> (\<exists>p. path_of inp = Some p \<and> d_Verdict p = v)"
    using assms by (intro Decide_path_definite) simp
  moreover have "(\<exists>p. path_of inp = Some p \<and> d_Verdict p = v) \<longleftrightarrow>
      (\<exists>w t. working inp = Some w \<and> in_TLS inp = Some t
         \<and> d_Verdict (tlsDecision inp (addr_String (fst (tcp_Addr w))) t) = v)"
    using assms by (intro path_definite) simp
  ultimately show ?thesis using working_down [of inp] by auto
qed

text \<open>
  BLOCK_PAGE is reported exactly when a handshake on an accepted connection completed
  and what was fetched is a known block page. TLS_INTERCEPTED is reported exactly when such a
  handshake presented a bad certificate, or one from a known interception issuer, and what was
  fetched is not a block page.
\<close>

lemma Decide_middlebox:
  "(d_Verdict (Decide inp) = BlockPage \<longleftrightarrow>
      working inp \<noteq> None \<and> (\<exists>t. in_TLS inp = Some t \<and> handshake_done t) \<and> block_page inp)
   \<and> (d_Verdict (Decide inp) = TLSIntercepted \<longleftrightarrow>
      working inp \<noteq> None \<and> \<not> block_page inp
      \<and> (\<exists>t. in_TLS inp = Some t
           \<and> (hs_Outcome (tls_Real t) = TlsCertInvalid
              \<or> (hs_Outcome (tls_Real t) = TlsOK \<and> issuer_match inp (tls_Real t) \<noteq> []))))"
proof -
  have h: "d_Verdict (httpDecision inp h) \<notin> {BlockPage, TLSIntercepted}" for h
    using httpDecision_range [of inp h] by auto
  have bp: "d_Verdict (tlsDecision inp ip t) = BlockPage \<longleftrightarrow> handshake_done t \<and> block_page inp" for ip t
    using h by (auto simp: tlsDecision_verdict serviceDecision_verdict split: option.splits)
  have ti: "d_Verdict (tlsDecision inp ip t) = TLSIntercepted \<longleftrightarrow>
      handshake_done t \<and> \<not> block_page inp
      \<and> (hs_Outcome (tls_Real t) = TlsCertInvalid \<or> issuer_match inp (tls_Real t) \<noteq> [])" for ip t
    using h by (auto simp: tlsDecision_verdict serviceDecision_verdict split: option.splits)
  show ?thesis
    by (auto simp: Decide_TLS_part bp ti handshake_done_def)
qed

text \<open>What makes the end of the path healthy: nothing was fetched, or it was and is normal.\<close>

definition service_ok :: "input \<Rightarrow> bool" where
  "service_ok inp \<longleftrightarrow>
     (case in_HTTP inp of None \<Rightarrow> True | Some h \<Rightarrow> hr_Class h = HttpOK \<and> \<not> throttled inp)"

lemma tlsDecision_OK:
  "d_Verdict (tlsDecision inp ip t) = OK \<longleftrightarrow>
     hs_Outcome (tls_Real t) = TlsOK \<and> issuer_match inp (tls_Real t) = [] \<and> service_ok inp"
proof -
  have "d_Verdict (httpDecision inp h) = OK \<and> hr_Class h \<noteq> HttpBlockPage \<longleftrightarrow> hr_Class h = HttpOK \<and> \<not> throttled inp" for h
    by (simp add: httpDecision_verdict split: http_class.splits)
  then have "d_Verdict (serviceDecision inp hs) = OK \<longleftrightarrow>
      hs_Outcome hs \<noteq> TlsCertInvalid \<and> issuer_match inp hs = [] \<and> service_ok inp" for hs
    by (auto simp: serviceDecision_verdict service_ok_def block_page_def split: option.splits)
  then show ?thesis
    by (auto simp: tlsDecision_verdict handshake_done_def)
qed

text \<open>
  OK is reported exactly when DNS shows no problem, a connection was accepted and, if its
  handshake was made, that handshake verified the host, its issuer is no known middlebox, and what
  was fetched, if anything, is a normal answer at normal speed.
\<close>

lemma Decide_OK_iff:
  "d_Verdict (Decide inp) = OK \<longleftrightarrow>
     \<not> dns_problem inp \<and> working inp \<noteq> None
     \<and> (case in_TLS inp of
          None \<Rightarrow> True
        | Some t \<Rightarrow> hs_Outcome (tls_Real t) = TlsOK \<and> issuer_match inp (tls_Real t) = [] \<and> service_ok inp)"
proof (cases "working inp")
  case None
  have path: "\<not> (path_of inp = Some p \<and> d_Verdict p = OK)" for p
    using None tcpDecision_range [of inp "Summarize (in_TCP inp)"] by (auto simp: path_of_Some)
  have "d_Verdict (Decide inp) \<noteq> OK"
  proof (rule Decide_cases)
    show "d_Verdict (combine inp (dnsDecision inp) (path_of inp)) \<noteq> OK"
      using path dnsDecision_Some [of inp] by (auto simp: combine_def split: option.splits)
  qed simp
  with None show ?thesis by simp
next
  case (Some w)
  then obtain p where p: "path_of inp = Some p"
    using path_of_None [of inp] working_nonempty [OF Some] by (cases "path_of inp") auto
  have "d_Verdict (Decide inp) = OK \<longleftrightarrow> \<not> dns_problem inp \<and> d_Verdict p = OK"
    using dnsDecision_Some [of inp] dnsDecision_None_iff [of inp]
    by (auto simp: Decide_combine [OF working_down [OF Some]] combine_def p split: option.splits)
  moreover have "d_Verdict p = OK \<longleftrightarrow> (case in_TLS inp of None \<Rightarrow> True
      | Some t \<Rightarrow> hs_Outcome (tls_Real t) = TlsOK \<and> issuer_match inp (tls_Real t) = [] \<and> service_ok inp)"
    using p Some by (auto simp: path_of_Some tlsDecision_OK split: option.splits)
  ultimately show ?thesis using Some by simp
qed

definition is_dns_verdict :: "verdict \<Rightarrow> bool" where
  "is_dns_verdict v \<longleftrightarrow> v = DNSPoisoned \<or> v = DNSIntercepted"

lemma Decide_DNS_facts:
  "(is_dns_verdict (d_Verdict (Decide inp)) \<or> d_Also (Decide inp) \<noteq> [] \<longleftrightarrow>
      down_of inp = None \<and> (dns_problem inp \<or> (an_Dropped (in_DNS inp) \<and> in_TCP inp = [])))
   \<and> (d_Also (Decide inp) \<noteq> [] \<longleftrightarrow>
      down_of inp = None \<and> dns_problem inp
      \<and> (\<exists>p. path_of inp = Some p \<and> d_Verdict p \<notin> {OK, Inconclusive}))
   \<and> d_Also (Decide inp) \<in> {[], [DNSPoisoned], [DNSIntercepted]}
   \<and> \<not> (d_Also (Decide inp) \<noteq> [] \<and> is_dns_verdict (d_Verdict (Decide inp)))"
proof (cases "down_of inp")
  case (Some why)
  then show ?thesis by (simp add: Decide_down is_dns_verdict_def)
next
  case down: None
  show ?thesis
  proof (cases "dnsDecision inp")
    case None
    then have np: "\<not> dns_problem inp" by (simp add: dnsDecision_None_iff)
    show ?thesis
      using None np path_not_dns [of inp] path_Also [of inp] path_of_None [of inp] down
      by (cases "path_of inp") (auto simp: Decide_combine [OF down] combine_def is_dns_verdict_def down)
  next
    case (Some d)
    then have pr: "dns_problem inp" using dnsDecision_None_iff [of inp] by auto
    show ?thesis
      using Some pr path_not_dns [of inp] path_Also [of inp] dnsDecision_Some [OF Some]
      by (cases "path_of inp") (auto simp: Decide_combine [OF down] combine_def is_dns_verdict_def down)
  qed
qed

text \<open>
  Claim C8. A DNS problem is never lost and never invented: unless the machine is offline, a DNS
  verdict is the primary or a secondary finding exactly when the DNS layer shows a problem, or
  queries for the name are dropped and there was no address to connect to. It is secondary exactly
  when the connection to the verified addresses has a definite problem of its own.
\<close>

theorem Decide_DNS:
  "(is_dns_verdict (d_Verdict (Decide inp)) \<or> d_Also (Decide inp) \<noteq> [] \<longleftrightarrow>
      down_of inp = None \<and> (dns_problem inp \<or> (an_Dropped (in_DNS inp) \<and> in_TCP inp = [])))
   \<and> (d_Also (Decide inp) \<noteq> [] \<longleftrightarrow>
      down_of inp = None \<and> dns_problem inp
      \<and> (\<exists>p. path_of inp = Some p \<and> d_Verdict p \<notin> {OK, Inconclusive}))
   \<and> d_Also (Decide inp) \<in> {[], [DNSPoisoned], [DNSIntercepted]}
   \<and> \<not> (d_Also (Decide inp) \<noteq> [] \<and> is_dns_verdict (d_Verdict (Decide inp)))"
  by (rule Decide_DNS_facts)

text \<open>A poisoned answer while the one verified address does not accept connections either.\<close>

definition poisoned_input :: input where
  "poisoned_input =
     \<lparr>in_Local = None, in_Intercept = None,
      in_DNS = empty_analysis\<lparr>an_Reference := [V4 16909060], an_ReferenceKind := KindDoH,
        an_BlockIPs := [V4 (v4_of 10 10 34 34)]\<rparr>,
      in_TCP = [\<lparr>tcp_Addr = (V4 16909060, 443), tcp_Outcome = TcpTimeout, tcp_Err = None, tcp_Duration = 5\<rparr>],
      in_TLS = None, in_Verify = None, in_HTTP = None, in_Outage = None, in_Speed = None, in_Signatures = None\<rparr>"

theorem Decide_DNS_witness:
  "d_Also (Decide poisoned_input) \<noteq> [] \<and> \<not> is_dns_verdict (d_Verdict (Decide poisoned_input))"
proof -
  have "down_of poisoned_input = None" and "dns_problem poisoned_input"
    by code_simp+
  moreover have "working poisoned_input = None" and "in_TCP poisoned_input \<noteq> []"
    and verdict: "d_Verdict (tcpDecision poisoned_input (Summarize (in_TCP poisoned_input))) = IPBlocked"
    by code_simp+
  then have "\<exists>p. path_of poisoned_input = Some p \<and> d_Verdict p \<notin> {OK, Inconclusive}"
    by (simp add: path_of_eq)
  ultimately show ?thesis
    using Decide_DNS [of poisoned_input] by auto
qed

section \<open>The table of reasons\<close>

text \<open>
  Every reason the engine can give: its key, its verdict, the confidences it comes with and the
  names of its arguments. The keys ending in \<open>_plain\<close> are those of a reference that is not DoH.
\<close>

definition reason_table :: "(string \<times> verdict \<times> confidence list \<times> string list) list" where
  "reason_table =
     [(''local.no_interface'', LocalNetworkDown, [High], []),
      (''local.no_route'', LocalNetworkDown, [High], []),
      (''local.unreachable'', LocalNetworkDown, [Medium], []),
      (''dns.intercepted'', DNSIntercepted, [High], [''ip'']),
      (''dns.dropped'', DNSIntercepted, [Medium], []),
      (''dns.block_ip'', DNSPoisoned, [High], [''ip'']),
      (''dns.bogon'', DNSPoisoned, [High], [''ip'']),
      (''dns.bogon_plain'', DNSPoisoned, [High], [''ip'']),
      (''dns.mismatch'', DNSPoisoned, [Medium], [''ip'']),
      (''dns.nxdomain'', DNSPoisoned, [Medium], []),
      (''dns.nxdomain_plain'', DNSPoisoned, [Medium], []),
      (''dns.failed'', DNSPoisoned, [Low], [''error'']),
      (''dns.failed_plain'', DNSPoisoned, [Low], [''error'']),
      (''dns.unresolvable'', Inconclusive, [Low], []),
      (''dns.unresolvable_nodoh'', Inconclusive, [Low], []),
      (''tcp.reset'', ConnectionReset, [Medium], [''ip'']),
      (''tcp.timeout'', IPBlocked, [Medium, High], [''ip'']),
      (''tcp.unreachable'', IPBlocked, [Medium], [''ip'']),
      (''tls.sni_reset'', SNIFiltered, [High], []),
      (''tls.sni_timeout'', SNIFiltered, [High], []),
      (''tls.timeout'', IPBlocked, [Medium], [''ip'']),
      (''tls.reset'', ConnectionReset, [Medium], [''ip'']),
      (''tls.alert'', Inconclusive, [Low], [''error'']),
      (''tls.untrusted'', TLSIntercepted, [Medium, High], [''issuer'']),
      (''tls.hostname'', TLSIntercepted, [Medium], [''issuer'']),
      (''tls.expired'', TLSIntercepted, [Low], []),
      (''tls.middlebox'', TLSIntercepted, [Medium], [''issuer'']),
      (''http.block_page'', BlockPage, [High], [''signature'']),
      (''http.geo_block'', ProviderGeoBlock, [High], [''status'', ''signature'']),
      (''http.451'', ProviderGeoBlock, [Medium], []),
      (''http.5xx'', UpstreamOutage, [Medium], [''status'']),
      (''http.reset'', ConnectionReset, [Medium], []),
      (''http.timeout'', Inconclusive, [Low], []),
      (''http.error'', Inconclusive, [Low], [''error'']),
      (''outage.confirmed'', UpstreamOutage, [Medium, High], [''description'']),
      (''speed.handshake'', Throttled, [Medium], [''target'', ''baseline'']),
      (''speed.throughput'', Throttled, [Medium], [''target'', ''baseline'']),
      (''ok.tls'', OK, [Low, Medium], []),
      (''ok.http'', OK, [High], [''status'']),
      (''inconclusive'', Inconclusive, [Low], [])]"

definition tabled :: "decision \<Rightarrow> bool" where
  "tabled d \<longleftrightarrow>
     (case map_of reason_table (reason_Key (d_Reason d)) of
        None \<Rightarrow> False
      | Some (v, cs, names) \<Rightarrow>
          d_Verdict d = v \<and> d_Confidence d \<in> set cs \<and> dom (reason_Args (d_Reason d)) = set names)"

lemma tabled_decide:
  "tabled (decide v c key args) \<longleftrightarrow>
     (case map_of reason_table key of
        None \<Rightarrow> False
      | Some (v', cs, names) \<Rightarrow> v = v' \<and> c \<in> set cs \<and> dom (fill_args args Map.empty) = set names)"
  by (simp add: tabled_def split: option.splits)

lemma tabled_Also [simp]: "tabled (p\<lparr>d_Also := x\<rparr>) = tabled p"
  by (simp add: tabled_def split: option.splits)

named_theorems tabled_intros

text \<open>The rows of the table, by key.\<close>

lemma reason_rows_1:
  "map_of reason_table ''local.no_interface'' = Some (LocalNetworkDown, [High], [])"
  "map_of reason_table ''local.no_route'' = Some (LocalNetworkDown, [High], [])"
  "map_of reason_table ''local.unreachable'' = Some (LocalNetworkDown, [Medium], [])"
  "map_of reason_table ''dns.intercepted'' = Some (DNSIntercepted, [High], [''ip''])"
  "map_of reason_table ''dns.dropped'' = Some (DNSIntercepted, [Medium], [])"
  "map_of reason_table ''dns.block_ip'' = Some (DNSPoisoned, [High], [''ip''])"
  "map_of reason_table ''dns.bogon'' = Some (DNSPoisoned, [High], [''ip''])"
  "map_of reason_table ''dns.bogon_plain'' = Some (DNSPoisoned, [High], [''ip''])"
  "map_of reason_table ''dns.mismatch'' = Some (DNSPoisoned, [Medium], [''ip''])"
  "map_of reason_table ''dns.nxdomain'' = Some (DNSPoisoned, [Medium], [])"
  by code_simp+

lemma reason_rows_2:
  "map_of reason_table ''dns.nxdomain_plain'' = Some (DNSPoisoned, [Medium], [])"
  "map_of reason_table ''dns.failed'' = Some (DNSPoisoned, [Low], [''error''])"
  "map_of reason_table ''dns.failed_plain'' = Some (DNSPoisoned, [Low], [''error''])"
  "map_of reason_table ''dns.unresolvable'' = Some (Inconclusive, [Low], [])"
  "map_of reason_table ''dns.unresolvable_nodoh'' = Some (Inconclusive, [Low], [])"
  "map_of reason_table ''tcp.reset'' = Some (ConnectionReset, [Medium], [''ip''])"
  "map_of reason_table ''tcp.timeout'' = Some (IPBlocked, [Medium, High], [''ip''])"
  "map_of reason_table ''tcp.unreachable'' = Some (IPBlocked, [Medium], [''ip''])"
  "map_of reason_table ''tls.sni_reset'' = Some (SNIFiltered, [High], [])"
  "map_of reason_table ''tls.sni_timeout'' = Some (SNIFiltered, [High], [])"
  by code_simp+

lemma reason_rows_3:
  "map_of reason_table ''tls.timeout'' = Some (IPBlocked, [Medium], [''ip''])"
  "map_of reason_table ''tls.reset'' = Some (ConnectionReset, [Medium], [''ip''])"
  "map_of reason_table ''tls.alert'' = Some (Inconclusive, [Low], [''error''])"
  "map_of reason_table ''tls.untrusted'' = Some (TLSIntercepted, [Medium, High], [''issuer''])"
  "map_of reason_table ''tls.hostname'' = Some (TLSIntercepted, [Medium], [''issuer''])"
  "map_of reason_table ''tls.expired'' = Some (TLSIntercepted, [Low], [])"
  "map_of reason_table ''tls.middlebox'' = Some (TLSIntercepted, [Medium], [''issuer''])"
  "map_of reason_table ''http.block_page'' = Some (BlockPage, [High], [''signature''])"
  "map_of reason_table ''http.geo_block'' = Some (ProviderGeoBlock, [High], [''status'', ''signature''])"
  "map_of reason_table ''http.451'' = Some (ProviderGeoBlock, [Medium], [])"
  by code_simp+

lemma reason_rows_4:
  "map_of reason_table ''http.5xx'' = Some (UpstreamOutage, [Medium], [''status''])"
  "map_of reason_table ''http.reset'' = Some (ConnectionReset, [Medium], [])"
  "map_of reason_table ''http.timeout'' = Some (Inconclusive, [Low], [])"
  "map_of reason_table ''http.error'' = Some (Inconclusive, [Low], [''error''])"
  "map_of reason_table ''outage.confirmed'' = Some (UpstreamOutage, [Medium, High], [''description''])"
  "map_of reason_table ''speed.handshake'' = Some (Throttled, [Medium], [''target'', ''baseline''])"
  "map_of reason_table ''speed.throughput'' = Some (Throttled, [Medium], [''target'', ''baseline''])"
  "map_of reason_table ''ok.tls'' = Some (OK, [Low, Medium], [])"
  "map_of reason_table ''ok.http'' = Some (OK, [High], [''status''])"
  "map_of reason_table ''inconclusive'' = Some (Inconclusive, [Low], [])"
  by code_simp+

lemmas reason_rows = reason_rows_1 reason_rows_2 reason_rows_3 reason_rows_4

lemma tabled_each [tabled_intros]:
  "tabled (decide DNSIntercepted High ''dns.intercepted'' [''ip'', x])"
  "tabled (decide DNSIntercepted Medium ''dns.dropped'' [])"
  "tabled (decide DNSPoisoned High ''dns.block_ip'' [''ip'', x])"
  "tabled (decide DNSPoisoned High ''dns.bogon'' [''ip'', x])"
  "tabled (decide DNSPoisoned High ''dns.bogon_plain'' [''ip'', x])"
  "tabled (decide DNSPoisoned Medium ''dns.mismatch'' [''ip'', x])"
  "tabled (decide DNSPoisoned Medium ''dns.nxdomain'' [])"
  "tabled (decide DNSPoisoned Medium ''dns.nxdomain_plain'' [])"
  "tabled (decide DNSPoisoned Low ''dns.failed'' [''error'', x])"
  "tabled (decide DNSPoisoned Low ''dns.failed_plain'' [''error'', x])"
  "tabled (decide Inconclusive Low ''dns.unresolvable'' [])"
  "tabled (decide Inconclusive Low ''dns.unresolvable_nodoh'' [])"
  "tabled (decide ConnectionReset Medium ''tcp.reset'' [''ip'', x])"
  "tabled (decide IPBlocked Medium ''tcp.timeout'' [''ip'', x])"
  "tabled (decide IPBlocked High ''tcp.timeout'' [''ip'', x])"
  "tabled (decide IPBlocked Medium ''tcp.unreachable'' [''ip'', x])"
  "tabled (decide SNIFiltered High ''tls.sni_reset'' [])"
  "tabled (decide SNIFiltered High ''tls.sni_timeout'' [])"
  "tabled (decide IPBlocked Medium ''tls.timeout'' [''ip'', x])"
  "tabled (decide ConnectionReset Medium ''tls.reset'' [''ip'', x])"
  "tabled (decide Inconclusive Low ''tls.alert'' [''error'', x])"
  "tabled (decide TLSIntercepted High ''tls.untrusted'' [''issuer'', x])"
  "tabled (decide TLSIntercepted Medium ''tls.untrusted'' [''issuer'', x])"
  "tabled (decide TLSIntercepted Medium ''tls.hostname'' [''issuer'', x])"
  "tabled (decide TLSIntercepted Low ''tls.expired'' [])"
  "tabled (decide TLSIntercepted Medium ''tls.middlebox'' [''issuer'', x])"
  "tabled (decide BlockPage High ''http.block_page'' [''signature'', x])"
  "tabled (decide ProviderGeoBlock High ''http.geo_block'' [''status'', x, ''signature'', y])"
  "tabled (decide ProviderGeoBlock Medium ''http.451'' [])"
  "tabled (decide UpstreamOutage Medium ''http.5xx'' [''status'', x])"
  "tabled (decide ConnectionReset Medium ''http.reset'' [])"
  "tabled (decide Inconclusive Low ''http.timeout'' [])"
  "tabled (decide Inconclusive Low ''http.error'' [''error'', x])"
  "tabled (decide UpstreamOutage Medium ''outage.confirmed'' [''description'', x])"
  "tabled (decide UpstreamOutage High ''outage.confirmed'' [''description'', x])"
  "tabled (decide Throttled Medium ''speed.handshake'' [''target'', x, ''baseline'', y])"
  "tabled (decide Throttled Medium ''speed.throughput'' [''target'', x, ''baseline'', y])"
  "tabled (decide OK Low ''ok.tls'' [])"
  "tabled (decide OK Medium ''ok.tls'' [])"
  "tabled (decide OK High ''ok.http'' [''status'', x])"
  "tabled (decide Inconclusive Low ''inconclusive'' [])"
  "tabled (decide LocalNetworkDown High ''local.no_interface'' [])"
  "tabled (decide LocalNetworkDown High ''local.no_route'' [])"
  "tabled (decide LocalNetworkDown Medium ''local.unreachable'' [])"
  by (simp_all add: tabled_decide reason_rows insert_commute)

lemma tabled_outage [tabled_intros]: "tabled (outageDecision o1)"
  by (simp add: outageDecision_def tabled_intros)

lemma tabled_cert [tabled_intros]: "tabled (certDecision h)"
  by (simp add: certDecision_def tabled_intros Let_def)

lemma tabled_speed [tabled_intros]: "tabled (speedDecision inp st)"
  by (simp add: speedDecision_def tabled_intros Let_def split: option.splits)

lemma tabled_http [tabled_intros]: "tabled (httpDecision inp h)"
  by (simp add: httpDecision_def tabled_intros Let_def split: http_class.splits)

lemma tabled_service [tabled_intros]: "tabled (serviceDecision inp h)"
  by (simp add: serviceDecision_def tabled_intros split: option.splits)

lemma tabled_tls [tabled_intros]: "tabled (tlsDecision inp ip t)"
  by (simp add: tlsDecision_def tabled_intros Let_def)

lemma tabled_tcp [tabled_intros]: "tabled (tcpDecision inp smry)"
  by (simp add: tcpDecision_def tabled_intros Let_def)

lemma tabled_path: "path_of inp = Some p \<Longrightarrow> tabled p"
  by (auto simp: path_of_Some tabled_intros)

lemma tabled_dns: "dnsDecision inp = Some d \<Longrightarrow> tabled d"
  by (auto simp: dnsDecision_def Let_def tabled_intros split: if_splits)

lemma tabled_local: "down_of inp = Some why \<Longrightarrow> tabled (Decide inp)"
proof -
  assume A: "down_of inp = Some why"
  then have "why \<in> {DownNoInterface, DownNoRoute, DownUnreachable}"
    by (auto simp: local_down_def Down_eq split: option.splits prod.splits if_splits)
  then show ?thesis
    by (auto simp: Decide_down [OF A] DownNoInterface_def DownNoRoute_def DownUnreachable_def tabled_intros)
qed

lemma Decide_tabled_row: "tabled (Decide inp)"
proof (cases "down_of inp")
  case (Some why)
  then show ?thesis by (rule tabled_local)
next
  case None
  show ?thesis
    unfolding Decide_combine [OF None] combine_def
    using tabled_path [of inp] tabled_dns [of inp]
    by (auto simp: tabled_intros split: option.splits)
qed

text \<open>
  Claim C30. Every decision is a row of the table: its reason key fixes the verdict, the possible
  confidences and exactly which arguments come with it.
\<close>

theorem Decide_tabled: "tabled (Decide inp)"
  by (rule Decide_tabled_row)

text \<open>The confidences a verdict can have.\<close>

definition confidences :: "verdict \<Rightarrow> confidence set" where
  "confidences v =
     (if v \<in> {OK, DNSPoisoned, TLSIntercepted} then {Low, Medium, High}
      else if v \<in> {LocalNetworkDown, DNSIntercepted, IPBlocked, ProviderGeoBlock, UpstreamOutage} then {Medium, High}
      else if v \<in> {ConnectionReset, Throttled} then {Medium}
      else if v \<in> {SNIFiltered, BlockPage} then {High}
      else {Low})"

definition confident :: "decision \<Rightarrow> bool" where
  "confident d \<longleftrightarrow> d_Confidence d \<in> confidences (d_Verdict d)"

lemma confident_decide [simp]: "confident (decide v c key args) \<longleftrightarrow> c \<in> confidences v"
  by (simp add: confident_def)

lemma confident_Also [simp]: "confident (p\<lparr>d_Also := x\<rparr>) = confident p"
  by (simp add: confident_def)

lemma confident_parts [simp]:
  "confident (outageDecision o1)" "confident (certDecision h)" "confident (speedDecision inp st)"
  "confident (tcpDecision inp smry)"
  by (simp_all add: outageDecision_def certDecision_def speedDecision_def tcpDecision_def
      confidences_def Let_def split: option.splits)

lemma confident_http [simp]: "confident (httpDecision inp h)"
  by (simp add: httpDecision_def confidences_def Let_def split: http_class.splits)

lemma confident_service [simp]: "confident (serviceDecision inp h)"
  by (simp add: serviceDecision_def confidences_def split: option.splits)

lemma confident_tls [simp]: "confident (tlsDecision inp ip t)"
  by (simp add: tlsDecision_def confidences_def Let_def)

lemma confident_path: "path_of inp = Some p \<Longrightarrow> confident p"
  by (auto simp: path_of_Some confidences_def)

lemma confident_dns: "dnsDecision inp = Some d \<Longrightarrow> confident d"
  by (auto simp: dnsDecision_def Let_def confidences_def split: if_splits)

text \<open>
  The confidence never promises more than the verdict: an inconclusive result is always of
  low confidence and nothing definite about resets or throttling is ever of high confidence, while
  a filtered server name and a block page always are.
\<close>

lemma Decide_confidence: "d_Confidence (Decide inp) \<in> confidences (d_Verdict (Decide inp))"
proof (cases "down_of inp")
  case (Some why)
  then show ?thesis by (simp add: Decide_down confidences_def)
next
  case None
  have "confident (Decide inp)"
    unfolding Decide_combine [OF None] combine_def
    using confident_path [of inp] confident_dns [of inp]
    by (auto simp: confidences_def split: option.splits)
  then show ?thesis by (simp only: confident_def)
qed

end
