(* ===== verification/Probe.thy ===== *)
theory Probe
  imports Verdict
begin

text \<open>
  Package probe, file probe.go: the configuration and its defaults, the layers of one target
  (\<open>checkTarget\<close>, in the order of the code) and the run-wide results they share. The network is a
  record of observations, indexed by the addresses and URLs the code passes to it, so that what a
  layer connects to is part of the model. The two \<^verbatim>\<open>sync.Once\<close> results are options of the shared
  state, filled by the first target that needs them.

  The goroutine that verifies a suspect address writes a field no other layer reads before the
  decision; it is evaluated at the place where it is started.
\<close>

section \<open>Configuration\<close>

datatype dialer = DirectDialer int | GivenDialer string
datatype http_client = PinnedClient dialer string | GivenClient string

record config =
  cfg_Timeout :: int
  cfg_Concurrency :: int
  cfg_Dialer :: "dialer option"
  cfg_ProxyInUse :: bool
  cfg_Signatures :: "sig_set option"
  cfg_Version :: string
  cfg_Speed :: bool
  cfg_Resolvers :: resolvers
  cfg_InterceptionProbe :: string
  cfg_Port :: int
  cfg_NeutralSNI :: string
  cfg_MaxAddrs :: int
  cfg_Local :: "string list option"
  cfg_HTTPClient :: "http_client option"
  cfg_SpeedBaselineURL :: string
  cfg_ControlName :: string

definition DefaultControlName :: string where "DefaultControlName = ''example.com''"

definition DefaultBaselineURL :: string where
  "DefaultBaselineURL = ''https://speed.cloudflare.com/__down?bytes=262144''"

text \<open>The conditional assignments of \<^verbatim>\<open>fillDefaults\<close>, one by one.\<close>

definition fill_Timeout :: "config \<Rightarrow> config" where
  "fill_Timeout cfg = (if cfg_Timeout cfg \<le> 0 then cfg\<lparr>cfg_Timeout := 5 * Second\<rparr> else cfg)"

definition fill_Concurrency :: "config \<Rightarrow> config" where
  "fill_Concurrency cfg = (if cfg_Concurrency cfg \<le> 0 then cfg\<lparr>cfg_Concurrency := 8\<rparr> else cfg)"

definition fill_Dialer :: "config \<Rightarrow> config" where
  "fill_Dialer cfg = (if cfg_Dialer cfg = None then cfg\<lparr>cfg_Dialer := Some (DirectDialer (cfg_Timeout cfg))\<rparr> else cfg)"

definition fill_Signatures :: "sig_set \<Rightarrow> config \<Rightarrow> config" where
  "fill_Signatures builtin cfg = (if cfg_Signatures cfg = None then cfg\<lparr>cfg_Signatures := Some builtin\<rparr> else cfg)"

definition fill_Port :: "config \<Rightarrow> config" where
  "fill_Port cfg = (if cfg_Port cfg = 0 then cfg\<lparr>cfg_Port := 443\<rparr> else cfg)"

definition fill_NeutralSNI :: "config \<Rightarrow> config" where
  "fill_NeutralSNI cfg = (if cfg_NeutralSNI cfg = [] then cfg\<lparr>cfg_NeutralSNI := DefaultNeutralSNI\<rparr> else cfg)"

definition fill_MaxAddrs :: "config \<Rightarrow> config" where
  "fill_MaxAddrs cfg = (if cfg_MaxAddrs cfg \<le> 0 then cfg\<lparr>cfg_MaxAddrs := 2\<rparr> else cfg)"

definition fill_HTTPClient :: "config \<Rightarrow> config" where
  "fill_HTTPClient cfg = (if cfg_HTTPClient cfg = None then cfg\<lparr>cfg_HTTPClient := Some (PinnedClient (the (cfg_Dialer cfg)) [])\<rparr> else cfg)"

definition fill_SpeedBaselineURL :: "config \<Rightarrow> config" where
  "fill_SpeedBaselineURL cfg = (if cfg_SpeedBaselineURL cfg = [] then cfg\<lparr>cfg_SpeedBaselineURL := DefaultBaselineURL\<rparr> else cfg)"

definition fill_ControlName :: "config \<Rightarrow> config" where
  "fill_ControlName cfg = (if cfg_ControlName cfg = [] then cfg\<lparr>cfg_ControlName := DefaultControlName\<rparr> else cfg)"

definition fillDefaults :: "sig_set \<Rightarrow> config \<Rightarrow> config" where
  "fillDefaults builtin cfg =
     fill_ControlName (fill_SpeedBaselineURL (fill_HTTPClient (fill_MaxAddrs (fill_NeutralSNI
       (fill_Port (fill_Signatures builtin (fill_Dialer (fill_Concurrency (fill_Timeout cfg)))))))))"

lemma fill_eqs:
  "fill_Timeout cfg = cfg\<lparr>cfg_Timeout := (if cfg_Timeout cfg \<le> 0 then 5 * Second else cfg_Timeout cfg)\<rparr>"
  "fill_Concurrency cfg = cfg\<lparr>cfg_Concurrency := (if cfg_Concurrency cfg \<le> 0 then 8 else cfg_Concurrency cfg)\<rparr>"
  "fill_Dialer cfg = cfg\<lparr>cfg_Dialer := (if cfg_Dialer cfg = None then Some (DirectDialer (cfg_Timeout cfg)) else cfg_Dialer cfg)\<rparr>"
  "fill_Signatures builtin cfg = cfg\<lparr>cfg_Signatures := (if cfg_Signatures cfg = None then Some builtin else cfg_Signatures cfg)\<rparr>"
  "fill_Port cfg = cfg\<lparr>cfg_Port := (if cfg_Port cfg = 0 then 443 else cfg_Port cfg)\<rparr>"
  "fill_NeutralSNI cfg = cfg\<lparr>cfg_NeutralSNI := (if cfg_NeutralSNI cfg = [] then DefaultNeutralSNI else cfg_NeutralSNI cfg)\<rparr>"
  "fill_MaxAddrs cfg = cfg\<lparr>cfg_MaxAddrs := (if cfg_MaxAddrs cfg \<le> 0 then 2 else cfg_MaxAddrs cfg)\<rparr>"
  "fill_HTTPClient cfg = cfg\<lparr>cfg_HTTPClient := (if cfg_HTTPClient cfg = None then Some (PinnedClient (the (cfg_Dialer cfg)) []) else cfg_HTTPClient cfg)\<rparr>"
  "fill_SpeedBaselineURL cfg = cfg\<lparr>cfg_SpeedBaselineURL := (if cfg_SpeedBaselineURL cfg = [] then DefaultBaselineURL else cfg_SpeedBaselineURL cfg)\<rparr>"
  "fill_ControlName cfg = cfg\<lparr>cfg_ControlName := (if cfg_ControlName cfg = [] then DefaultControlName else cfg_ControlName cfg)\<rparr>"
  by (simp_all add: fill_Timeout_def fill_Concurrency_def fill_Dialer_def fill_Signatures_def fill_Port_def fill_NeutralSNI_def fill_MaxAddrs_def fill_HTTPClient_def fill_SpeedBaselineURL_def fill_ControlName_def)

text \<open>The address a pinned transport dials.\<close>

definition pinned_addr :: "string \<Rightarrow> string \<Rightarrow> string" where
  "pinned_addr addr a = (if addr \<noteq> [] then addr else a)"

section \<open>Shared results\<close>

record shared =
  sh_intercept :: "interception option"
  sh_local :: "local_result option"
  sh_baseline :: "measurement option"
  sh_control :: "dns_result option"

fun any_answer_OK :: "dns_answer list \<Rightarrow> bool" where
  "any_answer_OK [] = False"
| "any_answer_OK (a # as) = (if answer_OK a then True else any_answer_OK as)"

definition controlResolves :: "config \<Rightarrow> shared \<Rightarrow> dns_result \<times> bool \<times> shared" where
  "controlResolves cfg sh =
     (let control = (case sh_control sh of
            Some c \<Rightarrow> c
          | None \<Rightarrow>
              (let rs = \<lparr>rs_System = rs_System (cfg_Resolvers cfg),
                         rs_Public = rs_Public (cfg_Resolvers cfg), rs_DoH = []\<rparr>
               in Resolve (cfg_ControlName cfg) rs (cfg_Timeout cfg)));
          sh' = sh\<lparr>sh_control := Some control\<rparr>
      in (control, any_answer_OK (dr_System control # dr_Public control), sh'))"

section \<open>One target\<close>

text \<open>
  The network as one target sees it. The handshakes are those with the address a layer dials; the
  verifier, the table of printable characters and the status decoder stand for crypto/x509, for
  package unicode and for encoding/json.
\<close>

record network =
  net_Dial :: dial_fun
  net_Handshake :: "string \<Rightarrow> tls_call \<Rightarrow> tls_obs"
  net_VerifyHandshake :: "string \<Rightarrow> tls_obs"
  net_HTTP :: "string \<Rightarrow> bool \<Rightarrow> string \<Rightarrow> http_obs"
  net_Download :: "string \<Rightarrow> string \<Rightarrow> download"
  net_Status :: "string \<Rightarrow> status_obs"
  net_x509 :: x509_fun
  net_IsPrint :: "nat \<Rightarrow> bool"
  net_decode :: "string \<Rightarrow> goerr + string \<times> string"

record run =
  rn_target :: target
  rn_dns :: dns_result
  rn_analysis :: analysis
  rn_resolved :: bool
  rn_control :: "dns_result option"
  rn_tcp :: "tcp_result list"
  rn_tls :: "tls_result option"
  rn_verify :: "handshake option"
  rn_http :: "http_result option"
  rn_outage :: "outage_result option"
  rn_speed :: "speed_result option"

definition addrPort :: "config \<Rightarrow> addr \<Rightarrow> addr_port" where
  "addrPort cfg a = (a, nat (cfg_Port cfg mod 65536))"

text \<open>The loop that takes at most \<^verbatim>\<open>MaxAddrs\<close> reference addresses.\<close>

fun pick_addrs :: "config \<Rightarrow> addr list \<Rightarrow> addr_port list \<Rightarrow> addr_port list" where
  "pick_addrs cfg [] addrs = addrs"
| "pick_addrs cfg (a # as) addrs =
     (if int (length addrs) = cfg_MaxAddrs cfg then addrs
      else pick_addrs cfg as (addrs @ [addrPort cfg a]))"

definition measureSpeed :: "config \<Rightarrow> network \<Rightarrow> target \<Rightarrow> string \<Rightarrow> shared \<Rightarrow> speed_result \<times> shared" where
  "measureSpeed cfg net t addr sh =
     (let base = (case sh_baseline sh of
            Some m \<Rightarrow> m
          | None \<Rightarrow> speed_Measure (net_Download net [] (cfg_SpeedBaselineURL cfg)) (cfg_SpeedBaselineURL cfg));
          sh' = sh\<lparr>sh_baseline := Some base\<rparr>;
          u = (if target_SpeedURL t = [] then CheckURL t else target_SpeedURL t);
          m = speed_Measure (net_Download net addr u) u
      in (Compare m base, sh'))"

definition pathCleanButFailing :: "run \<Rightarrow> bool" where
  "pathCleanButFailing st =
     (if an_Unresolvable (rn_analysis st) then True
      else (case rn_tls st of
          None \<Rightarrow> False
        | Some t \<Rightarrow>
            if hs_Outcome (tls_Real t) \<noteq> TlsOK then False
            else (case rn_http st of
                None \<Rightarrow> False
              | Some h \<Rightarrow> hr_Class h = HttpServerError \<or> hr_Class h = HttpFailed)))"

definition new_run :: "target \<Rightarrow> dns_result \<Rightarrow> run" where
  "new_run t dns =
     \<lparr>rn_target = t, rn_dns = dns, rn_analysis = empty_analysis, rn_resolved = False,
      rn_control = None, rn_tcp = [], rn_tls = None, rn_verify = None, rn_http = None,
      rn_outage = None, rn_speed = None\<rparr>"

text \<open>Layer 2, with the control lookup.\<close>

definition dns_layer :: "config \<Rightarrow> target \<Rightarrow> shared \<Rightarrow> run \<times> shared" where
  "dns_layer cfg t sh =
     (let dns = Resolve (target_Host t) (cfg_Resolvers cfg) (cfg_Timeout cfg);
          st = (new_run t dns)\<lparr>rn_analysis := Analyze dns (the (cfg_Signatures cfg)), rn_resolved := True\<rparr>
      in if an_Unresolvable (rn_analysis st) \<and> an_AllPlainTimeout (rn_analysis st) then
           (case controlResolves cfg sh of (ctl, ok, sh') \<Rightarrow>
              (st\<lparr>rn_control := Some ctl, rn_analysis := (rn_analysis st)\<lparr>an_Dropped := ok\<rparr>\<rparr>, sh'))
         else (st, sh))"

text \<open>The handshake with a suspect address.\<close>

definition verify_layer :: "config \<Rightarrow> network \<Rightarrow> target \<Rightarrow> run \<Rightarrow> run" where
  "verify_layer cfg net t st =
     (case an_Suspects (rn_analysis st) of
        [] \<Rightarrow> st
      | a # _ \<Rightarrow>
          st\<lparr>rn_verify := Some (tls_Do (net_x509 net)
               (net_VerifyHandshake net (addr_port_String (addrPort cfg a))) (target_Host t) (target_Host t))\<rparr>)"

text \<open>Layer 3.\<close>

definition tcp_layer :: "config \<Rightarrow> network \<Rightarrow> run \<Rightarrow> run" where
  "tcp_layer cfg net st =
     (let addrs = pick_addrs cfg (an_Reference (rn_analysis st)) [] in
      if 0 < length addrs then st\<lparr>rn_tcp := ProbeAll (net_Dial net) addrs\<rparr> else st)"

text \<open>Layers 4, 5 and 6, on the first address that accepted a connection.\<close>

definition service_layers :: "config \<Rightarrow> network \<Rightarrow> target \<Rightarrow> run \<Rightarrow> shared \<Rightarrow> run \<times> shared" where
  "service_layers cfg net t st sh =
     (case ts_Working (Summarize (rn_tcp st)) of
        None \<Rightarrow> (st, sh)
      | Some w \<Rightarrow>
          (let addr = addr_port_String (tcp_Addr w);
               res = tls_Check (net_x509 net) (net_Handshake net addr) (cfg_NeutralSNI cfg) addr (target_Host t);
               st1 = st\<lparr>rn_tls := Some res\<rparr>;
               oc = hs_Outcome (tls_Real res);
               st2 = (if oc = TlsOK \<or> oc = TlsCertInvalid
                      then st1\<lparr>rn_http := Some (Fetch (snippet (net_IsPrint net)) (cfg_Signatures cfg)
                             (net_HTTP net addr (oc = TlsCertInvalid) (CheckURL t)) (CheckURL t))\<rparr>
                      else st1)
           in if cfg_Speed cfg \<and> (case rn_http st2 of None \<Rightarrow> False | Some h \<Rightarrow> hr_Class h = HttpOK)
              then (case measureSpeed cfg net t addr sh of (sp, sh') \<Rightarrow> (st2\<lparr>rn_speed := Some sp\<rparr>, sh'))
              else (st2, sh)))"

text \<open>Layer 7.\<close>

definition outage_layer :: "network \<Rightarrow> target \<Rightarrow> run \<Rightarrow> run" where
  "outage_layer net t st =
     (if target_StatusPage t \<noteq> [] \<and> pathCleanButFailing st
      then st\<lparr>rn_outage := Some (outage_Check (net_decode net) (net_Status net (target_StatusPage t)) (target_StatusPage t))\<rparr>
      else st)"

definition checkTarget :: "config \<Rightarrow> network \<Rightarrow> target \<Rightarrow> shared \<Rightarrow> run \<times> shared" where
  "checkTarget cfg net t sh =
     (case dns_layer cfg t sh of (st1, sh1) \<Rightarrow>
        (case service_layers cfg net t (tcp_layer cfg net (verify_layer cfg net t st1)) sh1 of
           (st2, sh2) \<Rightarrow> (outage_layer net t st2, sh2)))"

section \<open>The decision\<close>

definition verdict_input :: "config \<Rightarrow> shared \<Rightarrow> run \<Rightarrow> input" where
  "verdict_input cfg sh st =
     \<lparr>in_Local = sh_local sh, in_Intercept = sh_intercept sh, in_DNS = rn_analysis st,
      in_TCP = rn_tcp st, in_TLS = rn_tls st, in_Verify = rn_verify st, in_HTTP = rn_http st,
      in_Outage = rn_outage st, in_Speed = rn_speed st, in_Signatures = cfg_Signatures cfg\<rparr>"

section \<open>The local summary\<close>

fun active_names :: "iface list \<Rightarrow> string list" where
  "active_names [] = []"
| "active_names (i # is) =
     (if if_Up i \<and> \<not> if_Loop i \<and> if_HasAddr i then if_Name i # active_names is else active_names is)"

definition localSummary :: "shared \<Rightarrow> bool \<Rightarrow> local_summary" where
  "localSummary sh proxy =
     (let ls = \<lparr>ls_Up = True, ls_DownReason = [], ls_DefaultRoute = True, ls_Interfaces = [],
                ls_VPNInterfaces = [], ls_ProxyEnv = [], ls_SystemProxy = [], ls_Reachable = [],
                ls_Unreachable = [], ls_DNSIntercept = False, ls_DoHUnreachable = False,
                ls_ProxyFlag = proxy\<rparr>;
          ls1 = (case sh_intercept sh of None \<Rightarrow> ls | Some i \<Rightarrow> ls\<lparr>ls_DNSIntercept := ic_Detected i\<rparr>)
      in case sh_local sh of
           None \<Rightarrow> ls1
         | Some l \<Rightarrow>
             (case Down l of (down, why) \<Rightarrow>
                foldl (\<lambda>s p. if bl_OK p then s\<lparr>ls_Reachable := ls_Reachable s @ [bl_Addr p]\<rparr>
                             else s\<lparr>ls_Unreachable := ls_Unreachable s @ [bl_Addr p]\<rparr>)
                  (ls1\<lparr>ls_Up := \<not> down, ls_DownReason := why, ls_DefaultRoute := lr_DefaultRoute l,
                       ls_Interfaces := active_names (lr_Interfaces l), ls_VPNInterfaces := VPNNames l,
                       ls_ProxyEnv := lr_ProxyEnv l, ls_SystemProxy := lr_SystemProxy l\<rparr>)
                  (lr_Baseline l)))"

section \<open>Facts about the layers\<close>

lemma dns_layer_fields:
  assumes "dns_layer cfg t sh = (st, sh')"
  shows "rn_tcp st = []" "rn_tls st = None" "rn_verify st = None" "rn_http st = None"
    "rn_outage st = None" "rn_speed st = None" "rn_resolved st" "rn_target st = t"
    "an_Suspects (rn_analysis st) = an_Suspects (Analyze (rn_dns st) (the (cfg_Signatures cfg)))"
    "an_Reference (rn_analysis st) = an_Reference (Analyze (rn_dns st) (the (cfg_Signatures cfg)))"
    "an_Unresolvable (rn_analysis st) = an_Unresolvable (Analyze (rn_dns st) (the (cfg_Signatures cfg)))"
    "rn_dns st = Resolve (target_Host t) (cfg_Resolvers cfg) (cfg_Timeout cfg)"
    "sh_baseline sh' = sh_baseline sh" "sh_local sh' = sh_local sh" "sh_intercept sh' = sh_intercept sh"
  using assms
  by (auto simp: dns_layer_def controlResolves_def new_run_def Let_def split: if_splits prod.splits)

lemma dns_layer_dropped:
  assumes "dns_layer cfg t sh = (st, sh')"
  shows "an_Dropped (rn_analysis st) \<Longrightarrow>
      an_Unresolvable (rn_analysis st) \<and> an_AllPlainTimeout (rn_analysis st)
      \<and> (\<exists>ctl. rn_control st = Some ctl \<and> sh_control sh' = Some ctl
           \<and> (\<exists>a \<in> set (dr_System ctl # dr_Public ctl). answer_OK a))"
proof -
  have any: "any_answer_OK as \<longleftrightarrow> (\<exists>a \<in> set as. answer_OK a)" for as
    by (induction as) auto
  show "an_Dropped (rn_analysis st) \<Longrightarrow> ?thesis"
    using assms Analyze_fields(11) [of "Resolve (target_Host t) (cfg_Resolvers cfg) (cfg_Timeout cfg)"
        "the (cfg_Signatures cfg)"]
    by (auto simp: dns_layer_def controlResolves_def new_run_def Let_def any split: if_splits prod.splits)
qed

lemma verify_layer_fields [simp]:
  "rn_tcp (verify_layer cfg net t st) = rn_tcp st" "rn_tls (verify_layer cfg net t st) = rn_tls st"
  "rn_http (verify_layer cfg net t st) = rn_http st" "rn_outage (verify_layer cfg net t st) = rn_outage st"
  "rn_speed (verify_layer cfg net t st) = rn_speed st" "rn_analysis (verify_layer cfg net t st) = rn_analysis st"
  "rn_dns (verify_layer cfg net t st) = rn_dns st" "rn_control (verify_layer cfg net t st) = rn_control st"
  "rn_resolved (verify_layer cfg net t st) = rn_resolved st" "rn_target (verify_layer cfg net t st) = rn_target st"
  by (simp_all add: verify_layer_def split: list.splits)

lemma tcp_layer_fields [simp]:
  "rn_tls (tcp_layer cfg net st) = rn_tls st" "rn_verify (tcp_layer cfg net st) = rn_verify st"
  "rn_http (tcp_layer cfg net st) = rn_http st" "rn_outage (tcp_layer cfg net st) = rn_outage st"
  "rn_speed (tcp_layer cfg net st) = rn_speed st" "rn_analysis (tcp_layer cfg net st) = rn_analysis st"
  "rn_dns (tcp_layer cfg net st) = rn_dns st" "rn_control (tcp_layer cfg net st) = rn_control st"
  "rn_resolved (tcp_layer cfg net st) = rn_resolved st" "rn_target (tcp_layer cfg net st) = rn_target st"
  by (simp_all add: tcp_layer_def Let_def)

lemma service_layers_fields:
  assumes "service_layers cfg net t st sh = (st', sh')"
  shows "rn_tcp st' = rn_tcp st" "rn_verify st' = rn_verify st" "rn_outage st' = rn_outage st"
    "rn_analysis st' = rn_analysis st" "rn_dns st' = rn_dns st" "rn_control st' = rn_control st"
    "rn_resolved st' = rn_resolved st" "rn_target st' = rn_target st"
    "sh_control sh' = sh_control sh" "sh_local sh' = sh_local sh" "sh_intercept sh' = sh_intercept sh"
  using assms
  by (auto simp: service_layers_def measureSpeed_def Let_def split: option.splits if_splits)

lemma outage_layer_fields [simp]:
  "rn_tls (outage_layer net t st) = rn_tls st" "rn_verify (outage_layer net t st) = rn_verify st"
  "rn_http (outage_layer net t st) = rn_http st" "rn_tcp (outage_layer net t st) = rn_tcp st"
  "rn_speed (outage_layer net t st) = rn_speed st" "rn_analysis (outage_layer net t st) = rn_analysis st"
  "rn_dns (outage_layer net t st) = rn_dns st" "rn_control (outage_layer net t st) = rn_control st"
  "rn_resolved (outage_layer net t st) = rn_resolved st" "rn_target (outage_layer net t st) = rn_target st"
  by (simp_all add: outage_layer_def)

lemma pick_addrs_eq:
  "0 \<le> cfg_MaxAddrs cfg \<Longrightarrow> int (length acc) \<le> cfg_MaxAddrs cfg \<Longrightarrow>
     pick_addrs cfg as acc = acc @ map (addrPort cfg) (take (nat (cfg_MaxAddrs cfg) - length acc) as)"
proof (induction "as" arbitrary: acc)
  case Nil
  then show ?case by simp
next
  case (Cons a as)
  show ?case
  proof (cases "int (length acc) = cfg_MaxAddrs cfg")
    case True
    then have "nat (cfg_MaxAddrs cfg) - length acc = 0" by simp
    with True show ?thesis by simp
  next
    case False
    then have n: "nat (cfg_MaxAddrs cfg) - length acc = Suc (nat (cfg_MaxAddrs cfg) - Suc (length acc))"
      using Cons.prems by simp
    from False show ?thesis
      using Cons.IH [of "acc @ [addrPort cfg a]"] Cons.prems by (simp add: n)
  qed
qed

text \<open>The whole of one target, layer by layer.\<close>

lemma checkTarget_layers:
  assumes "checkTarget cfg net t sh = (st, sh')"
  obtains st1 sh1 st2 where "dns_layer cfg t sh = (st1, sh1)"
    and "service_layers cfg net t (tcp_layer cfg net (verify_layer cfg net t st1)) sh1 = (st2, sh')"
    and "st = outage_layer net t st2"
proof -
  obtain st1 sh1 where 1: "dns_layer cfg t sh = (st1, sh1)" by fastforce
  obtain st2 sh2 where 2: "service_layers cfg net t (tcp_layer cfg net (verify_layer cfg net t st1)) sh1 = (st2, sh2)"
    by fastforce
  have "st = outage_layer net t st2" "sh2 = sh'"
    using assms by (simp_all add: checkTarget_def 1 2)
  with 1 2 that show thesis by blast
qed

lemma checkTarget_tcp:
  assumes "checkTarget cfg net t sh = (st, sh')"
  shows "rn_tcp st = ProbeAll (net_Dial net) (pick_addrs cfg (an_Reference (rn_analysis st)) [])"
    and "rn_dns st = Resolve (target_Host t) (cfg_Resolvers cfg) (cfg_Timeout cfg)"
    and "an_Reference (rn_analysis st) = an_Reference (Analyze (rn_dns st) (the (cfg_Signatures cfg)))"
    and "an_Suspects (rn_analysis st) = an_Suspects (Analyze (rn_dns st) (the (cfg_Signatures cfg)))"
    and "an_Unresolvable (rn_analysis st) = an_Unresolvable (Analyze (rn_dns st) (the (cfg_Signatures cfg)))"
    and "rn_target st = t" and "rn_resolved st"
proof -
  obtain st1 sh1 st2 where L: "dns_layer cfg t sh = (st1, sh1)"
    "service_layers cfg net t (tcp_layer cfg net (verify_layer cfg net t st1)) sh1 = (st2, sh')"
    "st = outage_layer net t st2"
    using assms by (rule checkTarget_layers)
  note f = dns_layer_fields [OF L(1)] service_layers_fields [OF L(2)]
  have "ProbeAll d [] = []" for d by (simp add: ProbeAll_def)
  then show "rn_tcp st = ProbeAll (net_Dial net) (pick_addrs cfg (an_Reference (rn_analysis st)) [])"
    by (auto simp: L(3) f tcp_layer_def Let_def)
  show "rn_dns st = Resolve (target_Host t) (cfg_Resolvers cfg) (cfg_Timeout cfg)"
    and "an_Reference (rn_analysis st) = an_Reference (Analyze (rn_dns st) (the (cfg_Signatures cfg)))"
    and "an_Suspects (rn_analysis st) = an_Suspects (Analyze (rn_dns st) (the (cfg_Signatures cfg)))"
    and "an_Unresolvable (rn_analysis st) = an_Unresolvable (Analyze (rn_dns st) (the (cfg_Signatures cfg)))"
    and "rn_target st = t" and "rn_resolved st"
    by (simp_all add: L(3) f)
qed

abbreviation tls_of :: "config \<Rightarrow> network \<Rightarrow> target \<Rightarrow> tcp_result \<Rightarrow> tls_result" where
  "tls_of cfg net t w \<equiv>
     tls_Check (net_x509 net) (net_Handshake net (addr_port_String (tcp_Addr w))) (cfg_NeutralSNI cfg)
       (addr_port_String (tcp_Addr w)) (target_Host t)"

abbreviation http_of :: "config \<Rightarrow> network \<Rightarrow> target \<Rightarrow> tcp_result \<Rightarrow> bool \<Rightarrow> http_result" where
  "http_of cfg net t w insecure \<equiv>
     Fetch (snippet (net_IsPrint net)) (cfg_Signatures cfg)
       (net_HTTP net (addr_port_String (tcp_Addr w)) insecure (CheckURL t)) (CheckURL t)"

lemma service_tls:
  "rn_tls (fst (service_layers cfg net t st sh)) =
     (case ts_Working (Summarize (rn_tcp st)) of None \<Rightarrow> rn_tls st | Some w \<Rightarrow> Some (tls_of cfg net t w))"
  by (simp add: service_layers_def Let_def case_prod_beta split: option.splits)

lemma service_http:
  "rn_http (fst (service_layers cfg net t st sh)) =
     (case ts_Working (Summarize (rn_tcp st)) of None \<Rightarrow> rn_http st
      | Some w \<Rightarrow> if handshake_done (tls_of cfg net t w)
                 then Some (http_of cfg net t w (hs_Outcome (tls_Real (tls_of cfg net t w)) = TlsCertInvalid))
                 else rn_http st)"
  by (simp add: service_layers_def Let_def case_prod_beta handshake_done_def split: option.splits)

lemma service_speed:
  assumes "rn_speed st = None"
  shows "rn_speed (fst (service_layers cfg net t st sh)) \<noteq> None \<longleftrightarrow>
     cfg_Speed cfg \<and> ts_Working (Summarize (rn_tcp st)) \<noteq> None
     \<and> (\<exists>h. rn_http (fst (service_layers cfg net t st sh)) = Some h \<and> hr_Class h = HttpOK)"
proof (cases "ts_Working (Summarize (rn_tcp st))")
  case None
  with assms show ?thesis by (simp add: service_layers_def)
next
  case (Some w)
  with assms show ?thesis
    unfolding service_http
    by (simp add: service_layers_def Let_def case_prod_beta handshake_done_def split: option.split)
qed

lemma pathCleanButFailing_outage [simp]: "pathCleanButFailing (outage_layer net t st) = pathCleanButFailing st"
  unfolding pathCleanButFailing_def outage_layer_fields by (rule refl)

lemma checkTarget_service:
  assumes "checkTarget cfg net t sh = (st, sh')"
  shows "rn_tls st = map_option (tls_of cfg net t) (ts_Working (Summarize (rn_tcp st)))"
    and "rn_http st = (case ts_Working (Summarize (rn_tcp st)) of None \<Rightarrow> None
      | Some w \<Rightarrow> if handshake_done (tls_of cfg net t w)
                 then Some (http_of cfg net t w (hs_Outcome (tls_Real (tls_of cfg net t w)) = TlsCertInvalid))
                 else None)"
    and "rn_speed st \<noteq> None \<longleftrightarrow> cfg_Speed cfg \<and> (\<exists>h. rn_http st = Some h \<and> hr_Class h = HttpOK)"
    and "rn_outage st \<noteq> None \<longleftrightarrow> target_StatusPage t \<noteq> [] \<and> pathCleanButFailing st"
    and "rn_verify st \<noteq> None \<longleftrightarrow> an_Suspects (rn_analysis st) \<noteq> []"
proof -
  obtain st1 sh1 st2 where L: "dns_layer cfg t sh = (st1, sh1)"
    "service_layers cfg net t (tcp_layer cfg net (verify_layer cfg net t st1)) sh1 = (st2, sh')"
    "st = outage_layer net t st2"
    using assms by (rule checkTarget_layers)
  note f = dns_layer_fields [OF L(1)] service_layers_fields [OF L(2)]
  let ?st = "tcp_layer cfg net (verify_layer cfg net t st1)"
  have tcp: "rn_tcp ?st = rn_tcp st" by (simp add: L(3) f)
  show "rn_tls st = map_option (tls_of cfg net t) (ts_Working (Summarize (rn_tcp st)))"
    using service_tls [of cfg net t ?st sh1] unfolding tcp by (simp add: L f split: option.splits)
  show http: "rn_http st = (case ts_Working (Summarize (rn_tcp st)) of None \<Rightarrow> None
      | Some w \<Rightarrow> if handshake_done (tls_of cfg net t w)
                 then Some (http_of cfg net t w (hs_Outcome (tls_Real (tls_of cfg net t w)) = TlsCertInvalid))
                 else None)"
    using service_http [of cfg net t ?st sh1] unfolding tcp by (simp add: L f split: option.splits)
  have "rn_http st = None" if "ts_Working (Summarize (rn_tcp st)) = None"
    using http that by simp
  then show "rn_speed st \<noteq> None \<longleftrightarrow> cfg_Speed cfg \<and> (\<exists>h. rn_http st = Some h \<and> hr_Class h = HttpOK)"
    using service_speed [of ?st cfg net t sh1] unfolding tcp by (auto simp: L f)
  show "rn_outage st \<noteq> None \<longleftrightarrow> target_StatusPage t \<noteq> [] \<and> pathCleanButFailing st"
    unfolding L(3) pathCleanButFailing_outage by (simp add: outage_layer_def f)
  show "rn_verify st \<noteq> None \<longleftrightarrow> an_Suspects (rn_analysis st) \<noteq> []"
    by (simp add: L(3) f verify_layer_def split: list.splits)
qed

section \<open>Properties\<close>

lemma fillDefaults_sel:
  "cfg_Timeout (fillDefaults b cfg) = (if cfg_Timeout cfg \<le> 0 then 5 * Second else cfg_Timeout cfg)"
  "cfg_Concurrency (fillDefaults b cfg) = (if cfg_Concurrency cfg \<le> 0 then 8 else cfg_Concurrency cfg)"
  "cfg_Dialer (fillDefaults b cfg) =
     (if cfg_Dialer cfg = None then Some (DirectDialer (cfg_Timeout (fillDefaults b cfg))) else cfg_Dialer cfg)"
  "cfg_Signatures (fillDefaults b cfg) = (if cfg_Signatures cfg = None then Some b else cfg_Signatures cfg)"
  "cfg_Port (fillDefaults b cfg) = (if cfg_Port cfg = 0 then 443 else cfg_Port cfg)"
  "cfg_NeutralSNI (fillDefaults b cfg) = (if cfg_NeutralSNI cfg = [] then DefaultNeutralSNI else cfg_NeutralSNI cfg)"
  "cfg_MaxAddrs (fillDefaults b cfg) = (if cfg_MaxAddrs cfg \<le> 0 then 2 else cfg_MaxAddrs cfg)"
  "cfg_HTTPClient (fillDefaults b cfg) =
     (if cfg_HTTPClient cfg = None then Some (PinnedClient (the (cfg_Dialer (fillDefaults b cfg))) [])
      else cfg_HTTPClient cfg)"
  "cfg_SpeedBaselineURL (fillDefaults b cfg) =
     (if cfg_SpeedBaselineURL cfg = [] then DefaultBaselineURL else cfg_SpeedBaselineURL cfg)"
  "cfg_ControlName (fillDefaults b cfg) =
     (if cfg_ControlName cfg = [] then DefaultControlName else cfg_ControlName cfg)"
  "cfg_ProxyInUse (fillDefaults b cfg) = cfg_ProxyInUse cfg" "cfg_Version (fillDefaults b cfg) = cfg_Version cfg"
  "cfg_Speed (fillDefaults b cfg) = cfg_Speed cfg" "cfg_Resolvers (fillDefaults b cfg) = cfg_Resolvers cfg"
  "cfg_InterceptionProbe (fillDefaults b cfg) = cfg_InterceptionProbe cfg"
  "cfg_Local (fillDefaults b cfg) = cfg_Local cfg"
  by (simp_all add: fillDefaults_def fill_eqs split del: if_split cong del: if_weak_cong)

lemma fillDefaults_fields [simp]:
  "0 < cfg_MaxAddrs (fillDefaults b cfg)" "cfg_Signatures (fillDefaults b cfg) \<noteq> None"
  by (simp_all add: fillDefaults_sel(4,7) del: not_None_eq)

lemma fillDefaults_idem: "fillDefaults b (fillDefaults b cfg) = fillDefaults b cfg"
proof (rule config.equality)
  have pos: "0 < cfg_Timeout (fillDefaults b cfg)" "0 < cfg_Concurrency (fillDefaults b cfg)"
    "0 < cfg_MaxAddrs (fillDefaults b cfg)" "cfg_Port (fillDefaults b cfg) \<noteq> 0"
    "cfg_NeutralSNI (fillDefaults b cfg) \<noteq> []" "cfg_SpeedBaselineURL (fillDefaults b cfg) \<noteq> []"
    "cfg_ControlName (fillDefaults b cfg) \<noteq> []" "cfg_Dialer (fillDefaults b cfg) \<noteq> None"
    "cfg_HTTPClient (fillDefaults b cfg) \<noteq> None" "cfg_Signatures (fillDefaults b cfg) \<noteq> None"
    unfolding fillDefaults_sel
    by (simp_all add: Second_def DefaultNeutralSNI_def DefaultControlName_def DefaultBaselineURL_def)
  note sel = fillDefaults_sel [of b "fillDefaults b cfg"]
  show "cfg_Timeout (fillDefaults b (fillDefaults b cfg)) = cfg_Timeout (fillDefaults b cfg)"
    using pos sel(1) by simp
  show "cfg_Concurrency (fillDefaults b (fillDefaults b cfg)) = cfg_Concurrency (fillDefaults b cfg)"
    using pos sel(2) by simp
  show "cfg_Dialer (fillDefaults b (fillDefaults b cfg)) = cfg_Dialer (fillDefaults b cfg)"
    using pos sel(3) by simp
  show "cfg_ProxyInUse (fillDefaults b (fillDefaults b cfg)) = cfg_ProxyInUse (fillDefaults b cfg)"
    by (rule sel(11))
  show "cfg_Signatures (fillDefaults b (fillDefaults b cfg)) = cfg_Signatures (fillDefaults b cfg)"
    using pos sel(4) by simp
  show "cfg_Version (fillDefaults b (fillDefaults b cfg)) = cfg_Version (fillDefaults b cfg)"
    by (rule sel(12))
  show "cfg_Speed (fillDefaults b (fillDefaults b cfg)) = cfg_Speed (fillDefaults b cfg)"
    by (rule sel(13))
  show "cfg_Resolvers (fillDefaults b (fillDefaults b cfg)) = cfg_Resolvers (fillDefaults b cfg)"
    by (rule sel(14))
  show "cfg_InterceptionProbe (fillDefaults b (fillDefaults b cfg)) = cfg_InterceptionProbe (fillDefaults b cfg)"
    by (rule sel(15))
  show "cfg_Port (fillDefaults b (fillDefaults b cfg)) = cfg_Port (fillDefaults b cfg)"
    using pos sel(5) by simp
  show "cfg_NeutralSNI (fillDefaults b (fillDefaults b cfg)) = cfg_NeutralSNI (fillDefaults b cfg)"
    using pos sel(6) by simp
  show "cfg_MaxAddrs (fillDefaults b (fillDefaults b cfg)) = cfg_MaxAddrs (fillDefaults b cfg)"
    using pos(3) sel(7) by (simp del: fillDefaults_fields)
  show "cfg_Local (fillDefaults b (fillDefaults b cfg)) = cfg_Local (fillDefaults b cfg)"
    by (rule sel(16))
  show "cfg_HTTPClient (fillDefaults b (fillDefaults b cfg)) = cfg_HTTPClient (fillDefaults b cfg)"
    using pos sel(8) by simp
  show "cfg_SpeedBaselineURL (fillDefaults b (fillDefaults b cfg)) = cfg_SpeedBaselineURL (fillDefaults b cfg)"
    using pos sel(9) by simp
  show "cfg_ControlName (fillDefaults b (fillDefaults b cfg)) = cfg_ControlName (fillDefaults b cfg)"
    using pos sel(10) by simp
qed simp

text \<open>
  Filling the defaults makes every bound positive and every needed part present, keeps
  every value that was set, and does nothing the second time.
\<close>

lemma fillDefaults_spec:
  "fillDefaults b (fillDefaults b cfg) = fillDefaults b cfg
   \<and> cfg_Timeout (fillDefaults b cfg) = (if 0 < cfg_Timeout cfg then cfg_Timeout cfg else 5000000000)
   \<and> cfg_Concurrency (fillDefaults b cfg) = (if 0 < cfg_Concurrency cfg then cfg_Concurrency cfg else 8)
   \<and> cfg_MaxAddrs (fillDefaults b cfg) = (if 0 < cfg_MaxAddrs cfg then cfg_MaxAddrs cfg else 2)
   \<and> cfg_Port (fillDefaults b cfg) = (if cfg_Port cfg = 0 then 443 else cfg_Port cfg)
   \<and> cfg_Signatures (fillDefaults b cfg) = Some (case cfg_Signatures cfg of None \<Rightarrow> b | Some s \<Rightarrow> s)
   \<and> cfg_Dialer (fillDefaults b cfg) \<noteq> None \<and> cfg_HTTPClient (fillDefaults b cfg) \<noteq> None"
  unfolding fillDefaults_idem fillDefaults_sel
  by (simp add: Second_def split: option.split)

lemma map_Addr_ProbeAll: "map tcp_Addr (ProbeAll d as) = as"
proof -
  have "map tcp_Addr (map (\<lambda>(i, a). tcp_Probe (d i) a) (enumerate n as)) = as" for n
    by (induction "as" arbitrary: n) simp_all
  then show ?thesis by (simp add: ProbeAll_def)
qed

text \<open>
  Claim C19. The path is judged on verified addresses only: connections go, in order, to the first
  \<^verbatim>\<open>MaxAddrs\<close> reference addresses and to nothing else (never to a suspect); the handshakes use the
  first address that accepted, the request is made exactly when that handshake completed, the
  speed test only on request and after a normal answer, the status page only for a failing service.
\<close>

theorem checkTarget_layering:
  fixes cfg0 b net t sh
  defines "cfg \<equiv> fillDefaults b cfg0"
  defines "st \<equiv> fst (checkTarget cfg net t sh)"
  shows "map tcp_Addr (rn_tcp st) =
      map (addrPort cfg) (take (nat (cfg_MaxAddrs cfg)) (an_Reference (rn_analysis st)))
    \<and> rn_tls st = map_option (tls_of cfg net t) (find (\<lambda>r. tcp_Outcome r = TcpOK) (rn_tcp st))
    \<and> (rn_http st \<noteq> None \<longleftrightarrow> (\<exists>tl. rn_tls st = Some tl \<and> handshake_done tl))
    \<and> (rn_speed st \<noteq> None \<longleftrightarrow> cfg_Speed cfg \<and> (\<exists>h. rn_http st = Some h \<and> hr_Class h = HttpOK))
    \<and> (rn_outage st \<noteq> None \<longleftrightarrow> target_StatusPage t \<noteq> [] \<and> pathCleanButFailing st)
    \<and> (rn_verify st \<noteq> None \<longleftrightarrow> an_Suspects (rn_analysis st) \<noteq> [])"
proof -
  obtain sh' where R: "checkTarget cfg net t sh = (st, sh')"
    unfolding st_def by (metis prod.collapse)
  note S = checkTarget_service [OF R]
  have max: "0 < cfg_MaxAddrs cfg" by (simp add: cfg_def)
  have "map tcp_Addr (rn_tcp st) =
      map (addrPort cfg) (take (nat (cfg_MaxAddrs cfg)) (an_Reference (rn_analysis st)))"
    unfolding checkTarget_tcp(1) [OF R] map_Addr_ProbeAll
    using max by (subst pick_addrs_eq) auto
  moreover have "rn_http st \<noteq> None \<longleftrightarrow> (\<exists>tl. rn_tls st = Some tl \<and> handshake_done tl)"
    unfolding S(1,2) by (auto split: option.splits)
  ultimately show ?thesis
    using S(1,3,4,5) unfolding Summarize_Working by blast
qed

lemma served_confident:
  assumes "in_TLS inp = Some tr" "hs_Outcome (tls_Real tr) = TlsOK" "issuer_match inp (tls_Real tr) = []"
    and "in_HTTP inp = Some h" "hr_Class h = HttpOK"
    and "\<not> dns_problem inp" "\<not> throttled inp" and w: "working inp = Some w"
  shows "d_Confidence (Decide inp) = High"
proof -
  have "\<not> SNI_filtered tr" "\<not> Blocked (tls_Real tr)"
    using assms(2) by (auto simp: SNI_filtered_def Blocked_def)
  then have "path_of inp = Some (speedDecision inp (itoa (hr_Status h)))"
    using assms(1-5) w working_nonempty [OF w]
    by (simp add: pathDecision_def tlsDecision_def serviceDecision_def httpDecision_def Let_def)
  moreover have "dnsDecision inp = None" using assms(6) by (simp add: dnsDecision_None_iff)
  ultimately have "Decide inp = speedDecision inp (itoa (hr_Status h))"
    by (simp add: Decide_combine [OF working_down [OF w]] combine_def)
  then show ?thesis
    using assms(7) by (auto simp: speedDecision_def throttled_def Let_def split: option.splits)
qed

lemma checkTarget_OK_iff:
  fixes cfg net t sh sh2
  defines "st \<equiv> fst (checkTarget cfg net t sh)"
  defines "inp \<equiv> verdict_input cfg sh2 st"
  shows "(d_Verdict (Decide inp) = OK \<longleftrightarrow>
      \<not> dns_problem inp
      \<and> (\<exists>tl h. rn_tls st = Some tl \<and> hs_Outcome (tls_Real tl) = TlsOK \<and> issuer_match inp (tls_Real tl) = []
           \<and> rn_http st = Some h \<and> hr_Class h = HttpOK)
      \<and> \<not> throttled inp)
    \<and> \<not> (d_Verdict (Decide inp) = OK \<and> d_Confidence (Decide inp) \<noteq> High)"
proof -
  obtain sh' where R: "checkTarget cfg net t sh = (st, sh')"
    unfolding st_def by (metis prod.collapse)
  note S = checkTarget_service [OF R]
  have inp: "in_TCP inp = rn_tcp st" "in_TLS inp = rn_tls st" "in_HTTP inp = rn_http st"
    "in_Speed inp = rn_speed st"
    by (simp_all add: inp_def verdict_input_def)
  have iff: "d_Verdict (Decide inp) = OK \<longleftrightarrow>
      \<not> dns_problem inp
      \<and> (\<exists>tl h. rn_tls st = Some tl \<and> hs_Outcome (tls_Real tl) = TlsOK \<and> issuer_match inp (tls_Real tl) = []
           \<and> rn_http st = Some h \<and> hr_Class h = HttpOK) \<and> \<not> throttled inp"
  proof (cases "working inp")
    case None
    then have "rn_tls st = None" using S(1) by (simp add: inp)
    with None show ?thesis by (simp add: Decide_OK_iff)
  next
    case (Some w)
    then have tls: "rn_tls st = Some (tls_of cfg net t w)" using S(1) by (simp add: inp)
    have http: "hs_Outcome (tls_Real (tls_of cfg net t w)) = TlsOK \<Longrightarrow> \<exists>h. rn_http st = Some h"
      using S(2) Some by (simp add: inp handshake_done_def)
    show ?thesis
      using Some http
      by (auto simp: Decide_OK_iff inp tls service_ok_def simp del: tls_Check_real)
  qed
  have "d_Confidence (Decide inp) = High" if OK: "d_Verdict (Decide inp) = OK"
  proof -
    from OK iff obtain tl h where 1: "rn_tls st = Some tl" "hs_Outcome (tls_Real tl) = TlsOK"
      "issuer_match inp (tls_Real tl) = []" "rn_http st = Some h" "hr_Class h = HttpOK"
      and 2: "\<not> dns_problem inp" "\<not> throttled inp" by blast
    from 1(1) S(1) obtain w where "working inp = Some w" by (auto simp: inp)
    then show ?thesis using served_confident 1 2 by (simp add: inp)
  qed
  with iff show ?thesis by blast
qed

text \<open>
  Claim C1. For a target that went through the layers, OK means that the service was really seen to
  work: DNS is clean, a verified address accepted a connection, the handshake verified the host,
  and the request was made and answered normally and, if measured, at normal speed. Then the
  confidence is high; the engine's weaker OKs never come out of the pipeline.
\<close>

theorem checkTarget_OK:
  fixes cfg net t sh sh2
  defines "st \<equiv> fst (checkTarget cfg net t sh)"
  defines "inp \<equiv> verdict_input cfg sh2 st"
  shows "(d_Verdict (Decide inp) = OK \<longleftrightarrow>
      \<not> dns_problem inp
      \<and> (\<exists>tl h. rn_tls st = Some tl \<and> hs_Outcome (tls_Real tl) = TlsOK \<and> issuer_match inp (tls_Real tl) = []
           \<and> rn_http st = Some h \<and> hr_Class h = HttpOK)
      \<and> \<not> throttled inp)
    \<and> \<not> (d_Verdict (Decide inp) = OK \<and> d_Confidence (Decide inp) \<noteq> High)"
  unfolding assms by (rule checkTarget_OK_iff)

lemma Poisoned_block:
  "ans \<in> set (plain r) \<Longrightarrow> answer_OK ans \<Longrightarrow> ip \<in> set (da_Addrs ans) \<Longrightarrow> IsBlockIP sigs ip \<Longrightarrow>
     Poisoned (Analyze r sigs)"
  using found_Nil_iff [of "IsBlockIP sigs" r] by (auto simp: Poisoned_def Analyze_fields(3))

lemma Poisoned_dropped [simp]: "Poisoned (a\<lparr>an_Dropped := x\<rparr>) = Poisoned a"
  by (simp add: Poisoned_def)

lemma checkTarget_analysis:
  assumes "checkTarget cfg net t sh = (st, sh')"
  shows "\<exists>x. rn_analysis st = (Analyze (rn_dns st) (the (cfg_Signatures cfg)))\<lparr>an_Dropped := x\<rparr>"
proof -
  obtain st1 sh1 st2 where L: "dns_layer cfg t sh = (st1, sh1)"
    "service_layers cfg net t (tcp_layer cfg net (verify_layer cfg net t st1)) sh1 = (st2, sh')"
    "st = outage_layer net t st2"
    using assms by (rule checkTarget_layers)
  note f = service_layers_fields [OF L(2)]
  have same: "\<exists>x. a = a\<lparr>an_Dropped := x\<rparr>" for a :: analysis
    by (rule exI [of _ "an_Dropped a"]) simp
  have "\<exists>x. rn_analysis st1 = (Analyze (rn_dns st1) (the (cfg_Signatures cfg)))\<lparr>an_Dropped := x\<rparr>"
    using L(1) by (auto simp: dns_layer_def new_run_def Let_def intro: same split: if_splits prod.splits)
  then show ?thesis by (simp add: L(3) f)
qed

lemma poisoned_finding:
  assumes "ans \<in> set (plain (rn_dns (fst (checkTarget cfg net t sh))))" and "answer_OK ans"
    and "ip \<in> set (da_Addrs ans)" and "IsBlockIP (the (cfg_Signatures cfg)) ip"
  shows "is_dns_verdict (d_Verdict (Decide (verdict_input cfg sh2 (fst (checkTarget cfg net t sh)))))
    \<or> d_Also (Decide (verdict_input cfg sh2 (fst (checkTarget cfg net t sh)))) \<noteq> []
    \<or> d_Verdict (Decide (verdict_input cfg sh2 (fst (checkTarget cfg net t sh)))) = LocalNetworkDown"
proof -
  obtain st sh' where R: "checkTarget cfg net t sh = (st, sh')" by fastforce
  let ?inp = "verdict_input cfg sh2 st"
  obtain x where A: "rn_analysis st = (Analyze (rn_dns st) (the (cfg_Signatures cfg)))\<lparr>an_Dropped := x\<rparr>"
    using checkTarget_analysis [OF R] by blast
  have "Poisoned (rn_analysis st)"
    using assms Poisoned_block [of ans "rn_dns st" ip "the (cfg_Signatures cfg)"] by (simp add: A R)
  then have pr: "dns_problem ?inp" by (simp add: dns_problem_def verdict_input_def)
  show ?thesis
  proof (cases "down_of ?inp")
    case None
    then have "is_dns_verdict (d_Verdict (Decide ?inp)) \<or> d_Also (Decide ?inp) \<noteq> []"
      using Decide_DNS_facts [of ?inp] pr by blast
    then show ?thesis by (auto simp: R)
  next
    case (Some why)
    then show ?thesis by (simp add: R Decide_down)
  qed
qed

text \<open>
  Claim C3. Poisoning is always reported: when some plain resolver's usable answer holds a known
  block-page address, the target's verdict or a secondary finding is a DNS one, unless the machine
  itself is offline.
\<close>

theorem poisoning_reported:
  assumes "ans \<in> set (plain (rn_dns (fst (checkTarget cfg net t sh))))" and "answer_OK ans"
    and "ip \<in> set (da_Addrs ans)" and "IsBlockIP (the (cfg_Signatures cfg)) ip"
  shows "is_dns_verdict (d_Verdict (Decide (verdict_input cfg sh2 (fst (checkTarget cfg net t sh)))))
    \<or> d_Also (Decide (verdict_input cfg sh2 (fst (checkTarget cfg net t sh)))) \<noteq> []
    \<or> d_Verdict (Decide (verdict_input cfg sh2 (fst (checkTarget cfg net t sh)))) = LocalNetworkDown"
  using assms by (rule poisoned_finding)

text \<open>A silent network, two resolvers and the configurations of the witnesses.\<close>

definition timeout_err :: goerr where
  "timeout_err = GoErr KContextDeadline (Some True) True ''context deadline exceeded'' []"

definition dead_tls :: tls_obs where
  "dead_tls = \<lparr>to_DialErr = Some timeout_err, to_DialTime = 5, to_HandshakeErr = None,
     to_HandshakeTime = 0, to_Version = [], to_Chain = []\<rparr>"

definition dead_net :: network where
  "dead_net = \<lparr>net_Dial = (\<lambda>i a. (Some timeout_err, 5)), net_Handshake = (\<lambda>a c. dead_tls),
     net_VerifyHandshake = (\<lambda>a. dead_tls), net_HTTP = (\<lambda>a i u. BadRequest timeout_err),
     net_Download = (\<lambda>a u. MeasureBadRequest timeout_err), net_Status = (\<lambda>u. StatusDoFailed timeout_err),
     net_x509 = (\<lambda>c cs h. None), net_IsPrint = (\<lambda>r. True), net_decode = (\<lambda>s. Inl timeout_err)\<rparr>"

definition no_shared :: shared where
  "no_shared = \<lparr>sh_intercept = None, sh_local = None, sh_baseline = None, sh_control = None\<rparr>"

definition config_of :: "resolvers \<Rightarrow> config" where
  "config_of rs =
     \<lparr>cfg_Timeout = 5, cfg_Concurrency = 8, cfg_Dialer = None, cfg_ProxyInUse = False,
      cfg_Signatures = Some sample_sigs, cfg_Version = [], cfg_Speed = False, cfg_Resolvers = rs,
      cfg_InterceptionProbe = [], cfg_Port = 443, cfg_NeutralSNI = ''example.com'', cfg_MaxAddrs = 2,
      cfg_Local = None, cfg_HTTPClient = None, cfg_SpeedBaselineURL = [], cfg_ControlName = ''example.com''\<rparr>"

definition dropping_resolver :: resolver where
  "dropping_resolver = \<lparr>rv_Name = ''1.1.1.1'', rv_Kind = KindUDP,
     rv_Lookup = (\<lambda>timeout host. (if host = ''example.com'' then Inr [V4 16909060] else Inl timeout_err, 5))\<rparr>"

definition sample_target :: target where
  "sample_target = no_target\<lparr>target_Host := ''x.com''\<rparr>"

theorem poisoning_reported_witness:
  "let D = Decide (verdict_input (config_of sample_resolvers) no_shared
       (fst (checkTarget (config_of sample_resolvers) dead_net sample_target no_shared)))
   in is_dns_verdict (d_Verdict D) \<or> d_Also D \<noteq> [] \<or> d_Verdict D = LocalNetworkDown"
proof -
  let ?st = "fst (checkTarget (config_of sample_resolvers) dead_net sample_target no_shared)"
  have 1: "dr_Public (rn_dns ?st) \<noteq> []" and 2: "answer_OK (hd (dr_Public (rn_dns ?st)))"
    and 3: "V4 (v4_of 10 10 34 34) \<in> set (da_Addrs (hd (dr_Public (rn_dns ?st))))"
    by code_simp+
  have 4: "IsBlockIP (the (cfg_Signatures (config_of sample_resolvers))) (V4 (v4_of 10 10 34 34))"
    by code_simp
  have "hd (dr_Public (rn_dns ?st)) \<in> set (plain (rn_dns ?st))"
    using 1 by (simp add: plain_def)
  from poisoning_reported [OF this 2 3 4] show ?thesis by (simp only: Let_def)
qed

text \<open>A dropped target leaves nothing for the later layers: no reference, no suspects, no other DNS problem.\<close>

lemma dropped_analysis:
  assumes R: "checkTarget cfg net t sh = (st, sh')" and D: "an_Dropped (rn_analysis st)"
  shows "an_AllPlainTimeout (rn_analysis st)"
    and "\<exists>ctl. rn_control st = Some ctl \<and> (\<exists>a \<in> set (plain ctl). answer_OK a)"
    and "rn_tcp st = []" and "\<not> dns_problem (verdict_input cfg sh2 st)"
proof -
  obtain st1 sh1 st2 where L: "dns_layer cfg t sh = (st1, sh1)"
    "service_layers cfg net t (tcp_layer cfg net (verify_layer cfg net t st1)) sh1 = (st2, sh')"
    "st = outage_layer net t st2"
    using R by (rule checkTarget_layers)
  note f = service_layers_fields [OF L(2)]
  have same: "rn_analysis st1 = rn_analysis st" "rn_control st1 = rn_control st" "rn_dns st = rn_dns st1"
    by (simp_all add: L(3) f)
  note drop = dns_layer_dropped [OF L(1) D [folded same(1)]]
  show "an_AllPlainTimeout (rn_analysis st)"
    and "\<exists>ctl. rn_control st = Some ctl \<and> (\<exists>a \<in> set (plain ctl). answer_OK a)"
    using drop by (auto simp: same plain_def)
  let ?A = "Analyze (rn_dns st1) (the (cfg_Signatures cfg))"
  have ref: "an_Reference ?A = []" "an_BlockIPs ?A = []" "an_Bogons ?A = []"
    using drop dns_layer_fields(11) [OF L(1)] Analyze_fields(1,3,4,8) by metis+
  have "an_Reference (rn_analysis st) = []"
    using dns_layer_fields(10) [OF L(1)] ref(1) by (simp add: same)
  then show "rn_tcp st = []"
    unfolding checkTarget_tcp(1) [OF R] by (simp add: ProbeAll_def)
  obtain x where A: "rn_analysis st = ?A\<lparr>an_Dropped := x\<rparr>"
    using checkTarget_analysis [OF R] by (auto simp: same(3))
  have "\<not> Poisoned (rn_analysis st)" "an_SystemFailure (rn_analysis st) = []" "an_Suspects (rn_analysis st) = []"
    unfolding A using ref Analyze_fields(1,5,7) [of "rn_dns st1" "the (cfg_Signatures cfg)"]
    by (simp_all add: Poisoned_def)
  then show "\<not> dns_problem (verdict_input cfg sh2 st)"
    by (simp add: dns_problem_def mismatch_def verdict_input_def)
qed

text \<open>
  What dropping looks like to the resolvers: none of them, encrypted ones included, has an address
  for the host, public ones were asked, every plain lookup that was made timed out, and a plain
  resolver answers the control name. The run-wide control lookup asks the plain resolvers only.
\<close>

definition control_answers :: "config \<Rightarrow> dns_result" where
  "control_answers cfg =
     resolved (cfg_ControlName cfg)
       \<lparr>rs_System = rs_System (cfg_Resolvers cfg), rs_Public = rs_Public (cfg_Resolvers cfg), rs_DoH = []\<rparr>
       (cfg_Timeout cfg)"

definition queries_dropped :: "config \<Rightarrow> string \<Rightarrow> bool" where
  "queries_dropped cfg host \<longleftrightarrow>
     (let dns = resolved host (cfg_Resolvers cfg) (cfg_Timeout cfg) in
      list_all (\<lambda>ans. \<not> answer_OK ans) (dr_DoH dns @ plain dns) \<and> rs_Public (cfg_Resolvers cfg) \<noteq> []
      \<and> list_all (\<lambda>ans. da_Resolver ans = [] \<or> FailureKind ans = ''timeout'') (plain dns)
      \<and> list_ex answer_OK (plain (control_answers cfg)))"

lemma dns_layer_dropped_iff:
  assumes "sh_control sh \<in> {None, Some (control_answers cfg)}"
  shows "an_Dropped (rn_analysis (fst (dns_layer cfg t sh))) \<longleftrightarrow> queries_dropped cfg (target_Host t)"
proof -
  let ?dns = "resolved (target_Host t) (cfg_Resolvers cfg) (cfg_Timeout cfg)"
  let ?A = "Analyze ?dns (the (cfg_Signatures cfg))"
  have any: "any_answer_OK as \<longleftrightarrow> list_ex answer_OK as" for as
    by (induction as) auto
  have ctl: "\<exists>sh'. controlResolves cfg sh = (control_answers cfg, list_ex answer_OK (plain (control_answers cfg)), sh')"
    using assms by (auto simp: controlResolves_def control_answers_def plain_def any Resolve_resolved Let_def)
  have pub: "dr_Public ?dns \<noteq> [] \<longleftrightarrow> rs_Public (cfg_Resolvers cfg) \<noteq> []" by (simp add: resolved_def)
  have "an_Dropped (rn_analysis (fst (dns_layer cfg t sh))) \<longleftrightarrow>
      an_Unresolvable ?A \<and> an_AllPlainTimeout ?A \<and> list_ex answer_OK (plain (control_answers cfg))"
    using ctl Analyze_fields(11) [of ?dns "the (cfg_Signatures cfg)"]
    by (auto simp: dns_layer_def Resolve_resolved Let_def)
  also have "\<dots> \<longleftrightarrow> queries_dropped cfg (target_Host t)"
    unfolding queries_dropped_def Let_def Analyze_unresolvable Analyze_fields(10) pub list_all_append
    by (auto simp: list_all_iff)
  finally show ?thesis .
qed

lemma dropped_verdict:
  assumes "down_of inp = None"
  shows "d_Verdict (Decide inp) = DNSIntercepted \<and> reason_Key (d_Reason (Decide inp)) = ''dns.dropped'' \<longleftrightarrow>
    an_Dropped (in_DNS inp) \<and> dnsDecision inp = None \<and> path_of inp = None"
proof -
  have dns: "reason_Key (d_Reason d) \<noteq> ''dns.dropped''" if "dnsDecision inp = Some d" for d
    using that by (auto simp: dnsDecision_def decide_def Let_def split: if_splits)
  show ?thesis
    using dns path_not_dns [of inp]
    by (auto simp: Decide_combine [OF assms] combine_def decide_def outageDecision_def split: option.splits)
qed



end
