(* ===== verification/Evidence.thy ===== *)
theory Evidence
  imports Probe Gonet
begin

text \<open>
  Package probe, file evidence.go: the list of findings shown with \<^verbatim>\<open>--verbose\<close> and in the
  JSON and Markdown reports. One definition per block of the function, in its order; the
  result is \<^const>\<open>None\<close> where the code would slice an empty list. Format verbs are written
  out; \<open>go_quote\<close> is \<^verbatim>\<open>%q\<close> on text whose non-ASCII part is printable.
\<close>

section \<open>Formatting\<close>

definition ev :: "string \<Rightarrow> string \<Rightarrow> status \<Rightarrow> string \<Rightarrow> evidence" where
  "ev layer chk s detail = \<lparr>ev_Layer = layer, ev_Check = chk, ev_Status = s, ev_Detail = detail\<rparr>"

lemma ev_simps [simp]:
  "ev_Layer (ev l c s d) = l" "ev_Check (ev l c s d) = c"
  "ev_Status (ev l c s d) = s" "ev_Detail (ev l c s d) = d"
  by (simp_all add: ev_def)

definition ms :: "int \<Rightarrow> string" where
  "ms d = dur_String (dur_round d Millisecond)"

definition addrList :: "addr list \<Rightarrow> string" where
  "addrList addrs = (if addrs = [] then ''-'' else str_join (map addr_String addrs) '', '')"

definition locationSuffix :: "string \<Rightarrow> string" where
  "locationSuffix loc = (if loc = [] then [] else '' -> '' @ loc)"

definition dnsErr :: "dns_answer \<Rightarrow> string" where
  "dnsErr a =
     (if FailureKind a = ''nxdomain'' then ''NXDOMAIN''
      else if FailureKind a = ''noanswer'' then ''no addresses''
      else if FailureKind a = ''timeout'' then ''timeout''
      else Short (da_Err a))"

definition handshakeDetail :: "handshake \<Rightarrow> string" where
  "handshakeDetail h =
     (case hs_Outcome h of
        TlsOK \<Rightarrow> hs_Version h @ '' in '' @ ms (hs_Duration h) @ '', issuer '' @ go_quote (hs_Issuer h)
      | TlsCertInvalid \<Rightarrow> ''certificate invalid ('' @ hs_CertProblem h @ ''), issuer '' @ go_quote (hs_Issuer h)
                          @ '': '' @ Short (hs_Err h)
      | TlsAlert \<Rightarrow> ''server sent TLS alert: ''
                    @ (case hs_Err h of None \<Rightarrow> ''<nil>'' | Some e \<Rightarrow> err_text e)
      | oc \<Rightarrow> tls_outcome_text oc @ '' after '' @ ms (hs_Duration h) @ '' ('' @ Short (hs_Err h) @ '')'')"

fun addr_contains :: "addr list \<Rightarrow> addr \<Rightarrow> bool" where
  "addr_contains [] a = False"
| "addr_contains (x # xs) a = (if x = a then True else addr_contains xs a)"

section \<open>The local network and the interception test\<close>

definition baseline_evidence :: "baseline_probe \<Rightarrow> evidence" where
  "baseline_evidence p =
     (if bl_OK p then ev ''local'' (''baseline '' @ bl_Addr p) Pass (''connected in '' @ ms (bl_Duration p))
      else ev ''local'' (''baseline '' @ bl_Addr p) Warn (Short (bl_Err p)))"

definition local_evidence :: "local_result option \<Rightarrow> evidence list" where
  "local_evidence lo =
     (case lo of
        None \<Rightarrow> []
      | Some l \<Rightarrow>
          (case Down l of (down, why) \<Rightarrow>
             if down then [ev ''local'' ''connectivity'' Fail (''local network down: '' @ why)]
             else [ev ''local'' ''connectivity'' Pass ''default route present''])
          @ map baseline_evidence (lr_Baseline l)
          @ (if 0 < length (VPNNames l)
             then [ev ''local'' ''vpn'' Info (''VPN-like interfaces: '' @ str_join (VPNNames l) '', '')] else [])
          @ (if 0 < length (lr_ProxyEnv l)
             then [ev ''local'' ''proxy env'' Info (''set: '' @ str_join (lr_ProxyEnv l) '', '')] else [])
          @ (if lr_SystemProxy l \<noteq> [] then [ev ''local'' ''system proxy'' Info (lr_SystemProxy l)] else []))"

definition intercept_evidence :: "interception option \<Rightarrow> evidence list" where
  "intercept_evidence ic =
     (case ic of
        None \<Rightarrow> []
      | Some i \<Rightarrow>
          if ic_Detected i
          then [ev ''dns'' ''interception'' Fail (''query to non-DNS address '' @ ic_Probe i
                  @ '' was answered ('' @ addrList (ic_Addrs i) @ '')'')]
          else [ev ''dns'' ''interception'' Pass (''no answer from non-DNS address '' @ ic_Probe i)])"

section \<open>DNS\<close>

definition answer_status :: "analysis \<Rightarrow> nat \<Rightarrow> dns_answer \<Rightarrow> status" where
  "answer_status a i ans =
     (let st = foldl (\<lambda>s ip. if addr_contains (an_BlockIPs a) ip \<or> addr_contains (an_Bogons a) ip then Fail else s)
                 Pass (da_Addrs ans)
      in if i = 0 \<and> 0 < length (an_Suspects a) then Warn else st)"

definition answer_evidence :: "analysis \<Rightarrow> nat \<times> dns_answer \<Rightarrow> evidence list" where
  "answer_evidence a ians =
     (case ians of (i, ans) \<Rightarrow>
        if da_Resolver ans = [] then []
        else if \<not> answer_OK ans then
          [ev ''dns'' (da_Resolver ans) Fail (dnsErr ans @ '' after '' @ ms (da_Duration ans))]
        else [ev ''dns'' (da_Resolver ans) (answer_status a i ans)
                (addrList (da_Addrs ans) @ '' in '' @ ms (da_Duration ans))])"

definition analysis_evidence :: "analysis \<Rightarrow> evidence" where
  "analysis_evidence a =
     (if 0 < length (an_BlockIPs a) then
        ev ''dns'' ''analysis'' Fail (''answer contains known block-page address '' @ addrList (an_BlockIPs a))
      else if 0 < length (an_Bogons a) then
        ev ''dns'' ''analysis'' Fail (''answer contains private/reserved address '' @ addrList (an_Bogons a)
          @ '' while reference is public'')
      else if 0 < length (an_Suspects a) then
        ev ''dns'' ''analysis'' Warn (''system answer '' @ addrList (an_Suspects a)
          @ '' differs from reference '' @ addrList (an_Reference a))
      else if an_Unresolvable a then ev ''dns'' ''analysis'' Fail ''no resolver returned an address''
      else ev ''dns'' ''analysis'' Pass (''reference addresses from ''
        @ resolver_kind_text (an_ReferenceKind a) @ '': '' @ addrList (an_Reference a)))"

definition control_evidence :: "run \<Rightarrow> evidence list" where
  "control_evidence st =
     (case rn_control st of
        None \<Rightarrow> []
      | Some c \<Rightarrow>
          if an_Dropped (rn_analysis st)
          then [ev ''dns'' ''control'' Fail (''every resolver timed out for '' @ target_Host (rn_target st)
                  @ '', but they answer '' @ dr_Host c @ '': queries for this name are dropped'')]
          else [ev ''dns'' ''control'' Warn (''resolvers also time out for '' @ dr_Host c
                  @ '': plain DNS is not working at all'')])"

text \<open>\<^verbatim>\<open>a.Suspects[:1]\<close> panics on an empty list: \<^const>\<open>None\<close>.\<close>

definition verify_evidence :: "run \<Rightarrow> evidence list option" where
  "verify_evidence st =
     (case rn_verify st of
        None \<Rightarrow> Some []
      | Some v \<Rightarrow>
          (case an_Suspects (rn_analysis st) of
             [] \<Rightarrow> None
           | s # _ \<Rightarrow>
               if hs_Outcome v = TlsOK
               then Some [ev ''dns'' ''verify system IP'' Pass (addrList [s] @ '' serves a valid certificate for ''
                            @ target_Host (rn_target st) @ '' (CDN variation)'')]
               else Some [ev ''dns'' ''verify system IP'' Fail (addrList [s] @ '': '' @ handshakeDetail v)]))"

definition dns_evidence :: "run \<Rightarrow> evidence list option" where
  "dns_evidence st =
     (if rn_resolved st then
        (let a = rn_analysis st;
             answers = dr_System (rn_dns st) # dr_Public (rn_dns st) @ dr_DoH (rn_dns st)
         in map_option (\<lambda>vs.
              concat (map (answer_evidence a) (enumerate 0 answers))
              @ [analysis_evidence a]
              @ (if an_DoHUnavailable a
                 then [ev ''dns'' ''doh'' Warn ''no DoH resolver could be reached; reference addresses come from plain DNS, which is less trustworthy'']
                 else [])
              @ control_evidence st
              @ (if an_InjectedPublic a
                 then [ev ''dns'' ''injection'' Fail ''plain UDP queries to public resolvers get rewritten answers; DoH does not'']
                 else [])
              @ vs) (verify_evidence st))
      else Some [])"

section \<open>TCP, TLS and HTTP\<close>

definition tcp_evidence :: "run \<Rightarrow> evidence list" where
  "tcp_evidence st =
     map (\<lambda>t. if tcp_Outcome t = TcpOK
              then ev ''tcp'' (addr_port_String (tcp_Addr t)) Pass (''connected in '' @ ms (tcp_Duration t))
              else ev ''tcp'' (addr_port_String (tcp_Addr t)) Fail (tcp_outcome_text (tcp_Outcome t)
                     @ '' after '' @ ms (tcp_Duration t) @ '' ('' @ Short (tcp_Err t) @ '')'')) (rn_tcp st)
     @ (if rn_resolved st \<and> 0 < length (an_Reference (rn_analysis st)) \<and> length (rn_tcp st) = 0
        then [ev ''tcp'' ''connect'' Skip ''no reference address to connect to''] else [])"

text \<open>One handshake; the flag says that it is the one with the real name.\<close>

definition handshake_evidence :: "bool \<Rightarrow> handshake option \<Rightarrow> evidence list" where
  "handshake_evidence is_real ho =
     (case ho of
        None \<Rightarrow> []
      | Some h \<Rightarrow>
          [ev ''tls'' (if hs_SNI h = [] then ''no sni'' else ''sni='' @ hs_SNI h)
             (if hs_Outcome h = TlsOK then Pass else if \<not> is_real \<and> Reached h then Pass else Fail)
             (handshakeDetail h)])"

definition tls_evidence :: "run \<Rightarrow> evidence list" where
  "tls_evidence st =
     (case rn_tls st of
        None \<Rightarrow> []
      | Some t \<Rightarrow>
          handshake_evidence True (Some (tls_Real t)) @ handshake_evidence False (tls_Neutral t)
          @ handshake_evidence False (tls_NoSNI t)
          @ (if SNI_filtered t
             then [ev ''tls'' ''analysis'' Fail ''real SNI blocked while the same address answers other names'']
             else []))"

definition http_evidence :: "run \<Rightarrow> evidence list" where
  "http_evidence st =
     (case rn_http st of
        None \<Rightarrow> []
      | Some h \<Rightarrow>
          (case hr_Class h of
             HttpFailed \<Rightarrow>
               [ev ''http'' (''GET '' @ hr_URL h) Fail (errkind_text (hr_ErrKind h) @ '' after ''
                  @ ms (hr_Duration h) @ '' ('' @ Short (hr_Err h) @ '')'')]
           | HttpOK \<Rightarrow>
               [ev ''http'' (''GET '' @ hr_URL h) Pass (''HTTP '' @ itoa (hr_Status h) @ '' in ''
                  @ ms (hr_Duration h) @ locationSuffix (hr_Location h))]
           | cls \<Rightarrow>
               [ev ''http'' (''GET '' @ hr_URL h) Fail (''HTTP '' @ itoa (hr_Status h) @ '' classified as ''
                  @ http_class_text cls
                  @ (if hr_Signature h \<noteq> [] then '', signature '' @ hr_Signature h else [])
                  @ locationSuffix (hr_Location h))])
          @ (if hr_Snippet h \<noteq> [] \<and> hr_Class h \<noteq> HttpOK then [ev ''http'' ''body'' Info (hr_Snippet h)] else []))"

section \<open>Speed and outages\<close>

definition measurement_evidence :: "string \<Rightarrow> measurement \<Rightarrow> evidence" where
  "measurement_evidence name m =
     (if sm_Err m \<noteq> None then ev ''speed'' name Warn (sm_URL m @ '': '' @ Short (sm_Err m))
      else ev ''speed'' name Info (''HTTP '' @ itoa (sm_Status m) @ '', '' @ itoa (sm_Bytes m) @ '' bytes in ''
             @ ms (sm_Duration m) @ '' ('' @ FormatRate (Rate m) @ ''), TLS handshake '' @ ms (sm_Handshake m)))"

definition speed_evidence :: "run \<Rightarrow> evidence list" where
  "speed_evidence st =
     (case rn_speed st of
        None \<Rightarrow> []
      | Some sp \<Rightarrow>
          [measurement_evidence ''target'' (sr_Target sp), measurement_evidence ''baseline'' (sr_Baseline sp),
           if sr_Throttled sp
           then ev ''speed'' ''analysis'' Fail (''severe '' @ speed_kind_text (sr_Kind sp)
                  @ '' degradation compared with the baseline'')
           else ev ''speed'' ''analysis'' Pass ''no severe degradation detected''])"

definition outage_evidence :: "run \<Rightarrow> evidence list" where
  "outage_evidence st =
     (case rn_outage st of
        None \<Rightarrow> []
      | Some o1 \<Rightarrow>
          [if or_Err o1 \<noteq> None then
             ev ''outage'' ''status page'' Warn (or_URL o1 @ '': '' @ Short (or_Err o1) @ '' (inconclusive)'')
           else if Confirmed o1 then
             ev ''outage'' ''status page'' Fail (or_URL o1 @ '': '' @ or_Description o1
               @ '' ('' @ or_Indicator o1 @ '')'')
           else ev ''outage'' ''status page'' Pass (or_URL o1 @ '': '' @ or_Description o1)])"

definition evidence_of :: "shared \<Rightarrow> run \<Rightarrow> evidence list option" where
  "evidence_of sh st =
     (case dns_evidence st of
        None \<Rightarrow> None
      | Some ds \<Rightarrow>
          Some (local_evidence (sh_local sh) @ intercept_evidence (sh_intercept sh) @ ds
                @ tcp_evidence st @ tls_evidence st @ http_evidence st @ speed_evidence st
                @ outage_evidence st))"

section \<open>Facts\<close>

lemma addr_contains_iff [simp]: "addr_contains xs a \<longleftrightarrow> a \<in> set xs"
  by (induction xs) auto

lemma answer_status_eq:
  "answer_status a i ans =
     (if i = 0 \<and> an_Suspects a \<noteq> [] then Warn
      else if \<exists>ip \<in> set (da_Addrs ans). ip \<in> set (an_BlockIPs a) \<union> set (an_Bogons a) then Fail else Pass)"
proof -
  have "foldl (\<lambda>s ip. if addr_contains (an_BlockIPs a) ip \<or> addr_contains (an_Bogons a) ip then Fail else s) s ips =
      (if \<exists>ip \<in> set ips. ip \<in> set (an_BlockIPs a) \<union> set (an_Bogons a) then Fail else s)" for s ips
    by (induction ips arbitrary: s) auto
  then show ?thesis by (simp only: answer_status_def Let_def length_greater_0_conv)
qed

lemma verify_evidence_Some:
  "rn_verify st \<noteq> None \<longleftrightarrow> an_Suspects (rn_analysis st) \<noteq> [] \<Longrightarrow> verify_evidence st \<noteq> None"
  by (auto simp: verify_evidence_def split: option.splits list.splits)

lemma evidence_of_None: "evidence_of sh st = None \<longleftrightarrow> rn_resolved st \<and> verify_evidence st = None"
  by (simp add: evidence_of_def dns_evidence_def Let_def split: option.splits)

definition no_skip :: "evidence list \<Rightarrow> bool" where
  "no_skip es \<longleftrightarrow> Skip \<notin> ev_Status ` set es"

lemma no_skip_simps [simp]:
  "no_skip []" "no_skip (e # es) \<longleftrightarrow> ev_Status e \<noteq> Skip \<and> no_skip es"
  "no_skip (xs @ ys) \<longleftrightarrow> no_skip xs \<and> no_skip ys"
  by (auto simp: no_skip_def)

lemma no_skip_map: "(\<And>x. ev_Status (f x) \<noteq> Skip) \<Longrightarrow> no_skip (map f xs)"
  by (induction xs) simp_all

lemma no_skip_concat: "(\<And>x. no_skip (f x)) \<Longrightarrow> no_skip (concat (map f xs))"
  by (induction xs) simp_all

lemma no_skip_local [simp]: "no_skip (local_evidence l)"
  by (simp add: local_evidence_def baseline_evidence_def no_skip_map split: option.splits prod.splits)

lemma no_skip_answer: "no_skip (answer_evidence a ians)"
  by (simp add: answer_evidence_def answer_status_eq split: prod.splits)

lemma no_skip_dns: "dns_evidence st = Some ds \<Longrightarrow> no_skip ds"
  by (auto simp: dns_evidence_def verify_evidence_def control_evidence_def analysis_evidence_def
      no_skip_concat [OF no_skip_answer] Let_def simp del: enumerate_simps
      split: if_splits option.splits list.splits)

lemma no_skip_rest [simp]:
  "no_skip (intercept_evidence i)" "no_skip (tls_evidence st)" "no_skip (http_evidence st)"
  "no_skip (speed_evidence st)" "no_skip (outage_evidence st)"
  by (simp_all add: intercept_evidence_def tls_evidence_def handshake_evidence_def http_evidence_def
      speed_evidence_def measurement_evidence_def outage_evidence_def split: option.splits http_class.splits)

lemma no_skip_tcp: "an_Reference (rn_analysis st) = [] \<or> rn_tcp st \<noteq> [] \<Longrightarrow> no_skip (tcp_evidence st)"
  by (auto simp: tcp_evidence_def no_skip_map)

lemma evidence_total:
  "\<exists>es. evidence_of sh2 (fst (checkTarget cfg net t sh)) = Some es"
proof -
  obtain st sh' where R: "checkTarget cfg net t sh = (st, sh')" by fastforce
  have "verify_evidence st \<noteq> None"
    using checkTarget_service(5) [OF R] by (rule verify_evidence_Some)
  then show ?thesis
    using evidence_of_None [of sh2 st] by (cases "evidence_of sh2 st") (auto simp: R)
qed

text \<open>
  Claim C22. Building the evidence of a target that went through the layers never panics, whatever
  the run-wide checks found, and never reports a skipped connection: the guard of that entry (a
  reference address is known but nothing was probed) cannot hold, and a target without any
  reference address, for which the entry is worded, is not the guard's case.
\<close>

theorem evidence_total_no_skip:
  "\<exists>es. evidence_of sh2 (fst (checkTarget (fillDefaults b cfg) net t sh)) = Some es
      \<and> Skip \<notin> ev_Status ` set es"
proof -
  let ?cfg = "fillDefaults b cfg"
  obtain st sh' where R: "checkTarget ?cfg net t sh = (st, sh')" by fastforce
  obtain es where es: "evidence_of sh2 st = Some es"
    using evidence_total [of sh2 ?cfg net t sh] by (auto simp: R)
  have nn: "0 \<le> cfg_MaxAddrs ?cfg"
    by (rule less_imp_le) simp
  have tcp: "an_Reference (rn_analysis st) = [] \<or> rn_tcp st \<noteq> []"
  proof -
    have "pick_addrs ?cfg (an_Reference (rn_analysis st)) [] =
        map (addrPort ?cfg) (take (nat (cfg_MaxAddrs ?cfg)) (an_Reference (rn_analysis st)))"
      using nn by (simp add: pick_addrs_eq)
    moreover have "length (ProbeAll d as) = length as" for d as by simp
    ultimately have "length (rn_tcp st) = min (length (an_Reference (rn_analysis st))) (nat (cfg_MaxAddrs ?cfg))"
      by (simp add: checkTarget_tcp(1) [OF R])
    moreover have "nat (cfg_MaxAddrs ?cfg) \<noteq> 0" by (simp add: not_le)
    ultimately show ?thesis
      by (cases "an_Reference (rn_analysis st) = []") (auto simp: min_def split: if_splits)
  qed
  have "no_skip es"
    using es no_skip_tcp [OF tcp] no_skip_dns [of st]
    by (auto simp: evidence_of_def split: option.splits)
  then have "Skip \<notin> ev_Status ` set es" by (simp only: no_skip_def not_False_eq_True)
  with es show ?thesis by (simp add: R)
qed

end
