(* ===== verification/Runner.thy ===== *)
theory Runner
  imports Evidence
begin

text \<open>
  Package probe, the concurrent part of probe.go: \<open>Run\<close> as a state machine. A state holds the
  shared results, which run-wide goroutines are still at work, whether the channel \<^verbatim>\<open>done\<close> is
  closed, how many semaphore slots are taken, where each target's goroutine is, and the two
  result slices. An event is one goroutine taking its next step; \<open>exec\<close> is \<^const>\<open>None\<close> when
  the event is not enabled, so a run is any list of enabled events. The layers of one target are
  one event: they share only the two \<^verbatim>\<open>sync.Once\<close> values, whose value does not depend on who
  computes it (\<open>checkTarget_shared\<close>).

  The theorems: the semaphore bounds the checks in progress, no decision reads a run-wide result
  before it is final, no reachable state is stuck and every run ends, and whatever the schedule
  the report is the one of the sequential specification \<open>report_spec\<close>.
\<close>

section \<open>The decision of one target\<close>

text \<open>\<^verbatim>\<open>decide\<close>: the verdict with its evidence (\<^const>\<open>None\<close>: building the evidence panics).\<close>

definition run_decide :: "config \<Rightarrow> shared \<Rightarrow> run \<Rightarrow> target_report option" where
  "run_decide cfg sh st =
     (let d = Decide (verdict_input cfg sh st) in
      case evidence_of sh st of
        None \<Rightarrow> None
      | Some es \<Rightarrow>
          Some \<lparr>tr_Target = rn_target st, tr_Verdict = d_Verdict d, tr_Confidence = d_Confidence d,
                tr_Reason = d_Reason d, tr_Also = d_Also d, tr_Evidence = es, tr_Duration = 0\<rparr>)"

section \<open>State and events\<close>

text \<open>
  What the run observes: the network of the targets, the interception query (its identifier and
  the socket, for the time it is given), the machine, the clock, and the platform names.
\<close>

record run_env =
  re_net :: network
  re_qid :: "16 word"
  re_udp :: "int \<Rightarrow> udp_obs"
  re_local :: local_env
  re_duration :: "nat \<Rightarrow> int"
  re_started :: int
  re_total :: int
  re_os :: string
  re_arch :: string

datatype target_pc = Waiting | Checking | Checked run | Released run | Finished

record run_state =
  st_shared :: shared
  st_intercepting :: bool
  st_localing :: bool
  st_done :: bool
  st_sem :: nat
  st_pcs :: "target_pc list"
  st_dohDown :: "bool list"
  st_reports :: "target_report option list"

datatype event = EvIntercept | EvLocal | EvClose | EvAcquire nat | EvCheck nat | EvRelease nat | EvDecide nat

definition interceptionTimeout :: int where "interceptionTimeout = 2 * Second"

definition run_intercept :: "config \<Rightarrow> run_env \<Rightarrow> interception" where
  "run_intercept cfg env =
     CheckInterception (re_qid env) (re_udp env (min (cfg_Timeout cfg) interceptionTimeout))
       (cfg_InterceptionProbe cfg)"

definition run_local :: "config \<Rightarrow> run_env \<Rightarrow> local_result" where
  "run_local cfg env = local_Check (re_local env) (the (cfg_Local cfg))"

definition init_state :: "config \<Rightarrow> target list \<Rightarrow> run_state" where
  "init_state cfg ts =
     \<lparr>st_shared = no_shared, st_intercepting = (cfg_InterceptionProbe cfg \<noteq> []),
      st_localing = (cfg_Local cfg \<noteq> None), st_done = False, st_sem = 0,
      st_pcs = replicate (length ts) Waiting, st_dohDown = replicate (length ts) False,
      st_reports = replicate (length ts) None\<rparr>"

fun exec :: "config \<Rightarrow> run_env \<Rightarrow> target list \<Rightarrow> event \<Rightarrow> run_state \<Rightarrow> run_state option" where
  "exec cfg env ts EvIntercept s =
     (if st_intercepting s
      then Some (s\<lparr>st_shared := (st_shared s)\<lparr>sh_intercept := Some (run_intercept cfg env)\<rparr>,
                   st_intercepting := False\<rparr>)
      else None)"
| "exec cfg env ts EvLocal s =
     (if st_localing s
      then Some (s\<lparr>st_shared := (st_shared s)\<lparr>sh_local := Some (run_local cfg env)\<rparr>, st_localing := False\<rparr>)
      else None)"
| "exec cfg env ts EvClose s =
     (if \<not> st_intercepting s \<and> \<not> st_localing s \<and> \<not> st_done s then Some (s\<lparr>st_done := True\<rparr>) else None)"
| "exec cfg env ts (EvAcquire i) s =
     (if i < length ts \<and> st_pcs s ! i = Waiting \<and> int (st_sem s) < cfg_Concurrency cfg
      then Some (s\<lparr>st_pcs := (st_pcs s)[i := Checking], st_sem := Suc (st_sem s)\<rparr>)
      else None)"
| "exec cfg env ts (EvCheck i) s =
     (if i < length ts \<and> st_pcs s ! i = Checking
      then (case checkTarget cfg (re_net env) (ts ! i) (st_shared s) of (st, sh') \<Rightarrow>
              Some (s\<lparr>st_shared := sh', st_pcs := (st_pcs s)[i := Checked st],
                      st_dohDown := (st_dohDown s)[i := an_DoHUnavailable (rn_analysis st)]\<rparr>))
      else None)"
| "exec cfg env ts (EvRelease i) s =
     (if i < length ts
      then (case st_pcs s ! i of
              Checked st \<Rightarrow> Some (s\<lparr>st_pcs := (st_pcs s)[i := Released st], st_sem := st_sem s - 1\<rparr>)
            | _ \<Rightarrow> None)
      else None)"
| "exec cfg env ts (EvDecide i) s =
     (if i < length ts \<and> st_done s
      then (case st_pcs s ! i of
              Released st \<Rightarrow>
                Some (s\<lparr>st_pcs := (st_pcs s)[i := Finished],
                        st_reports := (st_reports s)[i := map_option (\<lambda>tr. tr\<lparr>tr_Duration := re_duration env i\<rparr>)
                          (run_decide cfg (st_shared s) st)]\<rparr>)
            | _ \<Rightarrow> None)
      else None)"

fun exec_all :: "config \<Rightarrow> run_env \<Rightarrow> target list \<Rightarrow> event list \<Rightarrow> run_state \<Rightarrow> run_state option" where
  "exec_all cfg env ts [] s = Some s"
| "exec_all cfg env ts (e # es) s =
     (case exec cfg env ts e s of None \<Rightarrow> None | Some s' \<Rightarrow> exec_all cfg env ts es s')"

text \<open>Both waits of the main goroutine are over.\<close>

definition complete :: "run_state \<Rightarrow> bool" where
  "complete s \<longleftrightarrow> st_done s \<and> (\<forall>pc \<in> set (st_pcs s). pc = Finished)"

definition final_report :: "config \<Rightarrow> run_env \<Rightarrow> target list \<Rightarrow> run_state \<Rightarrow> report" where
  "final_report cfg env ts s =
     \<lparr>rep_Version = cfg_Version cfg, rep_Started = re_started env, rep_Duration = re_total env,
      rep_OS = re_os env, rep_Arch = re_arch env,
      rep_Local = (localSummary (st_shared s) (cfg_ProxyInUse cfg))
        \<lparr>ls_DoHUnreachable := foldl (\<lambda>b down. b \<and> down) (0 < length ts) (st_dohDown s)\<rparr>,
      rep_Targets = map the (st_reports s)\<rparr>"

inductive reachable :: "config \<Rightarrow> run_env \<Rightarrow> target list \<Rightarrow> run_state \<Rightarrow> bool"
  for cfg env ts where
  start: "reachable cfg env ts (init_state cfg ts)"
| step: "reachable cfg env ts s \<Longrightarrow> exec cfg env ts e s = Some s' \<Longrightarrow> reachable cfg env ts s'"

lemma exec_all_reachable:
  "reachable cfg env ts s \<Longrightarrow> exec_all cfg env ts es s = Some s' \<Longrightarrow> reachable cfg env ts s'"
  by (induction es arbitrary: s) (auto split: option.splits intro: reachable.step)

section \<open>The shared once values\<close>

definition control_of :: "config \<Rightarrow> dns_result" where
  "control_of cfg =
     Resolve (cfg_ControlName cfg)
       \<lparr>rs_System = rs_System (cfg_Resolvers cfg), rs_Public = rs_Public (cfg_Resolvers cfg), rs_DoH = []\<rparr>
       (cfg_Timeout cfg)"

definition baseline_of :: "config \<Rightarrow> network \<Rightarrow> measurement" where
  "baseline_of cfg net =
     speed_Measure (net_Download net [] (cfg_SpeedBaselineURL cfg)) (cfg_SpeedBaselineURL cfg)"

definition once_ok :: "config \<Rightarrow> network \<Rightarrow> shared \<Rightarrow> bool" where
  "once_ok cfg net sh \<longleftrightarrow>
     (sh_control sh = None \<or> sh_control sh = Some (control_of cfg))
     \<and> (sh_baseline sh = None \<or> sh_baseline sh = Some (baseline_of cfg net))"

lemma controlResolves_once:
  assumes "once_ok cfg net sh"
  shows "controlResolves cfg sh =
    (control_of cfg, any_answer_OK (dr_System (control_of cfg) # dr_Public (control_of cfg)),
     sh\<lparr>sh_control := Some (control_of cfg)\<rparr>)"
  using assms by (auto simp: controlResolves_def control_of_def once_ok_def Let_def)

lemma measureSpeed_once:
  assumes "once_ok cfg net sh"
  shows "measureSpeed cfg net t addr sh =
    (fst (measureSpeed cfg net t addr no_shared), sh\<lparr>sh_baseline := Some (baseline_of cfg net)\<rparr>)"
  using assms by (auto simp: measureSpeed_def baseline_of_def once_ok_def no_shared_def Let_def)

lemma once_ok_no_shared [simp]: "once_ok cfg net no_shared"
  by (simp add: once_ok_def no_shared_def)

lemma dns_layer_once:
  assumes "once_ok cfg net sh"
  shows "fst (dns_layer cfg t sh) = fst (dns_layer cfg t no_shared)"
    and "once_ok cfg net (snd (dns_layer cfg t sh))"
    and "sh_intercept (snd (dns_layer cfg t sh)) = sh_intercept sh"
    and "sh_local (snd (dns_layer cfg t sh)) = sh_local sh"
  using assms
  by (simp_all add: dns_layer_def controlResolves_once [OF assms]
      controlResolves_once [OF once_ok_no_shared] Let_def once_ok_def)

lemma service_layers_unfold:
  assumes "ts_Working (Summarize (rn_tcp st)) = Some w"
  shows "\<exists>st2 go. \<forall>sh. service_layers cfg net t st sh =
     (if go then (st2\<lparr>rn_speed := Some (fst (measureSpeed cfg net t (addr_port_String (tcp_Addr w)) sh))\<rparr>,
                  snd (measureSpeed cfg net t (addr_port_String (tcp_Addr w)) sh))
      else (st2, sh))"
  unfolding service_layers_def Let_def case_prod_beta assms option.case
  by (intro exI allI) (rule refl)

lemma service_layers_once:
  assumes "once_ok cfg net sh"
  shows "fst (service_layers cfg net t st sh) = fst (service_layers cfg net t st no_shared)"
    and "snd (service_layers cfg net t st sh) = sh
      \<or> snd (service_layers cfg net t st sh) = sh\<lparr>sh_baseline := Some (baseline_of cfg net)\<rparr>"
proof -
  have "fst (service_layers cfg net t st sh) = fst (service_layers cfg net t st no_shared)
    \<and> (snd (service_layers cfg net t st sh) = sh
      \<or> snd (service_layers cfg net t st sh) = sh\<lparr>sh_baseline := Some (baseline_of cfg net)\<rparr>)"
  proof (cases "ts_Working (Summarize (rn_tcp st))")
    case None
    then show ?thesis by (simp add: service_layers_def)
  next
    case (Some w)
    let ?m = "measureSpeed cfg net t (addr_port_String (tcp_Addr w))"
    have "fst (?m sh) = fst (?m no_shared)" "snd (?m sh) = sh\<lparr>sh_baseline := Some (baseline_of cfg net)\<rparr>"
      unfolding measureSpeed_once [OF assms] by simp_all
    moreover obtain st2 go where "\<forall>sh. service_layers cfg net t st sh =
      (if go then (st2\<lparr>rn_speed := Some (fst (?m sh))\<rparr>, snd (?m sh)) else (st2, sh))"
      using service_layers_unfold [OF Some, of cfg net t] by blast
    ultimately show ?thesis by simp
  qed
  then show "fst (service_layers cfg net t st sh) = fst (service_layers cfg net t st no_shared)"
    and "snd (service_layers cfg net t st sh) = sh
      \<or> snd (service_layers cfg net t st sh) = sh\<lparr>sh_baseline := Some (baseline_of cfg net)\<rparr>"
    by blast+
qed

lemma service_layers_shared:
  assumes "once_ok cfg net sh"
  shows "once_ok cfg net (snd (service_layers cfg net t st sh))"
    and "sh_intercept (snd (service_layers cfg net t st sh)) = sh_intercept sh"
    and "sh_local (snd (service_layers cfg net t st sh)) = sh_local sh"
  using service_layers_once(2) [OF assms, of t st] assms by (auto simp: once_ok_def)

lemma checkTarget_shared:
  assumes "once_ok cfg net sh"
  shows "fst (checkTarget cfg net t sh) = fst (checkTarget cfg net t no_shared)"
    and "once_ok cfg net (snd (checkTarget cfg net t sh))"
    and "sh_intercept (snd (checkTarget cfg net t sh)) = sh_intercept sh"
    and "sh_local (snd (checkTarget cfg net t sh)) = sh_local sh"
proof -
  let ?st = "\<lambda>sh. tcp_layer cfg net (verify_layer cfg net t (fst (dns_layer cfg t sh)))"
  have eq: "checkTarget cfg net t sh =
      (outage_layer net t (fst (service_layers cfg net t (?st sh) (snd (dns_layer cfg t sh)))),
       snd (service_layers cfg net t (?st sh) (snd (dns_layer cfg t sh))))" for sh
    by (simp add: checkTarget_def case_prod_beta)
  note d = dns_layer_once [OF assms] and dn = dns_layer_once [OF once_ok_no_shared]
  note sv = service_layers_once(1) [OF d(2)] service_layers_shared [OF d(2)]
    and svn = service_layers_once(1) [OF dn(2)]
  show "fst (checkTarget cfg net t sh) = fst (checkTarget cfg net t no_shared)"
    unfolding eq fst_conv d(1) sv(1) svn ..
  show "once_ok cfg net (snd (checkTarget cfg net t sh))"
    unfolding eq snd_conv by (rule sv(2))
  show "sh_intercept (snd (checkTarget cfg net t sh)) = sh_intercept sh"
    unfolding eq snd_conv sv(3) d(3) ..
  show "sh_local (snd (checkTarget cfg net t sh)) = sh_local sh"
    unfolding eq snd_conv sv(4) d(4) ..
qed

text \<open>When an event is enabled, and what it leads to.\<close>

lemma exec_Intercept:
  "exec cfg env ts EvIntercept s = Some s' \<longleftrightarrow>
     st_intercepting s
     \<and> s' = s\<lparr>st_shared := (st_shared s)\<lparr>sh_intercept := Some (run_intercept cfg env)\<rparr>, st_intercepting := False\<rparr>"
  by auto

lemma exec_Local:
  "exec cfg env ts EvLocal s = Some s' \<longleftrightarrow>
     st_localing s
     \<and> s' = s\<lparr>st_shared := (st_shared s)\<lparr>sh_local := Some (run_local cfg env)\<rparr>, st_localing := False\<rparr>"
  by auto

lemma exec_Close:
  "exec cfg env ts EvClose s = Some s' \<longleftrightarrow>
     \<not> st_intercepting s \<and> \<not> st_localing s \<and> \<not> st_done s \<and> s' = s\<lparr>st_done := True\<rparr>"
  by auto

lemma exec_Acquire:
  "exec cfg env ts (EvAcquire i) s = Some s' \<longleftrightarrow>
     i < length ts \<and> st_pcs s ! i = Waiting \<and> int (st_sem s) < cfg_Concurrency cfg
     \<and> s' = s\<lparr>st_pcs := (st_pcs s)[i := Checking], st_sem := Suc (st_sem s)\<rparr>"
  by auto

lemma exec_Check:
  "exec cfg env ts (EvCheck i) s = Some s' \<longleftrightarrow>
     i < length ts \<and> st_pcs s ! i = Checking
     \<and> s' = s\<lparr>st_shared := snd (checkTarget cfg (re_net env) (ts ! i) (st_shared s)),
            st_pcs := (st_pcs s)[i := Checked (fst (checkTarget cfg (re_net env) (ts ! i) (st_shared s)))],
            st_dohDown := (st_dohDown s)[i := an_DoHUnavailable (rn_analysis
              (fst (checkTarget cfg (re_net env) (ts ! i) (st_shared s))))]\<rparr>"
  by (auto simp: case_prod_beta)

lemma exec_Release:
  "exec cfg env ts (EvRelease i) s = Some s' \<longleftrightarrow>
     (\<exists>st. i < length ts \<and> st_pcs s ! i = Checked st
       \<and> s' = s\<lparr>st_pcs := (st_pcs s)[i := Released st], st_sem := st_sem s - 1\<rparr>)"
  by (cases "st_pcs s ! i") auto

lemma exec_Decide:
  "exec cfg env ts (EvDecide i) s = Some s' \<longleftrightarrow>
     (\<exists>st. i < length ts \<and> st_done s \<and> st_pcs s ! i = Released st
       \<and> s' = s\<lparr>st_pcs := (st_pcs s)[i := Finished],
              st_reports := (st_reports s)[i := map_option (\<lambda>tr. tr\<lparr>tr_Duration := re_duration env i\<rparr>)
                (run_decide cfg (st_shared s) st)]\<rparr>)"
  by (cases "st_pcs s ! i") auto

lemmas exec_iff = exec_Intercept exec_Local exec_Close exec_Acquire exec_Check exec_Release exec_Decide

section \<open>The semaphore\<close>

fun holds_slot :: "target_pc \<Rightarrow> bool" where
  "holds_slot Checking = True"
| "holds_slot (Checked st) = True"
| "holds_slot pc = False"

definition slots_held :: "target_pc list \<Rightarrow> nat" where
  "slots_held pcs = (\<Sum>pc\<leftarrow>pcs. if holds_slot pc then 1 else 0)"

lemma sum_list_update_nat:
  fixes f :: "'a \<Rightarrow> nat"
  assumes "i < length xs"
  shows "(\<Sum>x\<leftarrow>xs[i := y]. f x) + f (xs ! i) = (\<Sum>x\<leftarrow>xs. f x) + f y"
  using assms by (induction xs arbitrary: i) (auto split: nat.splits simp: nth_Cons')

lemma slots_held_update:
  "i < length pcs \<Longrightarrow>
     slots_held (pcs[i := pc]) + (if holds_slot (pcs ! i) then 1 else 0) = slots_held pcs + (if holds_slot pc then 1 else 0)"
  using sum_list_update_nat [of i pcs "\<lambda>pc. if holds_slot pc then 1 else 0" pc] by (simp only: slots_held_def)

definition sem_inv :: "config \<Rightarrow> target list \<Rightarrow> run_state \<Rightarrow> bool" where
  "sem_inv cfg ts s \<longleftrightarrow>
     length (st_pcs s) = length ts \<and> length (st_dohDown s) = length ts \<and> length (st_reports s) = length ts
     \<and> st_sem s = slots_held (st_pcs s) \<and> (st_sem s = 0 \<or> int (st_sem s) \<le> cfg_Concurrency cfg)"

lemma sem_inv_init: "sem_inv cfg ts (init_state cfg ts)"
  by (simp add: sem_inv_def init_state_def slots_held_def sum_list_replicate)

lemma sem_inv_exec:
  assumes "sem_inv cfg ts s" and "exec cfg env ts e s = Some s'"
  shows "sem_inv cfg ts s'"
proof -
  have upd: "slots_held ((st_pcs s)[i := pc]) + (if holds_slot (st_pcs s ! i) then 1 else 0)
      = st_sem s + (if holds_slot pc then 1 else 0)" if "i < length ts" for i pc
    using that assms(1) slots_held_update [of i "st_pcs s" pc] by (simp add: sem_inv_def)
  show ?thesis
  proof (cases e)
    case (EvAcquire i)
    then show ?thesis using assms upd [of i Checking] by (auto simp: sem_inv_def split: if_splits)
  next
    case (EvCheck i)
    from assms(2) [unfolded EvCheck exec_iff] show ?thesis
      using assms(1) upd [of i "Checked (fst (checkTarget cfg (re_net env) (ts ! i) (st_shared s)))"]
      by (auto simp: sem_inv_def)
  next
    case (EvRelease i)
    from assms(2) [unfolded EvRelease exec_iff] obtain st where "i < length ts"
      "st_pcs s ! i = Checked st" "s' = s\<lparr>st_pcs := (st_pcs s)[i := Released st], st_sem := st_sem s - 1\<rparr>" by blast
    then show ?thesis using assms(1) upd [of i "Released st"] by (auto simp: sem_inv_def)
  next
    case (EvDecide i)
    from assms(2) [unfolded EvDecide exec_iff] show ?thesis
      using assms(1) upd [of i Finished] by (auto simp: sem_inv_def)
  qed (use assms in \<open>auto simp: sem_inv_def split: if_splits\<close>)
qed

lemma reachable_sem_inv: "reachable cfg env ts s \<Longrightarrow> sem_inv cfg ts s"
  by (induction rule: reachable.induct) (auto intro: sem_inv_init sem_inv_exec)

section \<open>The sequential specification\<close>

definition seq_run :: "config \<Rightarrow> run_env \<Rightarrow> target \<Rightarrow> run" where
  "seq_run cfg env t = fst (checkTarget cfg (re_net env) t no_shared)"

definition final_shared :: "config \<Rightarrow> run_env \<Rightarrow> shared" where
  "final_shared cfg env =
     no_shared\<lparr>sh_intercept := (if cfg_InterceptionProbe cfg = [] then None else Some (run_intercept cfg env)),
               sh_local := (if cfg_Local cfg = None then None else Some (run_local cfg env))\<rparr>"

definition report_of :: "config \<Rightarrow> run_env \<Rightarrow> nat \<Rightarrow> target \<Rightarrow> target_report option" where
  "report_of cfg env i t =
     map_option (\<lambda>tr. tr\<lparr>tr_Duration := re_duration env i\<rparr>) (run_decide cfg (final_shared cfg env) (seq_run cfg env t))"

definition report_spec :: "config \<Rightarrow> run_env \<Rightarrow> target list \<Rightarrow> report" where
  "report_spec cfg env ts =
     \<lparr>rep_Version = cfg_Version cfg, rep_Started = re_started env, rep_Duration = re_total env,
      rep_OS = re_os env, rep_Arch = re_arch env,
      rep_Local = (localSummary (final_shared cfg env) (cfg_ProxyInUse cfg))
        \<lparr>ls_DoHUnreachable := ts \<noteq> [] \<and> (\<forall>t \<in> set ts. an_DoHUnavailable (rn_analysis (seq_run cfg env t)))\<rparr>,
      rep_Targets = map (\<lambda>(i, t). the (report_of cfg env i t)) (enumerate 0 ts)\<rparr>"

text \<open>A decision reads only the run-wide results.\<close>

lemma run_decide_shared:
  "sh_intercept sh = sh_intercept sh' \<Longrightarrow> sh_local sh = sh_local sh' \<Longrightarrow> run_decide cfg sh st = run_decide cfg sh' st"
  by (simp only: run_decide_def verdict_input_def evidence_of_def)

lemma localSummary_shared:
  "sh_intercept sh = sh_intercept sh' \<Longrightarrow> sh_local sh = sh_local sh' \<Longrightarrow> localSummary sh p = localSummary sh' p"
  by (simp only: localSummary_def)

fun pc_ok :: "config \<Rightarrow> run_env \<Rightarrow> nat \<Rightarrow> target \<Rightarrow> target_pc \<Rightarrow> bool \<Rightarrow> target_report option \<Rightarrow> bool" where
  "pc_ok cfg env i t Waiting down tr \<longleftrightarrow> True"
| "pc_ok cfg env i t Checking down tr \<longleftrightarrow> True"
| "pc_ok cfg env i t (Checked st) down tr \<longleftrightarrow>
     st = seq_run cfg env t \<and> down = an_DoHUnavailable (rn_analysis (seq_run cfg env t))"
| "pc_ok cfg env i t (Released st) down tr \<longleftrightarrow>
     st = seq_run cfg env t \<and> down = an_DoHUnavailable (rn_analysis (seq_run cfg env t))"
| "pc_ok cfg env i t Finished down tr \<longleftrightarrow>
     down = an_DoHUnavailable (rn_analysis (seq_run cfg env t)) \<and> tr = report_of cfg env i t"

definition shared_inv :: "config \<Rightarrow> run_env \<Rightarrow> run_state \<Rightarrow> bool" where
  "shared_inv cfg env s \<longleftrightarrow>
     once_ok cfg (re_net env) (st_shared s)
     \<and> sh_intercept (st_shared s) = (if st_intercepting s then None else sh_intercept (final_shared cfg env))
     \<and> sh_local (st_shared s) = (if st_localing s then None else sh_local (final_shared cfg env))
     \<and> (st_intercepting s \<longrightarrow> cfg_InterceptionProbe cfg \<noteq> []) \<and> (st_localing s \<longrightarrow> cfg_Local cfg \<noteq> None)
     \<and> (st_done s \<longrightarrow> \<not> st_intercepting s \<and> \<not> st_localing s)"

definition target_inv :: "config \<Rightarrow> run_env \<Rightarrow> target list \<Rightarrow> run_state \<Rightarrow> bool" where
  "target_inv cfg env ts s \<longleftrightarrow>
     (\<forall>i < length ts. pc_ok cfg env i (ts ! i) (st_pcs s ! i) (st_dohDown s ! i) (st_reports s ! i))"

lemma shared_inv_init: "shared_inv cfg env (init_state cfg ts)"
  by (simp add: shared_inv_def init_state_def final_shared_def no_shared_def once_ok_def)

lemma once_ok_update [simp]:
  "once_ok cfg net (sh\<lparr>sh_intercept := x\<rparr>) = once_ok cfg net sh"
  "once_ok cfg net (sh\<lparr>sh_local := y\<rparr>) = once_ok cfg net sh"
  by (simp_all add: once_ok_def)

lemma final_shared_sel:
  "sh_intercept (final_shared cfg env) = (if cfg_InterceptionProbe cfg = [] then None else Some (run_intercept cfg env))"
  "sh_local (final_shared cfg env) = (if cfg_Local cfg = None then None else Some (run_local cfg env))"
  by (simp_all add: final_shared_def)

lemma shared_inv_frame:
  assumes "shared_inv cfg env s" and "st_shared s' = st_shared s"
    and "st_intercepting s' = st_intercepting s" and "st_localing s' = st_localing s" and "st_done s' = st_done s"
  shows "shared_inv cfg env s'"
  using assms(1) unfolding shared_inv_def assms(2-5) .

lemma shared_inv_exec:
  assumes "shared_inv cfg env s" and "exec cfg env ts e s = Some s'"
  shows "shared_inv cfg env s'"
proof (cases e)
  case EvIntercept
  from assms(2) [unfolded EvIntercept exec_iff] show ?thesis
    using assms(1) by (elim conjE, hypsubst) (simp add: shared_inv_def final_shared_sel)
next
  case EvLocal
  from assms(2) [unfolded EvLocal exec_iff] show ?thesis
    using assms(1) by (elim conjE, hypsubst) (simp add: shared_inv_def final_shared_sel)
next
  case EvClose
  from assms(2) [unfolded EvClose exec_iff] show ?thesis
    using assms(1) by (elim conjE, hypsubst) (simp add: shared_inv_def)
next
  case (EvAcquire i)
  from assms(2) [unfolded EvAcquire exec_iff] show ?thesis
    by (elim conjE) (rule shared_inv_frame [OF assms(1)], simp_all)
next
  case (EvCheck i)
  have o: "once_ok cfg (re_net env) (st_shared s)" using assms(1) by (simp add: shared_inv_def)
  from assms(2) [unfolded EvCheck exec_iff] show ?thesis
    using assms(1) checkTarget_shared(2-4) [OF o, of "ts ! i"] by (simp add: shared_inv_def)
next
  case (EvRelease i)
  from assms(2) [unfolded EvRelease exec_iff] show ?thesis
    by (elim exE conjE) (rule shared_inv_frame [OF assms(1)], simp_all)
next
  case (EvDecide i)
  from assms(2) [unfolded EvDecide exec_iff] show ?thesis
    by (elim exE conjE) (rule shared_inv_frame [OF assms(1)], simp_all)
qed

lemma target_inv_init: "target_inv cfg env ts (init_state cfg ts)"
  by (simp add: target_inv_def init_state_def)

lemma target_inv_update:
  assumes "target_inv cfg env ts s" "sem_inv cfg ts s" "i < length ts"
    and "pc_ok cfg env i (ts ! i) pc d r"
    and "st_pcs s' = (st_pcs s)[i := pc]" "st_dohDown s' = (st_dohDown s)[i := d]"
    and "st_reports s' = (st_reports s)[i := r]"
  shows "target_inv cfg env ts s'"
  using assms by (auto simp: target_inv_def sem_inv_def nth_list_update)

lemma target_inv_exec:
  assumes "target_inv cfg env ts s" and "shared_inv cfg env s" and "sem_inv cfg ts s"
    and "exec cfg env ts e s = Some s'"
  shows "target_inv cfg env ts s'"
proof -
  note upd = target_inv_update [OF assms(1,3)]
  have len: "length (st_dohDown s) = length ts" "length (st_reports s) = length ts"
    using assms(3) by (simp_all add: sem_inv_def)
  show ?thesis
  proof (cases e)
    case (EvAcquire i)
    then show ?thesis using assms(4) len
      by (auto intro!: upd [of i Checking "st_dohDown s ! i" "st_reports s ! i"] split: if_splits)
  next
    case (EvCheck i)
    have o: "once_ok cfg (re_net env) (st_shared s)" using assms(2) by (simp add: shared_inv_def)
    from assms(4) [unfolded EvCheck exec_iff checkTarget_shared(1) [OF o] seq_run_def [symmetric]]
    show ?thesis using len
      by (intro upd [of i "Checked (seq_run cfg env (ts ! i))" "an_DoHUnavailable (rn_analysis (seq_run cfg env (ts ! i)))"
            "st_reports s ! i"]) simp_all
  next
    case (EvRelease i)
    from assms(4) [unfolded EvRelease exec_iff] obtain st where i: "i < length ts" "st_pcs s ! i = Checked st"
      and s': "s' = s\<lparr>st_pcs := (st_pcs s)[i := Released st], st_sem := st_sem s - 1\<rparr>" by blast
    have "pc_ok cfg env i (ts ! i) (Checked st) (st_dohDown s ! i) (st_reports s ! i)"
      using assms(1) i by (metis target_inv_def)
    then have ok: "pc_ok cfg env i (ts ! i) (Released st) (st_dohDown s ! i) (st_reports s ! i)" by simp
    show ?thesis by (rule upd [OF i(1) ok]) (simp_all add: s')
  next
    case (EvDecide i)
    from assms(4) [unfolded EvDecide exec_iff] obtain st where i: "i < length ts" "st_pcs s ! i = Released st" "st_done s"
      and s': "s' = s\<lparr>st_pcs := (st_pcs s)[i := Finished],
        st_reports := (st_reports s)[i := map_option (\<lambda>tr. tr\<lparr>tr_Duration := re_duration env i\<rparr>)
          (run_decide cfg (st_shared s) st)]\<rparr>" by blast
    have pc: "pc_ok cfg env i (ts ! i) (Released st) (st_dohDown s ! i) (st_reports s ! i)"
      using assms(1) i by (metis target_inv_def)
    have "run_decide cfg (st_shared s) st = run_decide cfg (final_shared cfg env) st"
      using assms(2) i(3) by (intro run_decide_shared) (simp_all add: shared_inv_def)
    with pc have ok: "pc_ok cfg env i (ts ! i) Finished (st_dohDown s ! i)
        (map_option (\<lambda>tr. tr\<lparr>tr_Duration := re_duration env i\<rparr>) (run_decide cfg (st_shared s) st))"
      by (simp add: report_of_def)
    show ?thesis by (rule upd [OF i(1) ok]) (simp_all add: s')
  qed (use assms in \<open>auto simp: target_inv_def split: if_splits\<close>)
qed

lemma reachable_inv: "reachable cfg env ts s \<Longrightarrow> shared_inv cfg env s \<and> target_inv cfg env ts s"
proof (induction rule: reachable.induct)
  case start
  show ?case by (simp add: shared_inv_init target_inv_init)
next
  case (step s e s')
  then show ?case
    using shared_inv_exec target_inv_exec reachable_sem_inv by blast
qed

section \<open>Progress\<close>

fun pc_weight :: "target_pc \<Rightarrow> nat" where
  "pc_weight Waiting = 4"
| "pc_weight Checking = 3"
| "pc_weight (Checked st) = 2"
| "pc_weight (Released st) = 1"
| "pc_weight Finished = 0"

definition steps_left :: "run_state \<Rightarrow> nat" where
  "steps_left s =
     (\<Sum>pc\<leftarrow>st_pcs s. pc_weight pc) + of_bool (st_intercepting s) + of_bool (st_localing s) + of_bool (\<not> st_done s)"

lemma exec_steps_left:
  assumes "sem_inv cfg ts s" and "exec cfg env ts e s = Some s'"
  shows "steps_left s = Suc (steps_left s')"
proof -
  have upd: "(\<Sum>pc\<leftarrow>(st_pcs s)[i := pc]. pc_weight pc) + pc_weight (st_pcs s ! i)
      = (\<Sum>pc\<leftarrow>st_pcs s. pc_weight pc) + pc_weight pc" if "i < length ts" for i pc
    using that assms(1) by (intro sum_list_update_nat) (simp add: sem_inv_def)
  show ?thesis
  proof (cases e)
    case (EvAcquire i)
    from assms(2) [unfolded EvAcquire exec_iff] show ?thesis
      using upd [of i Checking] by (auto simp: steps_left_def)
  next
    case (EvCheck i)
    from assms(2) [unfolded EvCheck exec_iff] show ?thesis
      using upd [of i "Checked (fst (checkTarget cfg (re_net env) (ts ! i) (st_shared s)))"]
      by (auto simp: steps_left_def)
  next
    case (EvRelease i)
    from assms(2) [unfolded EvRelease exec_iff] obtain st where "i < length ts"
      "st_pcs s ! i = Checked st" "s' = s\<lparr>st_pcs := (st_pcs s)[i := Released st], st_sem := st_sem s - 1\<rparr>" by blast
    then show ?thesis using upd [of i "Released st"] by (auto simp: steps_left_def)
  next
    case (EvDecide i)
    from assms(2) [unfolded EvDecide exec_iff] show ?thesis
      using upd [of i Finished] by (auto simp: steps_left_def)
  qed (use assms in \<open>auto simp: steps_left_def split: if_splits\<close>)
qed

lemma exec_all_steps_left:
  "sem_inv cfg ts s \<Longrightarrow> exec_all cfg env ts es s = Some s' \<Longrightarrow> steps_left s = length es + steps_left s'"
proof (induction es arbitrary: s)
  case (Cons e es)
  then obtain s1 where s1: "exec cfg env ts e s = Some s1" "exec_all cfg env ts es s1 = Some s'"
    by (auto split: option.splits)
  from exec_steps_left [OF Cons.prems(1) s1(1)] Cons.IH [OF sem_inv_exec [OF Cons.prems(1) s1(1)] s1(2)]
  show ?case by simp
qed simp

lemma slots_held_0: "slots_held pcs = 0 \<longleftrightarrow> (\<forall>pc \<in> set pcs. \<not> holds_slot pc)"
  by (auto simp: slots_held_def)

lemma progress:
  assumes "sem_inv cfg ts s" and "0 < cfg_Concurrency cfg" and "\<not> complete s"
  shows "\<exists>e s'. exec cfg env ts e s = Some s'"
proof (cases "st_done s")
  case False
  then show ?thesis
    using exec_Close [of cfg env ts s] exec_Intercept [of cfg env ts s] exec_Local [of cfg env ts s] by blast
next
  case True
  then obtain j where j: "j < length ts" "st_pcs s ! j \<noteq> Finished"
    using assms(1,3) by (auto simp: complete_def sem_inv_def in_set_conv_nth)
  show ?thesis
  proof (cases "\<exists>pc \<in> set (st_pcs s). holds_slot pc")
    case True
    then obtain i where i: "i < length ts" "holds_slot (st_pcs s ! i)"
      using assms(1) by (auto simp: sem_inv_def in_set_conv_nth)
    show ?thesis
    proof (cases "st_pcs s ! i")
      case Checking
      with i show ?thesis using exec_Check [of cfg env ts i s] by blast
    next
      case (Checked st)
      with i show ?thesis using exec_Release [of cfg env ts i s] by blast
    qed (use i in simp_all)
  next
    case False
    then have free: "st_sem s = 0" using assms(1) slots_held_0 [of "st_pcs s"] by (auto simp: sem_inv_def)
    show ?thesis
    proof (cases "st_pcs s ! j")
      case Waiting
      with j free assms(2) have "exec cfg env ts (EvAcquire j) s \<noteq> None" by simp
      then show ?thesis by blast
    next
      case Checking
      with j show ?thesis using exec_Check [of cfg env ts j s] by blast
    next
      case (Checked st)
      with j show ?thesis using exec_Release [of cfg env ts j s] by blast
    next
      case (Released st)
      with j True show ?thesis using exec_Decide [of cfg env ts j s] by blast
    qed (use j in simp)
  qed
qed

lemma run_completes:
  assumes "sem_inv cfg ts s" and "0 < cfg_Concurrency cfg"
  shows "\<exists>es s'. exec_all cfg env ts es s = Some s' \<and> complete s'"
  using assms(1)
proof (induction "steps_left s" arbitrary: s)
  case 0
  have "complete s" if "sem_inv cfg ts s" "steps_left s = 0" for s
    using progress [OF that(1) assms(2)] exec_steps_left [OF that(1)] that(2) by fastforce
  with 0 have "exec_all cfg env ts [] s = Some s \<and> complete s" by simp
  then show ?case by blast
next
  case (Suc n)
  show ?case
  proof (cases "complete s")
    case True
    then have "exec_all cfg env ts [] s = Some s \<and> complete s" by simp
    then show ?thesis by blast
  next
    case False
    then obtain e s1 where e: "exec cfg env ts e s = Some s1" using progress [OF Suc.prems assms(2)] by blast
    have "n = steps_left s1" using exec_steps_left [OF Suc.prems e] Suc.hyps(2) by simp
    then obtain es s' where "exec_all cfg env ts es s1 = Some s'" "complete s'"
      using Suc.hyps(1) sem_inv_exec [OF Suc.prems e] by blast
    then have "exec_all cfg env ts (e # es) s = Some s' \<and> complete s'" by (simp add: e)
    then show ?thesis by blast
  qed
qed

lemma steps_left_init: "steps_left (init_state cfg ts) =
    4 * length ts + of_bool (cfg_InterceptionProbe cfg \<noteq> []) + of_bool (cfg_Local cfg \<noteq> None) + 1"
  by (simp add: steps_left_def init_state_def sum_list_replicate)

section \<open>Properties of a run\<close>

text \<open>
  Two targets on a silent network, one check at a time, with the interception probe and the local
  check: the second target waits for the slot, the decisions for the run-wide checks.
\<close>

definition sample_config :: config where
  "sample_config = (config_of sample_resolvers)
     \<lparr>cfg_Concurrency := 1, cfg_InterceptionProbe := ''192.0.2.1:53'', cfg_Local := Some [''1.1.1.1:443'']\<rparr>"

definition sample_run_env :: run_env where
  "sample_run_env =
     \<lparr>re_net = dead_net, re_qid = 7,
      re_udp = (\<lambda>timeout. \<lparr>uo_Dial = None, uo_Write = None, uo_Datagrams = [], uo_ReadErr = timeout_err\<rparr>),
      re_local = sample_env, re_duration = int, re_started = 0, re_total = 9, re_os = ''linux'', re_arch = ''amd64''\<rparr>"

definition sample_schedule :: "event list" where
  "sample_schedule =
     [EvAcquire 1, EvIntercept, EvCheck 1, EvRelease 1, EvAcquire 0, EvLocal, EvCheck 0, EvClose,
      EvDecide 1, EvRelease 0, EvDecide 0]"

definition sample_targets :: "target list" where
  "sample_targets = [sample_target, no_target\<lparr>target_Host := ''y.com''\<rparr>]"

abbreviation sample_start :: run_state where
  "sample_start \<equiv> init_state (fillDefaults sample_sigs sample_config) sample_targets"

abbreviation sample_run :: "event list \<Rightarrow> run_state option" where
  "sample_run es \<equiv> exec_all (fillDefaults sample_sigs sample_config) sample_run_env sample_targets es sample_start"

text \<open>
  Claim C17. The semaphore works: whatever the schedule, at most \<^verbatim>\<open>Concurrency\<close> targets are being
  checked at the same time, and a slot is counted as taken exactly while a target holds it.
\<close>

theorem semaphore_bound:
  assumes "reachable (fillDefaults b cfg) env ts s"
  shows "int (length (filter holds_slot (st_pcs s))) \<le> cfg_Concurrency (fillDefaults b cfg)
    \<and> st_sem s = length (filter holds_slot (st_pcs s))"
proof -
  have "slots_held pcs = length (filter holds_slot pcs)" for pcs
    by (induction pcs) (simp_all add: slots_held_def)
  moreover have "0 < cfg_Concurrency (fillDefaults b cfg)" by (simp add: fillDefaults_sel)
  ultimately show ?thesis using reachable_sem_inv [OF assms] by (auto simp: sem_inv_def)
qed

theorem semaphore_bound_witness:
  "int (length (filter holds_slot (st_pcs (the (sample_run [EvAcquire 1, EvCheck 1]))))) \<le> 1"
proof -
  have "sample_run [EvAcquire 1, EvCheck 1] \<noteq> None" by code_simp
  then obtain s where s: "sample_run [EvAcquire 1, EvCheck 1] = Some s" by blast
  have "cfg_Concurrency (fillDefaults sample_sigs sample_config) = 1" by code_simp
  with semaphore_bound [OF exec_all_reachable [OF reachable.start s]] show ?thesis
    by (simp only: s option.sel)
qed

text \<open>
  Claim C10. A run never deadlocks and always ends: every schedule is at most four steps per target
  and three steps for the run-wide checks long, and whatever happened so far can be continued to a
  complete run.
\<close>

theorem run_ends:
  assumes "exec_all (fillDefaults b cfg) env ts es (init_state (fillDefaults b cfg) ts) = Some s"
  shows "length es \<le> 4 * length ts + 3
    \<and> (\<exists>es' s'. exec_all (fillDefaults b cfg) env ts es' s = Some s' \<and> complete s')"
proof -
  have pos: "0 < cfg_Concurrency (fillDefaults b cfg)" by (simp add: fillDefaults_sel)
  have inv: "sem_inv (fillDefaults b cfg) ts s"
    using exec_all_reachable [OF reachable.start assms] by (rule reachable_sem_inv)
  have "steps_left (init_state (fillDefaults b cfg) ts) \<le> 4 * length ts + 3"
    by (simp add: steps_left_init of_bool_def)
  moreover have "length es \<le> steps_left (init_state (fillDefaults b cfg) ts)"
    using exec_all_steps_left [OF sem_inv_init assms] by simp
  ultimately show ?thesis using run_completes [OF inv pos] by auto
qed

theorem run_ends_witness:
  "\<exists>es' s'. exec_all (fillDefaults sample_sigs sample_config) sample_run_env sample_targets es'
     (the (sample_run [EvAcquire 1, EvCheck 1, EvRelease 1])) = Some s' \<and> complete s'"
proof -
  have "sample_run [EvAcquire 1, EvCheck 1, EvRelease 1] \<noteq> None" by code_simp
  then obtain s where s: "sample_run [EvAcquire 1, EvCheck 1, EvRelease 1] = Some s" by blast
  from run_ends [OF s] show ?thesis by (simp only: s option.sel)
qed

lemma foldl_conj: "foldl (\<lambda>b down. b \<and> down) b ds \<longleftrightarrow> b \<and> (\<forall>d \<in> set ds. d)"
  by (induction ds arbitrary: b) auto

lemma complete_fields:
  assumes "reachable cfg env ts s" and "complete s"
  shows "st_dohDown s = map (\<lambda>t. an_DoHUnavailable (rn_analysis (seq_run cfg env t))) ts"
    and "st_reports s = map (\<lambda>(i, t). report_of cfg env i t) (enumerate 0 ts)"
    and "localSummary (st_shared s) p = localSummary (final_shared cfg env) p"
proof -
  have len: "length (st_pcs s) = length ts" "length (st_dohDown s) = length ts" "length (st_reports s) = length ts"
    using reachable_sem_inv [OF assms(1)] by (simp_all add: sem_inv_def)
  have ok: "pc_ok cfg env i (ts ! i) Finished (st_dohDown s ! i) (st_reports s ! i)" if "i < length ts" for i
  proof -
    have "st_pcs s ! i = Finished" using assms(2) that len by (simp add: complete_def)
    then show ?thesis using reachable_inv [OF assms(1)] that by (metis target_inv_def)
  qed
  show "st_dohDown s = map (\<lambda>t. an_DoHUnavailable (rn_analysis (seq_run cfg env t))) ts"
    using ok by (intro nth_equalityI) (simp_all add: len)
  show "st_reports s = map (\<lambda>(i, t). report_of cfg env i t) (enumerate 0 ts)"
    using ok by (intro nth_equalityI) (simp_all add: len nth_enumerate_eq)
  have "st_done s" "shared_inv cfg env s"
    using assms(2) reachable_inv [OF assms(1)] by (simp_all add: complete_def)
  then show "localSummary (st_shared s) p = localSummary (final_shared cfg env) p"
    by (intro localSummary_shared) (simp_all add: shared_inv_def)
qed

lemma final_report_spec:
  assumes "exec_all (fillDefaults b cfg) env ts es (init_state (fillDefaults b cfg) ts) = Some s" and "complete s"
  shows "final_report (fillDefaults b cfg) env ts s = report_spec (fillDefaults b cfg) env ts
    \<and> None \<notin> set (st_reports s)"
proof -
  let ?cfg = "fillDefaults b cfg"
  have R: "reachable ?cfg env ts s"
    using exec_all_reachable [OF reachable.start assms(1)] .
  note C = complete_fields [OF R assms(2)]
  have "final_report ?cfg env ts s = report_spec ?cfg env ts"
    unfolding final_report_def report_spec_def C foldl_conj by (simp add: case_prod_beta comp_def)
  moreover have "report_of ?cfg env i t \<noteq> None" for i t
    using evidence_total [of "final_shared ?cfg env" ?cfg "re_net env" t no_shared]
    by (auto simp: report_of_def run_decide_def seq_run_def Let_def)
  then have "None \<notin> set (st_reports s)" unfolding C(2) set_map image_iff by (metis case_prod_beta)
  ultimately show ?thesis by blast
qed

text \<open>
  Claim C4. The report does not depend on the schedule: however the goroutines interleave, a run
  that completes has a result for every target (no decision panics) and reports what checking the
  targets one by one, with the finished run-wide results, would report.
\<close>

theorem run_schedule_independent:
  assumes "exec_all (fillDefaults b cfg) env ts es (init_state (fillDefaults b cfg) ts) = Some s" and "complete s"
  shows "final_report (fillDefaults b cfg) env ts s = report_spec (fillDefaults b cfg) env ts
    \<and> None \<notin> set (st_reports s)"
  using assms by (rule final_report_spec)

theorem run_schedule_independent_witness:
  "final_report (fillDefaults sample_sigs sample_config) sample_run_env sample_targets
     (the (sample_run sample_schedule))
   = report_spec (fillDefaults sample_sigs sample_config) sample_run_env sample_targets"
proof -
  have "sample_run sample_schedule \<noteq> None" and c: "complete (the (sample_run sample_schedule))"
    by code_simp+
  then obtain s where s: "sample_run sample_schedule = Some s" by blast
  from c have "complete s" by (simp only: s option.sel)
  from run_schedule_independent [OF s this] show ?thesis by (simp only: s option.sel)
qed

end
