(* ===== verification/Priority.thy ===== *)
theory Priority
  imports Verdict
begin

text \<open>
  The verdict engine against a flat table: the conditions on what was observed, in order of
  priority, and the verdict of the first that holds. The engine itself is nested by layer and
  combines its two decisions afterwards.
\<close>

section \<open>The table\<close>

text \<open>What the accepted connection, its handshakes and the response have in common.\<close>

definition on_handshake :: "input \<Rightarrow> (tls_result \<Rightarrow> bool) \<Rightarrow> bool" where
  "on_handshake inp P \<longleftrightarrow> working inp \<noteq> None \<and> (case in_TLS inp of None \<Rightarrow> False | Some t \<Rightarrow> P t)"

definition on_response :: "input \<Rightarrow> (http_result \<Rightarrow> bool) \<Rightarrow> bool" where
  "on_response inp P \<longleftrightarrow>
     on_handshake inp handshake_done \<and> (case in_HTTP inp of None \<Rightarrow> False | Some h \<Rightarrow> P h)"

definition no_connection :: "input \<Rightarrow> bool" where
  "no_connection inp \<longleftrightarrow> in_TCP inp \<noteq> [] \<and> working inp = None"

definition verdict_rules :: "input \<Rightarrow> (bool \<times> verdict) list" where
  "verdict_rules inp =
     (let smry = Summarize (in_TCP inp); dns = in_DNS inp in
      [(working inp = None \<and> (case in_Local inp of None \<Rightarrow> False | Some l \<Rightarrow> fst (Down l)), LocalNetworkDown),
       (no_connection inp \<and> ts_AnyRejected smry, ConnectionReset),
       (no_connection inp \<and> (ts_AllTimeout smry \<or> ts_AllUnreachable smry), IPBlocked),
       (on_handshake inp SNI_filtered, SNIFiltered),
       (on_handshake inp (\<lambda>t. hs_Outcome (tls_Real t) = TlsTimeout), IPBlocked),
       (on_handshake inp (\<lambda>t. Blocked (tls_Real t)), ConnectionReset),
       (on_response inp (\<lambda>h. hr_Class h = HttpBlockPage), BlockPage),
       (on_handshake inp (\<lambda>t. hs_Outcome (tls_Real t) = TlsCertInvalid), TLSIntercepted),
       (on_handshake inp (\<lambda>t. hs_Outcome (tls_Real t) = TlsOK \<and> issuer_match inp (tls_Real t) \<noteq> []), TLSIntercepted),
       (on_response inp (\<lambda>h. hr_Class h = HttpGeoBlock \<or> hr_Class h = HttpLegal), ProviderGeoBlock),
       (on_response inp (\<lambda>h. hr_Class h = HttpServerError), UpstreamOutage),
       (on_response inp (\<lambda>h. hr_Class h = HttpFailed \<and> hr_ErrKind h \<in> {KindReset, KindEOF}), ConnectionReset),
       (on_response inp (\<lambda>h. hr_Class h = HttpFailed) \<and> outage_confirmed inp, UpstreamOutage),
       (on_response inp (\<lambda>h. hr_Class h = HttpOK) \<and> throttled inp, Throttled),
       ((Poisoned dns \<or> mismatch inp) \<and> (intercepted inp \<or> an_InjectedPublic dns), DNSIntercepted),
       (Poisoned dns \<or> mismatch inp \<or> an_SystemFailure dns \<noteq> [], DNSPoisoned),
       (in_TCP inp = [] \<and> an_Dropped dns, DNSIntercepted),
       (in_TCP inp = [] \<and> an_Unresolvable dns \<and> outage_confirmed inp, UpstreamOutage),
       (working inp \<noteq> None \<and> in_TLS inp = None, OK),
       (on_handshake inp (\<lambda>t. hs_Outcome (tls_Real t) = TlsOK) \<and> in_HTTP inp = None, OK),
       (on_response inp (\<lambda>h. hr_Class h = HttpOK), OK)])"

fun first_rule :: "(bool \<times> verdict) list \<Rightarrow> verdict" where
  "first_rule [] = Inconclusive"
| "first_rule ((b, v) # rs) = (if b then v else first_rule rs)"

section \<open>The engine implements it\<close>

lemma dns_verdict:
  "dnsDecision inp = None \<longleftrightarrow> \<not> (Poisoned (in_DNS inp) \<or> mismatch inp \<or> an_SystemFailure (in_DNS inp) \<noteq> [])"
  "dnsDecision inp = Some d \<Longrightarrow> d_Verdict d =
     (if (Poisoned (in_DNS inp) \<or> mismatch inp) \<and> (intercepted inp \<or> an_InjectedPublic (in_DNS inp))
      then DNSIntercepted else DNSPoisoned)"
  using dnsDecision_Some [of inp d] by (auto simp: dnsDecision_None_iff dns_problem_def)

lemma dns_cases:
  obtains "dnsDecision inp = None" "\<not> Poisoned (in_DNS inp)" "\<not> mismatch inp" "an_SystemFailure (in_DNS inp) = []"
  | d where "dnsDecision inp = Some d" "Poisoned (in_DNS inp) \<or> mismatch inp \<or> an_SystemFailure (in_DNS inp) \<noteq> []"
      "d_Verdict d = (if (Poisoned (in_DNS inp) \<or> mismatch inp) \<and> (intercepted inp \<or> an_InjectedPublic (in_DNS inp))
        then DNSIntercepted else DNSPoisoned)"
proof (cases "dnsDecision inp")
  case None
  with that(1) dns_verdict(1) [of inp] show thesis by blast
next
  case (Some d)
  with that(2) [OF Some _ dns_verdict(2) [OF Some]] dns_verdict(1) [of inp] show thesis by simp
qed

lemma combine_verdict:
  "d_Verdict (combine inp dnsD (Some p)) =
     (if d_Verdict p \<in> {OK, Inconclusive} then (case dnsD of None \<Rightarrow> d_Verdict p | Some d \<Rightarrow> d_Verdict d) else d_Verdict p)"
  "d_Verdict (combine inp dnsD None) =
     (case dnsD of Some d \<Rightarrow> d_Verdict d
      | None \<Rightarrow> if an_Dropped (in_DNS inp) then DNSIntercepted
          else if an_Unresolvable (in_DNS inp) \<and> outage_confirmed inp then UpstreamOutage else Inconclusive)"
  by (simp_all add: combine_def split: option.split)

lemma Decide_rules: "d_Verdict (Decide inp) = first_rule (verdict_rules inp)"
proof (cases "down_of inp")
  case (Some why)
  then have "working inp = None \<and> (case in_Local inp of None \<Rightarrow> False | Some l \<Rightarrow> fst (Down l))"
    using down_of_Some_iff [of inp] by (auto split: option.split)
  then show ?thesis by (simp add: Decide_down [OF Some] verdict_rules_def Let_def)
next
  case None
  then have up: "\<not> (working inp = None \<and> (case in_Local inp of None \<Rightarrow> False | Some l \<Rightarrow> fst (Down l)))"
    using down_of_Some_iff [of inp] by (auto split: option.splits)
  note D = Decide_combine [OF None]
  note rules = verdict_rules_def Let_def first_rule.simps if_not_P [OF up]
  show ?thesis
  proof (cases "working inp")
    case None
    show ?thesis
    proof (cases "in_TCP inp = []")
      case True
      then have p: "path_of inp = None" by (rule path_of_None [THEN iffD2])
      show ?thesis
        unfolding D p rules using True None
        by (cases inp rule: dns_cases) (auto simp: combine_verdict on_handshake_def on_response_def no_connection_def)
    next
      case False
      then have "path_of inp = Some (tcpDecision inp (Summarize (in_TCP inp)))"
        using None by (simp add: path_of_eq)
      note p = this
      show ?thesis
        unfolding D p rules using False None
        by (cases inp rule: dns_cases) (auto simp: combine_verdict tcpDecision_verdict on_handshake_def on_response_def no_connection_def)
    qed
  next
    case (Some w)
    note w = this
    show ?thesis
    proof (cases "in_TLS inp")
      case None
      then have "path_of inp = Some (decide OK Low ''ok.tls'' [])"
        using w working_nonempty [OF w] by (simp add: path_of_eq)
      note p = this
      show ?thesis
        unfolding D p rules using None w working_nonempty [OF w]
        by (cases inp rule: dns_cases) (auto simp: combine_verdict on_handshake_def on_response_def no_connection_def)
    next
      case (Some t)
      then have p: "path_of inp = Some (tlsDecision inp (addr_String (fst (tcp_Addr w))) t)"
        using w working_nonempty [OF w] by (simp add: path_of_eq)
      show ?thesis
        unfolding D p rules combine_verdict
        using Some w working_nonempty [OF w] handshake_done_not_filtered [of t]
        by (cases inp rule: dns_cases; cases "in_HTTP inp"; cases "hs_Outcome (tls_Real t)")
          (simp_all add: tlsDecision_verdict serviceDecision_verdict httpDecision_verdict
            block_page_def handshake_done_def Blocked_def on_handshake_def on_response_def no_connection_def
            split: http_class.split)
    qed
  qed
qed

text \<open>
  Claim C5. The verdict of the engine is the first row of the table whose condition holds, and
  Inconclusive when none does: the nested decisions by layer, the two decisions that are combined
  afterwards and the early returns amount to one order of priority between the causes, in which
  a dead machine comes first, what the path proves comes before what the name servers answered,
  and a healthy path is only believed when nothing else fits.
\<close>

theorem Decide_first_rule: "d_Verdict (Decide inp) = first_rule (verdict_rules inp)"
  by (rule Decide_rules)

end
