(* ===== verification/Messages.thy ===== *)
theory Messages
  imports Model Runes
begin

text \<open>
  Package i18n, file messages.go: the two message tables, key by key. A Go string is its bytes; the
  Persian runs of a message are written as their code points and encoded by \<open>uni\<close>.
\<close>

section \<open>English\<close>

definition english :: "(string \<times> string) list" where
  "english =
     [(''label.target'', ''TARGET''),
      (''label.verdict'', ''VERDICT''),
      (''label.confidence'', ''CONF''),
      (''label.explanation'', ''EXPLANATION''),
      (''label.summary'', ''Summary''),
      (''label.suggestions'', ''What to do''),
      (''label.also'', ''also''),
      (''label.evidence'', ''Evidence''),
      (''label.environment'', ''Environment''),
      (''label.local'', ''Local network''),
      (''label.checked'', ''Checked {total} targets in {duration}.''),
      (''label.vpn'', ''VPN-like interfaces detected: {names}. Results describe the path through the VPN.''),
      (''label.proxy_env'', ''Proxy environment variables are set ({names}). Chera connects directly unless --proxy is given.''),
      (''label.proxy_sys'', ''A system proxy is configured ({proxy}). Browsers may use it; Chera connects directly unless --proxy is given.''),
      (''label.proxy_flag'', ''All connections go through the proxy given with --proxy.''),
      (''label.dns_hijack'', ''DNS interception detected: a query sent to a non-DNS address got an answer.''),
      (''label.local_down'', ''The local network looks down: {detail}.''),
      (''label.doh_down'', ''No DNS-over-HTTPS resolver could be reached (they may be filtered). DNS results are compared with plain DNS only and are less reliable.''),
      (''confidence.high'', ''high''),
      (''confidence.medium'', ''medium''),
      (''confidence.low'', ''low''),
      (''summary.OK'', ''{n} of {total} services reachable''),
      (''summary.LOCAL_NETWORK_DOWN'', ''local network down for {n}''),
      (''summary.DNS_POISONED'', ''DNS is poisoned for {n}''),
      (''summary.DNS_INTERCEPTED'', ''DNS is intercepted for {n}''),
      (''summary.IP_BLOCKED'', ''{n} of {total} blocked by IP''),
      (''summary.CONNECTION_RESET'', ''{n} of {total} reset by the network''),
      (''summary.SNI_FILTERED'', ''{n} of {total} services blocked by SNI filtering''),
      (''summary.TLS_INTERCEPTED'', ''TLS is intercepted for {n}''),
      (''summary.BLOCK_PAGE'', ''{n} of {total} show a block page''),
      (''summary.PROVIDER_GEO_BLOCK'', ''{n} of {total} blocked by the provider for your region''),
      (''summary.THROTTLED'', ''{n} of {total} throttled''),
      (''summary.UPSTREAM_OUTAGE'', ''{n} of {total} have an upstream outage''),
      (''summary.INCONCLUSIVE'', ''{n} inconclusive''),
      (''summary.none'', ''No targets were checked.''),
      (''summary.sep'', ''; ''),
      (''reason.ok.http'', ''Reachable; the real service answered HTTP {status}''),
      (''reason.ok.tls'', ''TLS handshake with the real service succeeded''),
      (''reason.local.no_interface'', ''No active network interface''),
      (''reason.local.no_route'', ''No default route; this device is not connected to a network''),
      (''reason.local.unreachable'', ''No well-known host is reachable; the connection itself is down''),
      (''reason.dns.block_ip'', ''DNS answered {ip}, a known block-page address''),
      (''reason.dns.bogon'', ''DNS answered {ip}, a private/reserved address, while DoH returned public addresses''),
      (''reason.dns.bogon_plain'', ''DNS answered {ip}, a private/reserved address, while a public resolver returned public addresses''),
      (''reason.dns.mismatch'', ''DNS answered {ip}, which does not serve a valid certificate for this host''),
      (''reason.dns.nxdomain'', ''Local DNS says the name does not exist, but DoH resolves it''),
      (''reason.dns.nxdomain_plain'', ''Local DNS says the name does not exist, but a public resolver resolves it''),
      (''reason.dns.failed'', ''Local DNS failed ({error}) while DoH resolves the name''),
      (''reason.dns.failed_plain'', ''Local DNS failed ({error}) while a public resolver resolves the name''),
      (''reason.dns.intercepted'', ''DNS queries are hijacked on the path and rewritten ({ip})''),
      (''reason.dns.dropped'', ''DNS queries for this name are dropped on the path, even to public resolvers, while other names resolve''),
      (''reason.dns.unresolvable'', ''No resolver, including DoH, could resolve the name''),
      (''reason.dns.unresolvable_nodoh'', ''No resolver could resolve the name, and no DoH resolver could be reached to check''),
      (''reason.tcp.timeout'', ''TCP connections to {ip} time out (packets are dropped)''),
      (''reason.tcp.reset'', ''TCP connections to {ip} are actively refused or reset''),
      (''reason.tcp.unreachable'', ''{ip} is unreachable (no route to host)''),
      (''reason.tls.sni_reset'', ''TLS is reset right after the ClientHello for this name, but works with another SNI''),
      (''reason.tls.sni_timeout'', ''TLS stalls after the ClientHello for this name, but works with another SNI''),
      (''reason.tls.reset'', ''TLS handshakes to {ip} are reset whatever the SNI''),
      (''reason.tls.timeout'', ''TLS handshakes to {ip} time out whatever the SNI''),
      (''reason.tls.alert'', ''The server rejected the TLS handshake ({error})''),
      (''reason.tls.untrusted'', ''The certificate comes from an untrusted issuer ({issuer})''),
      (''reason.tls.hostname'', ''The certificate is not valid for this host (issuer: {issuer})''),
      (''reason.tls.expired'', ''The certificate is expired or not yet valid; check your system clock''),
      (''reason.tls.middlebox'', ''The certificate is issued by a TLS inspection product ({issuer})''),
      (''reason.http.block_page'', ''The HTTP response is a block page ({signature})''),
      (''reason.http.geo_block'', ''The real service answered HTTP {status} with an unsupported-region message''),
      (''reason.http.451'', ''The service answered HTTP 451 (unavailable for legal reasons)''),
      (''reason.http.5xx'', ''The service answered HTTP {status} (server-side error)''),
      (''reason.http.reset'', ''The HTTP request was reset after a successful TLS handshake''),
      (''reason.http.timeout'', ''The HTTP request timed out after a successful TLS handshake''),
      (''reason.http.error'', ''The HTTP request failed: {error}''),
      (''reason.outage.confirmed'', ''The official status page reports a problem: {description}''),
      (''reason.speed.throughput'', ''Throughput is {target} versus {baseline} to a baseline host''),
      (''reason.speed.handshake'', ''TLS handshake takes {target} versus {baseline} to a baseline host''),
      (''reason.inconclusive'', ''No clear cause found; see --verbose for the raw evidence''),
      (''suggest.OK'', ''Nothing to fix.''),
      (''suggest.LOCAL_NETWORK_DOWN'', ''Fix the local connection first (Wi-Fi, cable, modem, router), then run chera again.''),
      (''suggest.DNS_POISONED'', ''DNS is poisoned: use a DNS-over-HTTPS or DNS-over-TLS resolver in your OS or browser, then re-run chera.''),
      (''suggest.DNS_INTERCEPTED'', ''DNS is intercepted on the path, so changing the resolver IP will not help: use an encrypted resolver (DoH/DoT).''),
      (''suggest.IP_BLOCKED'', ''The service's IP addresses are blocked by the network; DNS changes will not help.''),
      (''suggest.CONNECTION_RESET'', ''The network actively resets connections to this service; DNS changes will not help.''),
      (''suggest.SNI_FILTERED'', ''The network filters TLS connections by the server name (SNI); DNS changes will not help.''),
      (''suggest.TLS_INTERCEPTED'', ''TLS is being intercepted: do not send passwords or tokens over this network. If this is a company network, ask its administrators.''),
      (''suggest.BLOCK_PAGE'', ''The network redirects this service to a block page (government or ISP filtering).''),
      (''suggest.PROVIDER_GEO_BLOCK'', ''The provider blocks your region: this is not a local network problem, and DNS or network changes will not fix it.''),
      (''suggest.THROTTLED'', ''The service is reachable but severely slowed down on this network; retry later or use a mirror.''),
      (''suggest.UPSTREAM_OUTAGE'', ''The service itself is having problems; wait and check its status page.''),
      (''suggest.INCONCLUSIVE'', ''Run again with --verbose and include the --markdown report when asking for help.''),
      (''hint.github'', ''For Git, a mirror of the repository or a release asset mirror may help.''),
      (''hint.pypi'', ''For packages, use a reachable PyPI mirror (pip --index-url or pip config).''),
      (''hint.npm'', ''For packages, use a reachable npm registry mirror (npm config set registry).''),
      (''hint.docker'', ''For images, configure a reachable registry mirror (registry-mirrors in daemon.json).''),
      (''hint.huggingface'', ''For models, set HF_ENDPOINT to a reachable Hugging Face mirror.''),
      (''hint.go'', ''For modules, set GOPROXY to a reachable module proxy.''),
      (''hint.crates'', ''For crates, configure a reachable mirror with source replacement in .cargo/config.toml.''),
      (''hint.ai'', ''Check the provider's list of supported regions.''),
      (''error.no_targets'', ''no targets to check'')]"

section \<open>Persian\<close>

definition persian :: "(string \<times> string) list" where
  "persian =
     [(''label.target'', uni [1605, 1602, 1589, 1583]),
      (''label.verdict'', uni [1606, 1578, 1740, 1580, 1607]),
      (''label.confidence'', uni [1575, 1591, 1605, 1740, 1606, 1575, 1606]),
      (''label.explanation'', uni [1578, 1608, 1590, 1740, 1581]),
      (''label.summary'', uni [1582, 1604, 1575, 1589, 1607]),
      (''label.suggestions'', uni [1670, 1607, 32, 1576, 1575, 1740, 1583, 32, 1705, 1585, 1583]),
      (''label.also'', uni [1607, 1605, 1670, 1606, 1740, 1606]),
      (''label.evidence'', uni [1588, 1608, 1575, 1607, 1583]),
      (''label.environment'', uni [1605, 1581, 1740, 1591]),
      (''label.local'', uni [1588, 1576, 1705, 1607, 32, 1605, 1581, 1604, 1740]),
      (''label.checked'', ''{total} '' @ uni [1605, 1602, 1589, 1583, 32, 1583, 1585] @ '' {duration} '' @ uni [1576, 1585, 1585, 1587, 1740, 32,
         1588, 1583] @ ''.''),
      (''label.vpn'', uni [1585, 1575, 1576, 1591, 8204, 1607, 1575, 1740, 32, 1588, 1576, 1740, 1607] @ '' VPN '' @ uni [1662, 1740, 1583, 1575, 32,
         1588, 1583] @ '': {names}. '' @ uni [1606, 1578, 1575, 1740, 1580, 32, 1605, 1587, 1740, 1585, 32, 1593, 1576, 1608, 1585, 32, 1575,
         1586] @ '' VPN '' @ uni [1585, 1575, 32, 1606, 1588, 1575, 1606, 32, 1605, 1740, 8204, 1583, 1607, 1606, 1583] @ ''.''),
      (''label.proxy_env'', uni [1605, 1578, 1594, 1740, 1585, 1607, 1575, 1740, 32, 1605, 1581, 1740, 1591, 1740, 32, 1662, 1585, 1575, 1705, 1587,
         1740, 32, 1578, 1606, 1592, 1740, 1605, 32, 1588, 1583, 1607, 8204, 1575, 1606, 1583] @ '' ({names}). '' @ uni [1670, 1585, 1575, 32, 1605,
         1587, 1578, 1602, 1740, 1605, 32, 1608, 1589, 1604, 32, 1605, 1740, 8204, 1588, 1608, 1583, 32, 1605, 1711, 1585, 32, 1575, 1740, 1606,
         1705, 1607] @ '' --proxy '' @ uni [1583, 1575, 1583, 1607, 32, 1588, 1608, 1583] @ ''.''),
      (''label.proxy_sys'', uni [1662, 1585, 1575, 1705, 1587, 1740, 32, 1587, 1740, 1587, 1578, 1605, 1740, 32, 1578, 1606, 1592, 1740, 1605, 32,
         1588, 1583, 1607, 32, 1575, 1587, 1578] @ '' ({proxy}). '' @ uni [1605, 1585, 1608, 1585, 1711, 1585, 1607, 1575, 32, 1605, 1605, 1705,
         1606, 32, 1575, 1587, 1578, 32, 1575, 1586, 32, 1570, 1606, 32, 1575, 1587, 1578, 1601, 1575, 1583, 1607, 32, 1705, 1606, 1606, 1583, 1563,
         32, 1670, 1585, 1575, 32, 1605, 1587, 1578, 1602, 1740, 1605, 32, 1608, 1589, 1604, 32, 1605, 1740, 8204, 1588, 1608, 1583, 32, 1605, 1711,
         1585, 32, 1575, 1740, 1606, 1705, 1607] @ '' --proxy '' @ uni [1583, 1575, 1583, 1607, 32, 1588, 1608, 1583] @ ''.''),
      (''label.proxy_flag'', uni [1607, 1605, 1607, 32, 1575, 1578, 1589, 1575, 1604, 8204, 1607, 1575, 32, 1575, 1586, 32, 1662, 1585, 1575, 1705,
         1587, 1740, 32, 1583, 1575, 1583, 1607, 8204, 1588, 1583, 1607, 32, 1576, 1575] @ '' --proxy '' @ uni [1593, 1576, 1608, 1585, 32, 1605,
         1740, 8204, 1705, 1606, 1606, 1583] @ ''.''),
      (''label.dns_hijack'', uni [1585, 1607, 1711, 1740, 1585, 1740] @ '' DNS '' @ uni [1578, 1588, 1582, 1740, 1589, 32, 1583, 1575, 1583, 1607,
         32, 1588, 1583] @ '': '' @ uni [1662, 1585, 1587, 8204, 1608, 1580, 1608, 1740, 1740, 32, 1705, 1607, 32, 1576, 1607, 32, 1740, 1705, 32,
         1570, 1583, 1585, 1587, 32, 1594, 1740, 1585] @ '' DNS '' @ uni [1601, 1585, 1587, 1578, 1575, 1583, 1607, 32, 1588, 1583, 32, 1662, 1575,
         1587, 1582, 32, 1711, 1585, 1601, 1578] @ ''.''),
      (''label.local_down'', uni [1588, 1576, 1705, 1607, 32, 1605, 1581, 1604, 1740, 32, 1602, 1591, 1593, 32, 1576, 1607, 32, 1606, 1592, 1585, 32,
         1605, 1740, 8204, 1585, 1587, 1583] @ '': {detail}.''),
      (''label.doh_down'', uni [1576, 1607, 32, 1607, 1740, 1670, 32, 1587, 1585, 1608, 1585] @ '' DNS-over-HTTPS '' @ uni [1583, 1587, 1578, 1585,
         1587, 1740, 32, 1606, 1576, 1608, 1583] @ '' ('' @ uni [1605, 1605, 1705, 1606, 32, 1575, 1587, 1578, 32, 1601, 1740, 1604, 1578, 1585, 32,
         1588, 1583, 1607, 32, 1576, 1575, 1588, 1606, 1583] @ ''). '' @ uni [1606, 1578, 1575, 1740, 1580] @ '' DNS '' @ uni [1601, 1602, 1591, 32,
         1576, 1575] @ '' DNS '' @ uni [1605, 1593, 1605, 1608, 1604, 1740, 32, 1605, 1602, 1575, 1740, 1587, 1607, 32, 1588, 1583, 1607, 8204, 1575,
         1606, 1583, 32, 1608, 32, 1705, 1605, 1578, 1585, 32, 1602, 1575, 1576, 1604, 32, 1575, 1593, 1578, 1605, 1575, 1583, 1606, 1583] @ ''.''),
      (''confidence.high'', uni [1586, 1740, 1575, 1583]),
      (''confidence.medium'', uni [1605, 1578, 1608, 1587, 1591]),
      (''confidence.low'', uni [1705, 1605]),
      (''summary.OK'', ''{n} '' @ uni [1575, 1586] @ '' {total} '' @ uni [1587, 1585, 1608, 1740, 1587, 32, 1583, 1585, 32, 1583, 1587, 1578, 1585,
         1587, 32, 1575, 1587, 1578]),
      (''summary.LOCAL_NETWORK_DOWN'', uni [1588, 1576, 1705, 1607, 32, 1605, 1581, 1604, 1740, 32, 1576, 1585, 1575, 1740] @ '' {n} '' @ uni [1605,
         1608, 1585, 1583, 32, 1602, 1591, 1593, 32, 1575, 1587, 1578]),
      (''summary.DNS_POISONED'', ''DNS '' @ uni [1576, 1585, 1575, 1740] @ '' {n} '' @ uni [1605, 1608, 1585, 1583, 32, 1605, 1587, 1605, 1608, 1605,
         32, 1575, 1587, 1578]),
      (''summary.DNS_INTERCEPTED'', ''DNS '' @ uni [1576, 1585, 1575, 1740] @ '' {n} '' @ uni [1605, 1608, 1585, 1583, 32, 1585, 1607, 1711, 1740,
         1585, 1740, 32, 1605, 1740, 8204, 1588, 1608, 1583]),
      (''summary.IP_BLOCKED'', ''{n} '' @ uni [1575, 1586] @ '' {total} '' @ uni [1576, 1575] @ '' IP '' @ uni [1605, 1587, 1583, 1608, 1583, 32,
         1588, 1583, 1607, 32, 1575, 1587, 1578]),
      (''summary.CONNECTION_RESET'', uni [1575, 1578, 1589, 1575, 1604] @ '' {n} '' @ uni [1575, 1586] @ '' {total} '' @ uni [1578, 1608, 1587, 1591,
         32, 1588, 1576, 1705, 1607, 32, 1585, 1740, 1587, 1578, 32, 1605, 1740, 8204, 1588, 1608, 1583]),
      (''summary.SNI_FILTERED'', ''{n} '' @ uni [1575, 1586] @ '' {total} '' @ uni [1587, 1585, 1608, 1740, 1587, 32, 1576, 1575, 32, 1601, 1740,
         1604, 1578, 1585, 1740, 1606, 1711] @ '' SNI '' @ uni [1605, 1587, 1583, 1608, 1583, 32, 1588, 1583, 1607, 32, 1575, 1587, 1578]),
      (''summary.TLS_INTERCEPTED'', ''TLS '' @ uni [1576, 1585, 1575, 1740] @ '' {n} '' @ uni [1605, 1608, 1585, 1583, 32, 1585, 1607, 1711, 1740,
         1585, 1740, 32, 1605, 1740, 8204, 1588, 1608, 1583]),
      (''summary.BLOCK_PAGE'', ''{n} '' @ uni [1575, 1586] @ '' {total} '' @ uni [1589, 1601, 1581, 1607, 32, 1605, 1587, 1583, 1608, 1583, 1587,
         1575, 1586, 1740, 32, 1606, 1588, 1575, 1606, 32, 1605, 1740, 8204, 1583, 1607, 1583]),
      (''summary.PROVIDER_GEO_BLOCK'', ''{n} '' @ uni [1575, 1586] @ '' {total} '' @ uni [1578, 1608, 1587, 1591, 32, 1582, 1608, 1583, 32, 1587,
         1585, 1608, 1740, 1587, 8204, 1583, 1607, 1606, 1583, 1607, 32, 1576, 1585, 1575, 1740, 32, 1605, 1606, 1591, 1602, 1607, 32, 1588, 1605,
         1575, 32, 1605, 1587, 1583, 1608, 1583, 32, 1588, 1583, 1607, 32, 1575, 1587, 1578]),
      (''summary.THROTTLED'', uni [1587, 1585, 1593, 1578] @ '' {n} '' @ uni [1575, 1586] @ '' {total} '' @ uni [1605, 1581, 1583, 1608, 1583, 32,
         1588, 1583, 1607, 32, 1575, 1587, 1578]),
      (''summary.UPSTREAM_OUTAGE'', ''{n} '' @ uni [1575, 1586] @ '' {total} '' @ uni [1583, 1670, 1575, 1585, 32, 1602, 1591, 1593, 1740, 32, 1587,
         1605, 1578, 32, 1587, 1585, 1608, 1740, 1587, 8204, 1583, 1607, 1606, 1583, 1607, 32, 1575, 1587, 1578]),
      (''summary.INCONCLUSIVE'', ''{n} '' @ uni [1605, 1608, 1585, 1583, 32, 1576, 1740, 8204, 1606, 1578, 1740, 1580, 1607]),
      (''summary.none'', uni [1607, 1740, 1670, 32, 1605, 1602, 1589, 1583, 1740, 32, 1576, 1585, 1585, 1587, 1740, 32, 1606, 1588, 1583] @ ''.''),
      (''summary.sep'', uni [1563] @ '' ''),
      (''reason.ok.http'', uni [1583, 1585, 32, 1583, 1587, 1578, 1585, 1587, 32, 1575, 1587, 1578, 1563, 32, 1587, 1585, 1608, 1740, 1587, 32, 1575,
         1589, 1604, 1740, 32, 1576, 1575] @ '' HTTP {status} '' @ uni [1662, 1575, 1587, 1582, 32, 1583, 1575, 1583]),
      (''reason.ok.tls'', uni [1583, 1587, 1578, 8204, 1583, 1607, 1740] @ '' TLS '' @ uni [1576, 1575, 32, 1587, 1585, 1608, 1740, 1587, 32, 1575,
         1589, 1604, 1740, 32, 1605, 1608, 1601, 1602, 32, 1576, 1608, 1583]),
      (''reason.local.no_interface'', uni [1607, 1740, 1670, 32, 1585, 1575, 1576, 1591, 32, 1588, 1576, 1705, 1607, 32, 1601, 1593, 1575, 1604,
         1740, 32, 1608, 1580, 1608, 1583, 32, 1606, 1583, 1575, 1585, 1583]),
      (''reason.local.no_route'', uni [1605, 1587, 1740, 1585, 32, 1662, 1740, 1588, 8204, 1601, 1585, 1590, 32, 1608, 1580, 1608, 1583, 32, 1606,
         1583, 1575, 1585, 1583, 1563, 32, 1575, 1740, 1606, 32, 1583, 1587, 1578, 1711, 1575, 1607, 32, 1576, 1607, 32, 1588, 1576, 1705, 1607, 32,
         1608, 1589, 1604, 32, 1606, 1740, 1587, 1578]),
      (''reason.local.unreachable'', uni [1607, 1740, 1670, 32, 1605, 1740, 1586, 1576, 1575, 1606, 32, 1588, 1606, 1575, 1582, 1578, 1607, 8204,
         1588, 1583, 1607, 8204, 1575, 1740, 32, 1583, 1585, 32, 1583, 1587, 1578, 1585, 1587, 32, 1606, 1740, 1587, 1578, 1563, 32, 1582, 1608,
         1583, 32, 1575, 1578, 1589, 1575, 1604, 32, 1602, 1591, 1593, 32, 1575, 1587, 1578]),
      (''reason.dns.block_ip'', ''DNS '' @ uni [1570, 1583, 1585, 1587] @ '' {ip} '' @ uni [1585, 1575, 32, 1576, 1585, 1711, 1585, 1583, 1575, 1606,
         1583, 32, 1705, 1607, 32, 1570, 1583, 1585, 1587, 32, 1588, 1606, 1575, 1582, 1578, 1607, 8204, 1588, 1583, 1607, 32, 1589, 1601, 1581,
         1607, 32, 1605, 1587, 1583, 1608, 1583, 1587, 1575, 1586, 1740, 32, 1575, 1587, 1578]),
      (''reason.dns.bogon'', ''DNS '' @ uni [1570, 1583, 1585, 1587, 32, 1582, 1589, 1608, 1589, 1740] @ ''/'' @ uni [1585, 1586, 1585, 1608, 8204,
         1588, 1583, 1607] @ '' {ip} '' @ uni [1585, 1575, 32, 1576, 1585, 1711, 1585, 1583, 1575, 1606, 1583, 1548, 32, 1583, 1585, 32, 1581, 1575,
         1604, 1740, 32, 1705, 1607] @ '' DoH '' @ uni [1570, 1583, 1585, 1587, 32, 1593, 1605, 1608, 1605, 1740, 32, 1583, 1575, 1583]),
      (''reason.dns.bogon_plain'', ''DNS '' @ uni [1570, 1583, 1585, 1587, 32, 1582, 1589, 1608, 1589, 1740] @ ''/'' @ uni [1585, 1586, 1585, 1608,
         8204, 1588, 1583, 1607] @ '' {ip} '' @ uni [1585, 1575, 32, 1576, 1585, 1711, 1585, 1583, 1575, 1606, 1583, 1548, 32, 1583, 1585, 32, 1581,
         1575, 1604, 1740, 32, 1705, 1607, 32, 1740, 1705] @ '' DNS '' @ uni [1593, 1605, 1608, 1605, 1740, 32, 1570, 1583, 1585, 1587, 32, 1593,
         1605, 1608, 1605, 1740, 32, 1583, 1575, 1583]),
      (''reason.dns.mismatch'', ''DNS '' @ uni [1570, 1583, 1585, 1587] @ '' {ip} '' @ uni [1585, 1575, 32, 1576, 1585, 1711, 1585, 1583, 1575, 1606,
         1583, 32, 1705, 1607, 32, 1711, 1608, 1575, 1607, 1740, 32, 1605, 1593, 1578, 1576, 1585, 1740, 32, 1576, 1585, 1575, 1740, 32, 1575, 1740,
         1606, 32, 1605, 1740, 1586, 1576, 1575, 1606, 32, 1606, 1583, 1575, 1585, 1583]),
      (''reason.dns.nxdomain'', ''DNS '' @ uni [1605, 1581, 1604, 1740, 32, 1605, 1740, 8204, 1711, 1608, 1740, 1583, 32, 1575, 1740, 1606, 32, 1606,
         1575, 1605, 32, 1608, 1580, 1608, 1583, 32, 1606, 1583, 1575, 1585, 1583, 1548, 32, 1575, 1605, 1575] @ '' DoH '' @ uni [1570, 1606, 32,
         1585, 1575, 32, 1662, 1740, 1583, 1575, 32, 1605, 1740, 8204, 1705, 1606, 1583]),
      (''reason.dns.nxdomain_plain'', ''DNS '' @ uni [1605, 1581, 1604, 1740, 32, 1605, 1740, 8204, 1711, 1608, 1740, 1583, 32, 1575, 1740, 1606, 32,
         1606, 1575, 1605, 32, 1608, 1580, 1608, 1583, 32, 1606, 1583, 1575, 1585, 1583, 1548, 32, 1575, 1605, 1575, 32, 1740,
         1705] @ '' DNS '' @ uni [1593, 1605, 1608, 1605, 1740, 32, 1570, 1606, 32, 1585, 1575, 32, 1662, 1740, 1583, 1575, 32, 1605, 1740, 8204,
         1705, 1606, 1583]),
      (''reason.dns.failed'', ''DNS '' @ uni [1605, 1581, 1604, 1740, 32, 1582, 1591, 1575, 32, 1583, 1575, 1583] @ '' ({error}) '' @ uni [1583,
         1585, 32, 1581, 1575, 1604, 1740, 32, 1705, 1607] @ '' DoH '' @ uni [1606, 1575, 1605, 32, 1585, 1575, 32, 1662, 1740, 1583, 1575, 32, 1605,
         1740, 8204, 1705, 1606, 1583]),
      (''reason.dns.failed_plain'', ''DNS '' @ uni [1605, 1581, 1604, 1740, 32, 1582, 1591, 1575, 32, 1583, 1575,
         1583] @ '' ({error}) '' @ uni [1583, 1585, 32, 1581, 1575, 1604, 1740, 32, 1705, 1607, 32, 1740, 1705] @ '' DNS '' @ uni [1593, 1605, 1608,
         1605, 1740, 32, 1606, 1575, 1605, 32, 1585, 1575, 32, 1662, 1740, 1583, 1575, 32, 1605, 1740, 8204, 1705, 1606, 1583]),
      (''reason.dns.intercepted'', uni [1662, 1585, 1587, 8204, 1608, 1580, 1608, 1607, 1575, 1740] @ '' DNS '' @ uni [1583, 1585, 32, 1605, 1587,
         1740, 1585, 32, 1585, 1576, 1608, 1583, 1607, 32, 1608, 32, 1576, 1575, 1586, 1606, 1608, 1740, 1587, 1740, 32, 1605, 1740, 8204, 1588,
         1608, 1606, 1583] @ '' ({ip})''),
      (''reason.dns.dropped'', uni [1662, 1585, 1587, 8204, 1608, 1580, 1608, 1607, 1575, 1740] @ '' DNS '' @ uni [1576, 1585, 1575, 1740, 32, 1575,
         1740, 1606, 32, 1606, 1575, 1605, 1548, 32, 1581, 1578, 1740, 32, 1576, 1607] @ '' DNS'' @ uni [1607, 1575, 1740, 32, 1593, 1605, 1608,
         1605, 1740, 1548, 32, 1583, 1585, 32, 1605, 1587, 1740, 1585, 32, 1583, 1608, 1585, 32, 1585, 1740, 1582, 1578, 1607, 32, 1605, 1740, 8204,
         1588, 1608, 1606, 1583, 1548, 32, 1583, 1585, 32, 1581, 1575, 1604, 1740, 32, 1705, 1607, 32, 1606, 1575, 1605, 8204, 1607, 1575, 1740, 32,
         1583, 1740, 1711, 1585, 32, 1662, 1740, 1583, 1575, 32, 1605, 1740, 8204, 1588, 1608, 1606, 1583]),
      (''reason.dns.unresolvable'', uni [1607, 1740, 1670, 32, 1587, 1585, 1608, 1585] @ '' DNS'' @ uni [1548, 32, 1581, 1578,
         1740] @ '' DoH'' @ uni [1548, 32, 1606, 1578, 1608, 1575, 1606, 1587, 1578, 32, 1575, 1740, 1606, 32, 1606, 1575, 1605, 32, 1585, 1575, 32,
         1662, 1740, 1583, 1575, 32, 1705, 1606, 1583]),
      (''reason.dns.unresolvable_nodoh'', uni [1607, 1740, 1670, 32, 1587, 1585, 1608, 1585] @ '' DNS '' @ uni [1606, 1578, 1608, 1575, 1606, 1587,
         1578, 32, 1575, 1740, 1606, 32, 1606, 1575, 1605, 32, 1585, 1575, 32, 1662, 1740, 1583, 1575, 32, 1705, 1606, 1583, 32, 1608, 32, 1576,
         1585, 1575, 1740, 32, 1576, 1585, 1585, 1587, 1740, 32, 1576, 1607, 32, 1607, 1740, 1670, 32, 1587, 1585, 1608,
         1585] @ '' DoH '' @ uni [1583, 1587, 1578, 1585, 1587, 1740, 32, 1606, 1576, 1608, 1583]),
      (''reason.tcp.timeout'', uni [1575, 1578, 1589, 1575, 1604] @ '' TCP '' @ uni [1576, 1607] @ '' {ip} '' @ uni [1576, 1607, 32, 1662, 1575,
         1740, 1575, 1606, 32, 1605, 1607, 1604, 1578, 32, 1605, 1740, 8204, 1585, 1587, 1583] @ '' ('' @ uni [1576, 1587, 1578, 1607, 8204, 1607,
         1575, 32, 1583, 1608, 1585, 32, 1585, 1740, 1582, 1578, 1607, 32, 1605, 1740, 8204, 1588, 1608, 1606, 1583] @ '')''),
      (''reason.tcp.reset'', uni [1575, 1578, 1589, 1575, 1604] @ '' TCP '' @ uni [1576, 1607] @ '' {ip} '' @ uni [1601, 1593, 1575, 1604, 1575,
         1606, 1607, 32, 1585, 1583, 32, 1740, 1575, 32, 1585, 1740, 1587, 1578, 32, 1605, 1740, 8204, 1588, 1608, 1583]),
      (''reason.tcp.unreachable'', ''{ip} '' @ uni [1583, 1585, 32, 1583, 1587, 1578, 1585, 1587, 32, 1606, 1740, 1587, 1578] @ '' ('' @ uni [1605,
         1587, 1740, 1585, 1740, 32, 1576, 1607, 32, 1605, 1740, 1586, 1576, 1575, 1606, 32, 1608, 1580, 1608, 1583, 32, 1606, 1583, 1575, 1585,
         1583] @ '')''),
      (''reason.tls.sni_reset'', ''TLS '' @ uni [1583, 1585, 1587, 1578, 32, 1662, 1587, 32, 1575, 1586] @ '' ClientHello '' @ uni [1576, 1585, 1575,
         1740, 32, 1575, 1740, 1606, 32, 1606, 1575, 1605, 32, 1585, 1740, 1587, 1578, 32, 1605, 1740, 8204, 1588, 1608, 1583, 1548, 32, 1575, 1605,
         1575, 32, 1576, 1575] @ '' SNI '' @ uni [1583, 1740, 1711, 1585, 32, 1705, 1575, 1585, 32, 1605, 1740, 8204, 1705, 1606, 1583]),
      (''reason.tls.sni_timeout'', ''TLS '' @ uni [1662, 1587, 32, 1575, 1586] @ '' ClientHello '' @ uni [1576, 1585, 1575, 1740, 32, 1575, 1740,
         1606, 32, 1606, 1575, 1605, 32, 1605, 1578, 1608, 1602, 1601, 32, 1605, 1740, 8204, 1588, 1608, 1583, 1548, 32, 1575, 1605, 1575, 32, 1576,
         1575] @ '' SNI '' @ uni [1583, 1740, 1711, 1585, 32, 1705, 1575, 1585, 32, 1605, 1740, 8204, 1705, 1606, 1583]),
      (''reason.tls.reset'', uni [1583, 1587, 1578, 8204, 1583, 1607, 1740] @ '' TLS '' @ uni [1576, 1575] @ '' {ip} '' @ uni [1576, 1575, 32, 1607,
         1585] @ '' SNI '' @ uni [1585, 1740, 1587, 1578, 32, 1605, 1740, 8204, 1588, 1608, 1583]),
      (''reason.tls.timeout'', uni [1583, 1587, 1578, 8204, 1583, 1607, 1740] @ '' TLS '' @ uni [1576, 1575] @ '' {ip} '' @ uni [1576, 1575, 32,
         1607, 1585] @ '' SNI '' @ uni [1576, 1607, 32, 1662, 1575, 1740, 1575, 1606, 32, 1605, 1607, 1604, 1578, 32, 1605, 1740, 8204, 1585, 1587,
         1583]),
      (''reason.tls.alert'', uni [1587, 1585, 1608, 1585, 32, 1583, 1587, 1578, 8204, 1583, 1607, 1740] @ '' TLS '' @ uni [1585, 1575, 32, 1585,
         1583, 32, 1705, 1585, 1583] @ '' ({error})''),
      (''reason.tls.untrusted'', uni [1711, 1608, 1575, 1607, 1740, 32, 1575, 1586, 32, 1589, 1575, 1583, 1585, 1705, 1606, 1606, 1583, 1607, 32,
         1606, 1575, 1605, 1593, 1578, 1576, 1585, 32, 1575, 1587, 1578] @ '' ({issuer})''),
      (''reason.tls.hostname'', uni [1711, 1608, 1575, 1607, 1740, 32, 1576, 1585, 1575, 1740, 32, 1575, 1740, 1606, 32, 1605, 1740, 1586, 1576,
         1575, 1606, 32, 1605, 1593, 1578, 1576, 1585, 32, 1606, 1740, 1587, 1578] @ '' ('' @ uni [1589, 1575, 1583, 1585, 1705, 1606, 1606, 1583,
         1607] @ '': {issuer})''),
      (''reason.tls.expired'', uni [1711, 1608, 1575, 1607, 1740, 32, 1605, 1606, 1602, 1590, 1740, 32, 1588, 1583, 1607, 32, 1740, 1575, 32, 1607,
         1606, 1608, 1586, 32, 1605, 1593, 1578, 1576, 1585, 32, 1606, 1740, 1587, 1578, 1563, 32, 1587, 1575, 1593, 1578, 32, 1587, 1740, 1587,
         1578, 1605, 32, 1585, 1575, 32, 1576, 1585, 1585, 1587, 1740, 32, 1705, 1606, 1740, 1583]),
      (''reason.tls.middlebox'', uni [1711, 1608, 1575, 1607, 1740, 32, 1578, 1608, 1587, 1591, 32, 1740, 1705, 32, 1605, 1581, 1589, 1608, 1604, 32,
         1576, 1575, 1586, 1585, 1587, 1740] @ '' TLS '' @ uni [1589, 1575, 1583, 1585, 32, 1588, 1583, 1607, 32, 1575, 1587,
         1578] @ '' ({issuer})''),
      (''reason.http.block_page'', uni [1662, 1575, 1587, 1582] @ '' HTTP '' @ uni [1740, 1705, 32, 1589, 1601, 1581, 1607, 32, 1605, 1587, 1583,
         1608, 1583, 1587, 1575, 1586, 1740, 32, 1575, 1587, 1578] @ '' ({signature})''),
      (''reason.http.geo_block'', uni [1587, 1585, 1608, 1740, 1587, 32, 1575, 1589, 1604, 1740, 32, 1576, 1575] @ '' HTTP {status} '' @ uni [1608,
         32, 1662, 1740, 1575, 1605, 32, 171, 1605, 1606, 1591, 1602, 1607, 32, 1662, 1588, 1578, 1740, 1576, 1575, 1606, 1740, 32, 1606, 1605, 1740,
         8204, 1588, 1608, 1583, 187, 32, 1662, 1575, 1587, 1582, 32, 1583, 1575, 1583]),
      (''reason.http.451'', uni [1587, 1585, 1608, 1740, 1587, 32, 1576, 1575] @ '' HTTP 451 '' @ uni [1662, 1575, 1587, 1582, 32, 1583, 1575,
         1583] @ '' ('' @ uni [1576, 1607, 32, 1583, 1604, 1575, 1740, 1604, 32, 1602, 1575, 1606, 1608, 1606, 1740, 32, 1583, 1585, 32, 1583, 1587,
         1578, 1585, 1587, 32, 1606, 1740, 1587, 1578] @ '')''),
      (''reason.http.5xx'', uni [1587, 1585, 1608, 1740, 1587, 32, 1576, 1575] @ '' HTTP {status} '' @ uni [1662, 1575, 1587, 1582, 32, 1583, 1575,
         1583] @ '' ('' @ uni [1582, 1591, 1575, 1740, 32, 1587, 1605, 1578, 32, 1587, 1585, 1608, 1585] @ '')''),
      (''reason.http.reset'', uni [1583, 1585, 1582, 1608, 1575, 1587, 1578] @ '' HTTP '' @ uni [1662, 1587, 32, 1575, 1586, 32, 1583, 1587, 1578,
         8204, 1583, 1607, 1740, 32, 1605, 1608, 1601, 1602] @ '' TLS '' @ uni [1585, 1740, 1587, 1578, 32, 1588, 1583]),
      (''reason.http.timeout'', uni [1583, 1585, 1582, 1608, 1575, 1587, 1578] @ '' HTTP '' @ uni [1662, 1587, 32, 1575, 1586, 32, 1583, 1587, 1578,
         8204, 1583, 1607, 1740, 32, 1605, 1608, 1601, 1602] @ '' TLS '' @ uni [1576, 1607, 32, 1662, 1575, 1740, 1575, 1606, 32, 1605, 1607, 1604,
         1578, 32, 1585, 1587, 1740, 1583]),
      (''reason.http.error'', uni [1583, 1585, 1582, 1608, 1575, 1587, 1578] @ '' HTTP '' @ uni [1606, 1575, 1605, 1608, 1601, 1602, 32, 1576, 1608,
         1583] @ '': {error}''),
      (''reason.outage.confirmed'', uni [1589, 1601, 1581, 1607, 32, 1608, 1590, 1593, 1740, 1578, 32, 1585, 1587, 1605, 1740, 32, 1605, 1588, 1705,
         1604, 1740, 32, 1585, 1575, 32, 1711, 1586, 1575, 1585, 1588, 32, 1605, 1740, 8204, 1705, 1606, 1583] @ '': {description}''),
      (''reason.speed.throughput'', uni [1587, 1585, 1593, 1578, 32, 1575, 1606, 1578, 1602, 1575, 1604] @ '' {target} '' @ uni [1575, 1587, 1578,
         32, 1583, 1585, 32, 1605, 1602, 1575, 1740, 1587, 1607, 32, 1576, 1575] @ '' {baseline} '' @ uni [1576, 1585, 1575, 1740, 32, 1605, 1740,
         1586, 1576, 1575, 1606, 32, 1605, 1576, 1606, 1575]),
      (''reason.speed.handshake'', uni [1583, 1587, 1578, 8204, 1583, 1607, 1740] @ '' TLS {target} '' @ uni [1591, 1608, 1604, 32, 1605, 1740, 8204,
         1705, 1588, 1583, 32, 1583, 1585, 32, 1605, 1602, 1575, 1740, 1587, 1607, 32, 1576, 1575] @ '' {baseline} '' @ uni [1576, 1585, 1575, 1740,
         32, 1605, 1740, 1586, 1576, 1575, 1606, 32, 1605, 1576, 1606, 1575]),
      (''reason.inconclusive'', uni [1593, 1604, 1578, 32, 1605, 1588, 1582, 1589, 1740, 32, 1662, 1740, 1583, 1575, 32, 1606, 1588, 1583, 1563, 32,
         1588, 1608, 1575, 1607, 1583, 32, 1705, 1575, 1605, 1604, 32, 1585, 1575, 32, 1576, 1575] @ '' --verbose '' @ uni [1576, 1576, 1740, 1606,
         1740, 1583]),
      (''suggest.OK'', uni [1605, 1588, 1705, 1604, 1740, 32, 1576, 1585, 1575, 1740, 32, 1585, 1601, 1593, 32, 1608, 1580, 1608, 1583, 32, 1606,
         1583, 1575, 1585, 1583] @ ''.''),
      (''suggest.LOCAL_NETWORK_DOWN'', uni [1575, 1576, 1578, 1583, 1575, 32, 1575, 1578, 1589, 1575, 1604, 32, 1605, 1581, 1604,
         1740] @ '' (Wi-Fi'' @ uni [1548, 32, 1705, 1575, 1576, 1604, 1548, 32, 1605, 1608, 1583, 1605, 1548, 32, 1585, 1608, 1578,
         1585] @ '') '' @ uni [1585, 1575, 32, 1583, 1585, 1587, 1578, 32, 1705, 1606, 1740, 1583, 32, 1608, 32, 1583, 1608, 1576, 1575, 1585, 1607,
         32, 1670, 1585, 1575, 32, 1585, 1575, 32, 1575, 1580, 1585, 1575, 32, 1705, 1606, 1740, 1583] @ ''.''),
      (''suggest.DNS_POISONED'', ''DNS '' @ uni [1605, 1587, 1605, 1608, 1605, 32, 1575, 1587, 1578] @ '': '' @ uni [1583, 1585, 32, 1587, 1740,
         1587, 1578, 1605, 8204, 1593, 1575, 1605, 1604, 32, 1740, 1575, 32, 1605, 1585, 1608, 1585, 1711, 1585, 32, 1575, 1586, 32, 1740,
         1705] @ '' DNS '' @ uni [1585, 1605, 1586, 1606, 1711, 1575, 1585, 1740, 8204, 1588, 1583, 1607] @ '' (DoH '' @ uni [1740,
         1575] @ '' DoT) '' @ uni [1575, 1587, 1578, 1601, 1575, 1583, 1607, 32, 1705, 1606, 1740, 1583, 32, 1608, 32, 1583, 1608, 1576, 1575, 1585,
         1607, 32, 1576, 1585, 1585, 1587, 1740, 32, 1705, 1606, 1740, 1583] @ ''.''),
      (''suggest.DNS_INTERCEPTED'', ''DNS '' @ uni [1583, 1585, 32, 1605, 1587, 1740, 1585, 32, 1585, 1607, 1711, 1740, 1585, 1740, 32, 1605, 1740,
         8204, 1588, 1608, 1583, 1548, 32, 1662, 1587, 32, 1578, 1594, 1740, 1740, 1585, 32, 1570, 1583, 1585, 1587, 32, 1587, 1585, 1608,
         1585] @ '' DNS '' @ uni [1705, 1605, 1705, 1740, 32, 1606, 1605, 1740, 8204, 1705, 1606, 1583] @ '': '' @ uni [1575,
         1586] @ '' DNS '' @ uni [1585, 1605, 1586, 1606, 1711, 1575, 1585, 1740, 8204, 1588, 1583, 1607] @ '' (DoH/DoT) '' @ uni [1575, 1587, 1578,
         1601, 1575, 1583, 1607, 32, 1705, 1606, 1740, 1583] @ ''.''),
      (''suggest.IP_BLOCKED'', uni [1570, 1583, 1585, 1587, 8204, 1607, 1575, 1740] @ '' IP '' @ uni [1575, 1740, 1606, 32, 1587, 1585, 1608, 1740,
         1587, 32, 1583, 1585, 32, 1588, 1576, 1705, 1607, 32, 1605, 1587, 1583, 1608, 1583, 32, 1588, 1583, 1607, 8204, 1575, 1606, 1583, 1563, 32,
         1578, 1594, 1740, 1740, 1585] @ '' DNS '' @ uni [1705, 1605, 1705, 1740, 32, 1606, 1605, 1740, 8204, 1705, 1606, 1583] @ ''.''),
      (''suggest.CONNECTION_RESET'', uni [1588, 1576, 1705, 1607, 32, 1575, 1578, 1589, 1575, 1604, 32, 1576, 1607, 32, 1575, 1740, 1606, 32, 1587,
         1585, 1608, 1740, 1587, 32, 1585, 1575, 32, 1601, 1593, 1575, 1604, 1575, 1606, 1607, 32, 1585, 1740, 1587, 1578, 32, 1605, 1740, 8204,
         1705, 1606, 1583, 1563, 32, 1578, 1594, 1740, 1740, 1585] @ '' DNS '' @ uni [1705, 1605, 1705, 1740, 32, 1606, 1605, 1740, 8204, 1705, 1606,
         1583] @ ''.''),
      (''suggest.SNI_FILTERED'', uni [1588, 1576, 1705, 1607, 32, 1575, 1578, 1589, 1575, 1604, 8204, 1607, 1575, 1740] @ '' TLS '' @ uni [1585,
         1575, 32, 1576, 1585, 32, 1575, 1587, 1575, 1587, 32, 1606, 1575, 1605, 32, 1587, 1585, 1608, 1585] @ '' (SNI) '' @ uni [1601, 1740, 1604,
         1578, 1585, 32, 1605, 1740, 8204, 1705, 1606, 1583, 1563, 32, 1578, 1594, 1740, 1740, 1585] @ '' DNS '' @ uni [1705, 1605, 1705, 1740, 32,
         1606, 1605, 1740, 8204, 1705, 1606, 1583] @ ''.''),
      (''suggest.TLS_INTERCEPTED'', uni [1578, 1585, 1575, 1601, 1740, 1705] @ '' TLS '' @ uni [1585, 1607, 1711, 1740, 1585, 1740, 32, 1605, 1740,
         8204, 1588, 1608, 1583] @ '': '' @ uni [1583, 1585, 32, 1575, 1740, 1606, 32, 1588, 1576, 1705, 1607, 32, 1585, 1605, 1586, 32, 1593, 1576,
         1608, 1585, 32, 1740, 1575, 32, 1578, 1608, 1705, 1606, 32, 1606, 1601, 1585, 1587, 1578, 1740, 1583] @ ''. '' @ uni [1575, 1711, 1585, 32,
         1588, 1576, 1705, 1607, 32, 1588, 1585, 1705, 1578, 32, 1575, 1587, 1578, 1548, 32, 1575, 1586, 32, 1605, 1583, 1740, 1585, 1575, 1606, 32,
         1570, 1606, 32, 1576, 1662, 1585, 1587, 1740, 1583] @ ''.''),
      (''suggest.BLOCK_PAGE'', uni [1588, 1576, 1705, 1607, 32, 1575, 1740, 1606, 32, 1587, 1585, 1608, 1740, 1587, 32, 1585, 1575, 32, 1576, 1607,
         32, 1589, 1601, 1581, 1607, 32, 1605, 1587, 1583, 1608, 1583, 1587, 1575, 1586, 1740, 32, 1607, 1583, 1575, 1740, 1578, 32, 1605, 1740,
         8204, 1705, 1606, 1583] @ '' ('' @ uni [1601, 1740, 1604, 1578, 1585, 1740, 1606, 1711, 32, 1583, 1608, 1604, 1578, 1740, 32, 1740,
         1575] @ '' ISP).''),
      (''suggest.PROVIDER_GEO_BLOCK'', uni [1582, 1608, 1583, 32, 1587, 1585, 1608, 1740, 1587, 8204, 1583, 1607, 1606, 1583, 1607, 32, 1605, 1606,
         1591, 1602, 1607, 32, 1588, 1605, 1575, 32, 1585, 1575, 32, 1605, 1587, 1583, 1608, 1583, 32, 1705, 1585, 1583, 1607, 32, 1575, 1587,
         1578] @ '': '' @ uni [1575, 1740, 1606, 32, 1605, 1588, 1705, 1604, 32, 1588, 1576, 1705, 1607, 32, 1605, 1581, 1604, 1740, 32, 1606, 1740,
         1587, 1578, 32, 1608, 32, 1578, 1594, 1740, 1740, 1585] @ '' DNS '' @ uni [1740, 1575, 32, 1588, 1576, 1705, 1607, 32, 1570, 1606, 32, 1585,
         1575, 32, 1581, 1604, 32, 1606, 1605, 1740, 8204, 1705, 1606, 1583] @ ''.''),
      (''suggest.THROTTLED'', uni [1587, 1585, 1608, 1740, 1587, 32, 1583, 1585, 32, 1583, 1587, 1578, 1585, 1587, 32, 1575, 1587, 1578, 32, 1575,
         1605, 1575, 32, 1583, 1585, 32, 1575, 1740, 1606, 32, 1588, 1576, 1705, 1607, 32, 1576, 1607, 32, 1588, 1583, 1578, 32, 1705, 1606, 1583,
         32, 1588, 1583, 1607, 32, 1575, 1587, 1578, 1563, 32, 1576, 1593, 1583, 1575, 1611, 32, 1583, 1608, 1576, 1575, 1585, 1607, 32, 1575, 1605,
         1578, 1581, 1575, 1606, 32, 1705, 1606, 1740, 1583, 32, 1740, 1575, 32, 1575, 1586, 32, 1740, 1705] @ '' mirror '' @ uni [1575, 1587, 1578,
         1601, 1575, 1583, 1607, 32, 1705, 1606, 1740, 1583] @ ''.''),
      (''suggest.UPSTREAM_OUTAGE'', uni [1582, 1608, 1583, 32, 1587, 1585, 1608, 1740, 1587, 32, 1583, 1670, 1575, 1585, 32, 1605, 1588, 1705, 1604,
         32, 1575, 1587, 1578, 1563, 32, 1589, 1576, 1585, 32, 1705, 1606, 1740, 1583, 32, 1608, 32, 1589, 1601, 1581, 1607, 32, 1608, 1590, 1593,
         1740, 1578, 32, 1570, 1606, 32, 1585, 1575, 32, 1576, 1585, 1585, 1587, 1740, 32, 1705, 1606, 1740, 1583] @ ''.''),
      (''suggest.INCONCLUSIVE'', uni [1576, 1575] @ '' --verbose '' @ uni [1583, 1608, 1576, 1575, 1585, 1607, 32, 1575, 1580, 1585, 1575, 32, 1705,
         1606, 1740, 1583, 32, 1608, 32, 1607, 1606, 1711, 1575, 1605, 32, 1583, 1585, 1582, 1608, 1575, 1587, 1578, 32, 1705, 1605, 1705, 1548, 32,
         1711, 1586, 1575, 1585, 1588] @ '' --markdown '' @ uni [1585, 1575, 32, 1590, 1605, 1740, 1605, 1607, 32, 1705, 1606, 1740, 1583] @ ''.''),
      (''hint.github'', uni [1576, 1585, 1575, 1740] @ '' Git'' @ uni [1548, 32, 1740, 1705] @ '' mirror '' @ uni [1575, 1586, 32, 1605, 1582, 1586,
         1606, 32, 1740, 1575, 32, 1601, 1575, 1740, 1604, 8204, 1607, 1575, 1740] @ '' release '' @ uni [1605, 1605, 1705, 1606, 32, 1575, 1587,
         1578, 32, 1705, 1605, 1705, 32, 1705, 1606, 1583] @ ''.''),
      (''hint.pypi'', uni [1576, 1585, 1575, 1740, 32, 1576, 1587, 1578, 1607, 8204, 1607, 1575, 32, 1575, 1586, 32, 1740,
         1705] @ '' mirror '' @ uni [1583, 1585, 32, 1583, 1587, 1578, 1585, 1587] @ '' PyPI '' @ uni [1575, 1587, 1578, 1601, 1575, 1583, 1607, 32,
         1705, 1606, 1740, 1583] @ '' (pip --index-url '' @ uni [1740, 1575] @ '' pip config).''),
      (''hint.npm'', uni [1576, 1585, 1575, 1740, 32, 1576, 1587, 1578, 1607, 8204, 1607, 1575, 32, 1575, 1586, 32, 1740,
         1705] @ '' mirror '' @ uni [1583, 1585, 32, 1583, 1587, 1578, 1585, 1587] @ '' npm '' @ uni [1575, 1587, 1578, 1601, 1575, 1583, 1607, 32,
         1705, 1606, 1740, 1583] @ '' (npm config set registry).''),
      (''hint.docker'', uni [1576, 1585, 1575, 1740] @ '' image'' @ uni [1607, 1575, 32, 1740, 1705] @ '' registry mirror '' @ uni [1583, 1585, 32,
         1583, 1587, 1578, 1585, 1587, 32, 1578, 1606, 1592, 1740, 1605, 32, 1705, 1606, 1740, 1583] @ '' (registry-mirrors '' @ uni [1583,
         1585] @ '' daemon.json).''),
      (''hint.huggingface'', uni [1576, 1585, 1575, 1740, 32, 1605, 1583, 1604, 8204, 1607, 1575] @ '' HF_ENDPOINT '' @ uni [1585, 1575, 32, 1585,
         1608, 1740, 32, 1740, 1705] @ '' mirror '' @ uni [1583, 1585, 32, 1583, 1587, 1578, 1585, 1587] @ '' Hugging Face '' @ uni [1578, 1606,
         1592, 1740, 1605, 32, 1705, 1606, 1740, 1583] @ ''.''),
      (''hint.go'', uni [1576, 1585, 1575, 1740, 32, 1605, 1575, 1688, 1608, 1604, 8204, 1607, 1575] @ '' GOPROXY '' @ uni [1585, 1575, 32, 1585,
         1608, 1740, 32, 1740, 1705] @ '' module proxy '' @ uni [1583, 1585, 32, 1583, 1587, 1578, 1585, 1587, 32, 1578, 1606, 1592, 1740, 1605, 32,
         1705, 1606, 1740, 1583] @ ''.''),
      (''hint.crates'', uni [1576, 1585, 1575, 1740] @ '' crate'' @ uni [1607, 1575, 32, 1740, 1705] @ '' mirror '' @ uni [1583, 1585, 32, 1583,
         1587, 1578, 1585, 1587, 32, 1585, 1575, 32, 1576, 1575] @ '' source replacement '' @ uni [1583, 1585, 32,
         8206] @ ''.cargo/config.toml '' @ uni [1578, 1606, 1592, 1740, 1605, 32, 1705, 1606, 1740, 1583] @ ''.''),
      (''hint.ai'', uni [1601, 1607, 1585, 1587, 1578, 32, 1605, 1606, 1575, 1591, 1602, 32, 1662, 1588, 1578, 1740, 1576, 1575, 1606, 1740, 8204,
         1588, 1583, 1607, 32, 1587, 1585, 1608, 1740, 1587, 8204, 1583, 1607, 1606, 1583, 1607, 32, 1585, 1575, 32, 1576, 1585, 1585, 1587, 1740,
         32, 1705, 1606, 1740, 1583] @ ''.''),
      (''error.no_targets'', uni [1607, 1740, 1670, 32, 1605, 1602, 1589, 1583, 1740, 32, 1576, 1585, 1575, 1740, 32, 1576, 1585, 1585, 1587, 1740,
         32, 1608, 1580, 1608, 1583, 32, 1606, 1583, 1575, 1585, 1583])]"

end
