(* ===== verification/I18n.thy ===== *)
theory I18n
  imports Messages Verdict
begin

text \<open>
  Package i18n, file i18n.go: choosing a language, the catalogue, and the replacement of
  placeholders. \<open>replacer\<close> is \<^verbatim>\<open>strings.Replacer\<close> for non-empty patterns: at each position the first
  pattern that matches, in the order given, is replaced, and the scan goes on behind it.

  The lemmas read a message as a template of literal text and placeholders, and show that every
  reason the verdict engine gives is rendered completely, in both languages.
\<close>

section \<open>Languages\<close>

datatype lang = EN | FA

fun lang_text :: "lang \<Rightarrow> string" where
  "lang_text EN = ''en''"
| "lang_text FA = ''fa''"

definition i18n_Parse :: "string \<Rightarrow> lang \<times> bool" where
  "i18n_Parse s0 =
     (let s = to_lower (trim_space s0) in
      if s = ''en'' \<or> has_prefix s ''en_'' \<or> has_prefix s ''en-'' then (EN, True)
      else if s = ''fa'' \<or> s = ''per'' \<or> s = ''persian'' \<or> s = ''farsi'' \<or> has_prefix s ''fa_'' \<or> has_prefix s ''fa-''
      then (FA, True)
      else (EN, False))"

definition localeVars :: "string list" where
  "localeVars = [''LC_ALL'', ''LC_MESSAGES'', ''LANG'', ''LANGUAGE'']"

fun detect_loop :: "(string \<Rightarrow> string) \<Rightarrow> string list \<Rightarrow> lang" where
  "detect_loop getenv [] = EN"
| "detect_loop getenv (v # vs) =
     (if getenv v = [] then detect_loop getenv vs
      else (case i18n_Parse (hd (split_on (CHR '':'') (getenv v))) of (l, ok) \<Rightarrow> if ok then l else EN))"

definition Detect :: "(string \<Rightarrow> string) \<Rightarrow> lang" where
  "Detect getenv = detect_loop getenv localeVars"

section \<open>The catalogue\<close>

record catalog =
  cat_Lang :: lang
  cat_msgs :: "string \<rightharpoonup> string"

definition i18n_New :: "lang \<Rightarrow> catalog" where
  "i18n_New l =
     \<lparr>cat_Lang = l, cat_msgs = (if l = FA then map_of english ++ map_of persian else map_of english)\<rparr>"

fun replacer :: "(string \<times> string) list \<Rightarrow> string \<Rightarrow> string" where
  "replacer pairs [] = []"
| "replacer pairs (c # s) =
     (case find (\<lambda>p. has_prefix (c # s) (fst p)) pairs of
        None \<Rightarrow> c # replacer pairs s
      | Some p \<Rightarrow> snd p @ replacer pairs (drop (length (fst p) - 1) s))"

definition cat_T :: "catalog \<Rightarrow> string \<Rightarrow> (string \<rightharpoonup> string) \<Rightarrow> string" where
  "cat_T c key args =
     (let msg = (case cat_msgs c key of None \<Rightarrow> key | Some m \<Rightarrow> m) in
      if args = Map.empty then msg
      else (let keys = sorted_list_of_set (dom args);
                pairs = map (\<lambda>k. (''{'' @ k @ ''}'', the (args k))) keys
            in replacer pairs msg))"

definition Explain :: "catalog \<Rightarrow> reason \<Rightarrow> string" where
  "Explain c r = cat_T c (''reason.'' @ reason_Key r) (reason_Args r)"

fun blocking :: "verdict \<Rightarrow> bool" where
  "blocking v =
     (v \<in> {DNSPoisoned, DNSIntercepted, IPBlocked, ConnectionReset, SNIFiltered, BlockPage, Throttled, ProviderGeoBlock})"

definition Suggest :: "catalog \<Rightarrow> verdict \<Rightarrow> string \<Rightarrow> string" where
  "Suggest c v knd =
     (let s = cat_T c (''suggest.'' @ verdict_text v) Map.empty in
      if knd \<noteq> [] \<and> blocking v
      then (case cat_msgs c (''hint.'' @ knd) of Some hint \<Rightarrow> s @ '' '' @ hint | None \<Rightarrow> s)
      else s)"

definition cat_Confidence :: "catalog \<Rightarrow> confidence \<Rightarrow> string" where
  "cat_Confidence c conf = cat_T c (''confidence.'' @ confidence_text conf) Map.empty"

definition Keys :: "lang \<Rightarrow> string list" where
  "Keys l = sort (map fst (if l = FA then persian else english))"

section \<open>Messages as templates\<close>

datatype seg = Lit string | Hole string

definition holes :: "seg list \<Rightarrow> string list" where
  "holes segs = concat (map (\<lambda>s. case s of Lit l \<Rightarrow> [] | Hole k \<Rightarrow> [k]) segs)"

definition fill :: "(string \<rightharpoonup> string) \<Rightarrow> seg list \<Rightarrow> string" where
  "fill args segs = concat (map (\<lambda>s. case s of Lit l \<Rightarrow> l | Hole k \<Rightarrow> the (args k)) segs)"

definition flatten :: "seg list \<Rightarrow> string" where
  "flatten segs = concat (map (\<lambda>s. case s of Lit l \<Rightarrow> l | Hole k \<Rightarrow> ''{'' @ k @ ''}'') segs)"

text \<open>The placeholder names of a message, in order; \<^const>\<open>None\<close> when a brace is left open.\<close>

fun scan :: "string option \<Rightarrow> string \<Rightarrow> string list option" where
  "scan None [] = Some []"
| "scan (Some k) [] = None"
| "scan None (c # s) = (if c = CHR ''{'' then scan (Some []) s else scan None s)"
| "scan (Some k) (c # s) =
     (if c = CHR ''}'' then map_option ((#) (rev k)) (scan None s)
      else if c = CHR ''{'' then None else scan (Some (c # k)) s)"

lemma utf8_high:
  assumes "128 \<le> n" "n < 65536" "c \<in> set (utf8 n)"
  shows "128 \<le> (of_char c :: nat)"
proof -
  have "n div 4096 < 16" "n div 64 < 1024" using assms(2) by simp_all
  then show ?thesis
    using assms by (auto simp: utf8_def split: if_splits)
qed

definition plain_text :: "nat list \<Rightarrow> bool" where
  "plain_text xs \<longleftrightarrow> list_all (\<lambda>n. n < 65536 \<and> (n = 32 \<or> 128 \<le> n)) xs"

lemma plain_text_simps [simp]:
  "plain_text []" "plain_text (n # xs) \<longleftrightarrow> n < 65536 \<and> (n = 32 \<or> 128 \<le> n) \<and> plain_text xs"
  by (simp_all add: plain_text_def)

lemma uni_no_brace: "plain_text xs \<Longrightarrow> CHR ''{'' \<notin> set (uni xs)"
proof (induction xs)
  case (Cons n xs)
  have "CHR ''{'' \<notin> set (utf8 n)"
  proof (cases "n = 32")
    case True
    then show ?thesis by (simp add: utf8_def) code_simp
  next
    case False
    have "(of_char (CHR ''{'') :: nat) = 123" by code_simp
    then show ?thesis using False Cons.prems utf8_high [of n "CHR ''{''"] by auto
  qed
  with Cons show ?case by (simp add: uni_def)
qed (simp add: uni_def)

lemma scan_skip: "CHR ''{'' \<notin> set w \<Longrightarrow> scan None (w @ s) = scan None s"
  by (induction w) auto

lemma scan_uni [simp]:
  "plain_text xs \<Longrightarrow> scan None (uni xs @ s) = scan None s"
  "plain_text xs \<Longrightarrow> scan None (uni xs) = Some []"
  using scan_skip [of "uni xs" s] scan_skip [of "uni xs" "[]"] by (simp_all add: uni_no_brace)

definition scan_table :: "(string \<times> string) list \<Rightarrow> (string \<times> string list option) list" where
  "scan_table tbl = map (\<lambda>(k, m). (k, scan None m)) tbl"

lemma scan_table_simps [simp]:
  "scan_table [] = []" "scan_table ((k, m) # tbl) = (k, scan None m) # scan_table tbl"
  by (simp_all add: scan_table_def)

text \<open>The placeholders of every key, the same in both languages.\<close>

definition message_holes :: "(string \<times> string list) list" where
  "message_holes =
     [(''label.target'', []), (''label.verdict'', []), (''label.confidence'', []), (''label.explanation'', []),
      (''label.summary'', []), (''label.suggestions'', []), (''label.also'', []), (''label.evidence'', []),
      (''label.environment'', []), (''label.local'', []), (''label.checked'', [''total'', ''duration'']),
      (''label.vpn'', [''names'']), (''label.proxy_env'', [''names'']), (''label.proxy_sys'', [''proxy'']),
      (''label.proxy_flag'', []), (''label.dns_hijack'', []), (''label.local_down'', [''detail'']), (''label.doh_down'', []),
      (''confidence.high'', []), (''confidence.medium'', []), (''confidence.low'', []), (''summary.OK'', [''n'', ''total'']),
      (''summary.LOCAL_NETWORK_DOWN'', [''n'']), (''summary.DNS_POISONED'', [''n'']), (''summary.DNS_INTERCEPTED'', [''n'']),
      (''summary.IP_BLOCKED'', [''n'', ''total'']), (''summary.CONNECTION_RESET'', [''n'', ''total'']),
      (''summary.SNI_FILTERED'', [''n'', ''total'']), (''summary.TLS_INTERCEPTED'', [''n'']),
      (''summary.BLOCK_PAGE'', [''n'', ''total'']), (''summary.PROVIDER_GEO_BLOCK'', [''n'', ''total'']),
      (''summary.THROTTLED'', [''n'', ''total'']), (''summary.UPSTREAM_OUTAGE'', [''n'', ''total'']),
      (''summary.INCONCLUSIVE'', [''n'']), (''summary.none'', []), (''summary.sep'', []), (''reason.ok.http'', [''status'']),
      (''reason.ok.tls'', []), (''reason.local.no_interface'', []), (''reason.local.no_route'', []),
      (''reason.local.unreachable'', []), (''reason.dns.block_ip'', [''ip'']), (''reason.dns.bogon'', [''ip'']),
      (''reason.dns.bogon_plain'', [''ip'']), (''reason.dns.mismatch'', [''ip'']), (''reason.dns.nxdomain'', []),
      (''reason.dns.nxdomain_plain'', []), (''reason.dns.failed'', [''error'']), (''reason.dns.failed_plain'', [''error'']),
      (''reason.dns.intercepted'', [''ip'']), (''reason.dns.dropped'', []), (''reason.dns.unresolvable'', []),
      (''reason.dns.unresolvable_nodoh'', []), (''reason.tcp.timeout'', [''ip'']), (''reason.tcp.reset'', [''ip'']),
      (''reason.tcp.unreachable'', [''ip'']), (''reason.tls.sni_reset'', []), (''reason.tls.sni_timeout'', []),
      (''reason.tls.reset'', [''ip'']), (''reason.tls.timeout'', [''ip'']), (''reason.tls.alert'', [''error'']),
      (''reason.tls.untrusted'', [''issuer'']), (''reason.tls.hostname'', [''issuer'']), (''reason.tls.expired'', []),
      (''reason.tls.middlebox'', [''issuer'']), (''reason.http.block_page'', [''signature'']),
      (''reason.http.geo_block'', [''status'']), (''reason.http.451'', []), (''reason.http.5xx'', [''status'']),
      (''reason.http.reset'', []), (''reason.http.timeout'', []), (''reason.http.error'', [''error'']),
      (''reason.outage.confirmed'', [''description'']), (''reason.speed.throughput'', [''target'', ''baseline'']),
      (''reason.speed.handshake'', [''target'', ''baseline'']), (''reason.inconclusive'', []), (''suggest.OK'', []),
      (''suggest.LOCAL_NETWORK_DOWN'', []), (''suggest.DNS_POISONED'', []), (''suggest.DNS_INTERCEPTED'', []),
      (''suggest.IP_BLOCKED'', []), (''suggest.CONNECTION_RESET'', []), (''suggest.SNI_FILTERED'', []),
      (''suggest.TLS_INTERCEPTED'', []), (''suggest.BLOCK_PAGE'', []), (''suggest.PROVIDER_GEO_BLOCK'', []),
      (''suggest.THROTTLED'', []), (''suggest.UPSTREAM_OUTAGE'', []), (''suggest.INCONCLUSIVE'', []), (''hint.github'', []),
      (''hint.pypi'', []), (''hint.npm'', []), (''hint.docker'', []), (''hint.huggingface'', []), (''hint.go'', []),
      (''hint.crates'', []), (''hint.ai'', []), (''error.no_targets'', [])]"

lemma scan_english: "scan_table english = map (\<lambda>(k, ns). (k, Some ns)) message_holes"
  by (simp add: english_def message_holes_def)

lemma scan_persian: "scan_table persian = map (\<lambda>(k, ns). (k, Some ns)) message_holes"
  by (simp add: persian_def message_holes_def)

lemma fst_scan_table: "map fst (scan_table tbl) = map fst tbl"
  by (simp add: scan_table_def case_prod_beta comp_def)

lemma keys_english: "map fst english = map fst message_holes"
  using fst_scan_table [of english] by (simp add: scan_english case_prod_beta comp_def)

lemma keys_persian: "map fst persian = map fst message_holes"
  using fst_scan_table [of persian] by (simp add: scan_persian case_prod_beta comp_def)

lemma map_of_scan_table: "map_of (scan_table tbl) k = map_option (scan None) (map_of tbl k)"
  by (induction tbl) (auto simp: scan_table_def)

lemma map_of_Some_map: "map_of (map (\<lambda>(k, ns). (k, Some ns)) xs) k = map_option Some (map_of xs k)"
  by (induction xs) auto

lemma cat_msgs_New: "cat_msgs (i18n_New l) = map_of (if l = FA then persian else english)"
proof -
  have "dom (map_of english) = dom (map_of persian)"
    by (simp only: dom_map_of_conv_image_fst flip: set_map) (simp only: keys_english keys_persian)
  then have "map_of english ++ map_of persian = map_of persian"
    by (intro ext) (metis domIff map_add_None map_add_dom_app_simps(1) not_None_eq)
  then show ?thesis by (simp add: i18n_New_def)
qed

lemma New_scan:
  "map_option (scan None) (cat_msgs (i18n_New l) k) = map_option Some (map_of message_holes k)"
  using map_of_scan_table [of english k] map_of_scan_table [of persian k]
  by (simp add: cat_msgs_New scan_english scan_persian map_of_Some_map)

lemma New_known: "map_of message_holes key = Some ns \<Longrightarrow> \<exists>m. cat_msgs (i18n_New l) key = Some m"
  using New_scan [of l key] by auto

lemma T_known: "cat_msgs c key = Some m \<Longrightarrow> cat_T c key Map.empty = m"
  by (simp add: cat_T_def)

section \<open>Filling a template\<close>

definition seg_ok :: "seg \<Rightarrow> bool" where
  "seg_ok s = (case s of Lit l \<Rightarrow> CHR ''{'' \<notin> set l | Hole k \<Rightarrow> CHR ''{'' \<notin> set k \<and> CHR ''}'' \<notin> set k)"

lemma seg_simps [simp]:
  "seg_ok (Lit l) \<longleftrightarrow> CHR ''{'' \<notin> set l" "seg_ok (Hole k) \<longleftrightarrow> CHR ''{'' \<notin> set k \<and> CHR ''}'' \<notin> set k"
  "holes [] = []" "holes (Lit l # ss) = holes ss" "holes (Hole k # ss) = k # holes ss"
  "flatten [] = []" "flatten (Lit l # ss) = l @ flatten ss" "flatten (Hole k # ss) = ''{'' @ k @ ''}'' @ flatten ss"
  "fill args [] = []" "fill args (Lit l # ss) = l @ fill args ss" "fill args (Hole k # ss) = the (args k) @ fill args ss"
  by (simp_all add: seg_ok_def holes_def flatten_def fill_def)

text \<open>A scanned message is a template; what is being read is the start of a name, or nothing.\<close>

lemma scan_template:
  "scan acc msg = Some ns \<Longrightarrow>
     (case acc of
        None \<Rightarrow> \<exists>segs. flatten segs = msg \<and> holes segs = ns \<and> list_all seg_ok segs
      | Some k \<Rightarrow> CHR ''{'' \<notin> set k \<and> CHR ''}'' \<notin> set k \<longrightarrow>
          (\<exists>segs. flatten segs = ''{'' @ rev k @ msg \<and> holes segs = ns \<and> list_all seg_ok segs))"
proof (induction acc msg arbitrary: ns rule: scan.induct)
  case 1
  then show ?case by (intro option.case_eq_if [THEN iffD2] ) (auto intro!: exI [of _ "[]"])
next
  case (2 k)
  then show ?case by simp
next
  case (3 c s)
  show ?case
  proof (cases "c = CHR ''{''")
    case True
    with 3 show ?thesis by auto
  next
    case False
    with 3 obtain segs where "flatten segs = s" "holes segs = ns" "list_all seg_ok segs" by auto
    with False have "flatten (Lit [c] # segs) = c # s \<and> holes (Lit [c] # segs) = ns \<and> list_all seg_ok (Lit [c] # segs)"
      by simp
    then have "\<exists>segs. flatten segs = c # s \<and> holes segs = ns \<and> list_all seg_ok segs" by (rule exI)
    then show ?thesis by simp
  qed
next
  case (4 k c s)
  show ?case
  proof (cases "c = CHR ''}''")
    case True
    with 4 obtain ns' where ns': "scan None s = Some ns'" "ns = rev k # ns'" by auto
    with 4(1) True obtain segs where "flatten segs = s" "holes segs = ns'" "list_all seg_ok segs" by auto
    then have "CHR ''{'' \<notin> set k \<and> CHR ''}'' \<notin> set k \<longrightarrow>
        flatten (Hole (rev k) # segs) = ''{'' @ rev k @ c # s \<and> holes (Hole (rev k) # segs) = ns
        \<and> list_all seg_ok (Hole (rev k) # segs)"
      by (simp add: True ns')
    then have "CHR ''{'' \<notin> set k \<and> CHR ''}'' \<notin> set k \<longrightarrow>
        (\<exists>segs. flatten segs = ''{'' @ rev k @ c # s \<and> holes segs = ns \<and> list_all seg_ok segs)" by blast
    then show ?thesis by simp
  next
    case False
    with 4(3) have c: "c \<noteq> CHR ''{''" "scan (Some (c # k)) s = Some ns" by (auto split: if_splits)
    from 4(2) [OF False c] False c(1) show ?thesis by auto
  qed
qed

abbreviation braced :: "string \<Rightarrow> string" where
  "braced k \<equiv> ''{'' @ k @ ''}''"

definition plain_keys :: "string set \<Rightarrow> bool" where
  "plain_keys ks \<longleftrightarrow> (\<forall>k \<in> ks. CHR ''}'' \<notin> set k)"

lemma replacer_lit:
  assumes "\<forall>p \<in> set pairs. \<exists>k. fst p = braced k"
  shows "CHR ''{'' \<notin> set l \<Longrightarrow> replacer pairs (l @ r) = l @ replacer pairs r"
proof (induction l)
  case (Cons c l)
  have "find (\<lambda>p. has_prefix (c # l @ r) (fst p)) pairs = None"
    using assms Cons.prems by (auto simp: find_None_iff has_prefix_iff)
  with Cons show ?case by simp
qed simp

lemma braced_prefix:
  "CHR ''}'' \<notin> set k \<Longrightarrow> CHR ''}'' \<notin> set k' \<Longrightarrow> has_prefix (braced k @ r) (braced k') \<longleftrightarrow> k' = k"
proof (induction k arbitrary: k')
  case Nil
  then show ?case by (cases k') (auto simp: has_prefix_iff)
next
  case (Cons c k)
  then show ?case by (cases k') (auto simp: has_prefix_iff)
qed

lemma replacer_hole:
  assumes keys: "plain_keys (set ks)" and k: "k \<in> set ks" "CHR ''}'' \<notin> set k"
  shows "replacer (map (\<lambda>k. (braced k, the (args k))) ks) (braced k @ r)
    = the (args k) @ replacer (map (\<lambda>k. (braced k, the (args k))) ks) r"
proof -
  let ?pairs = "map (\<lambda>k. (braced k, the (args k))) ks"
  have "find (\<lambda>p. has_prefix (braced k @ r) (fst p)) ?pairs = Some (braced k, the (args k))"
    using keys k(1)
  proof (induction ks)
    case (Cons a ks)
    then have "has_prefix (braced k @ r) (braced a) \<longleftrightarrow> a = k"
      by (intro braced_prefix [OF k(2)]) (simp add: plain_keys_def)
    with Cons show ?case by (auto simp: plain_keys_def)
  qed simp
  then show ?thesis by simp
qed

lemma replacer_fill:
  assumes "plain_keys (set ks)" and "list_all seg_ok segs" and "set (holes segs) \<subseteq> set ks"
  shows "replacer (map (\<lambda>k. (braced k, the (args k))) ks) (flatten segs) = fill args segs"
  using assms(2,3)
proof (induction segs)
  case (Cons s segs)
  show ?case
  proof (cases s)
    case (Lit l)
    with Cons show ?thesis by (simp add: replacer_lit)
  next
    case (Hole k)
    with Cons show ?thesis using replacer_hole [OF assms(1), of k args "flatten segs"] by simp
  qed
qed simp

lemma flatten_fill: "holes segs = [] \<Longrightarrow> flatten segs = fill args segs"
proof (induction segs)
  case (Cons s segs)
  then show ?case by (cases s) simp_all
qed simp

lemma T_fill:
  assumes "cat_msgs c key = Some (flatten segs)" and "list_all seg_ok segs"
    and "finite (dom args)" and "plain_keys (dom args)" and "set (holes segs) \<subseteq> dom args"
  shows "cat_T c key args = fill args segs"
proof (cases "args = Map.empty")
  case True
  then have "holes segs = []" using assms(5) by simp
  then show ?thesis using flatten_fill [of segs args] by (simp add: cat_T_def assms(1) True)
next
  case False
  then show ?thesis
    using replacer_fill [of "sorted_list_of_set (dom args)" segs args] assms
    by (simp add: cat_T_def Let_def)
qed

lemma T_holes:
  assumes "map_of message_holes key = Some ns"
    and "finite (dom args)" and "plain_keys (dom args)" and "set ns \<subseteq> dom args"
  shows "\<exists>segs. cat_msgs (i18n_New l) key = Some (flatten segs) \<and> list_all seg_ok segs \<and> holes segs = ns
    \<and> cat_T (i18n_New l) key args = fill args segs"
proof -
  obtain msg where msg: "cat_msgs (i18n_New l) key = Some msg" "scan None msg = Some ns"
    using New_scan [of l key] assms(1) by auto
  obtain segs where segs: "flatten segs = msg" "holes segs = ns" "list_all seg_ok segs"
    using scan_template [OF msg(2)] by auto
  have "cat_T (i18n_New l) key args = fill args segs"
    using msg(1) segs assms by (intro T_fill) simp_all
  then show ?thesis using msg(1) segs by auto
qed

lemma reason_holes:
  assumes "map_of reason_table key = Some (v, cs, names)"
  shows "\<exists>ns. map_of message_holes (''reason.'' @ key) = Some ns \<and> set ns \<subseteq> set names \<and> plain_keys (set names)"
proof -
  have "list_all (\<lambda>(key, v, cs, names). (case map_of message_holes (''reason.'' @ key) of
      None \<Rightarrow> False | Some ns \<Rightarrow> list_all (\<lambda>n. n \<in> set names) ns \<and> list_all (\<lambda>k. CHR ''}'' \<notin> set k) names)) reason_table"
    by code_simp
  moreover have "(key, v, cs, names) \<in> set reason_table" using assms by (rule map_of_SomeD)
  ultimately show ?thesis
    by (fastforce simp: list_all_iff plain_keys_def split: option.splits)
qed

lemma fixed_holes:
  "list_all (\<lambda>v. map_of message_holes (''suggest.'' @ verdict_text v) = Some []
     \<and> map_of message_holes (''summary.'' @ verdict_text v) \<in> {Some [''n''], Some [''n'', ''total'']}) AllVerdicts"
  "list_all (\<lambda>c. map_of message_holes (''confidence.'' @ confidence_text c) = Some []) [Low, Medium, High]"
  by code_simp+

lemma verdict_holes:
  "map_of message_holes (''suggest.'' @ verdict_text v) = Some []"
  "\<exists>ns. map_of message_holes (''summary.'' @ verdict_text v) = Some ns \<and> set ns \<subseteq> {''n'', ''total''}"
  using fixed_holes(1) set_AllVerdicts [of v] unfolding list_all_iff by (blast, force)

lemma confidence_holes: "map_of message_holes (''confidence.'' @ confidence_text c) = Some []"
  using fixed_holes(2) by (cases c) simp_all

text \<open>
  Claim C20. Every explanation is complete, in both languages: whatever the engine decides, the
  catalogue has a message for its reason, and this message is cut into literal text without an opening brace
  and placeholders, so that none of its placeholders counts as text. They are the ones of the
  table \<open>message_holes\<close>, in this order, each is one of the reason's arguments, and the text shown is
  the message with each placeholder replaced by its argument and nothing else changed, even
  where an argument itself holds braces.
\<close>

theorem explanations_complete:
  fixes inp l
  defines "r \<equiv> d_Reason (Decide inp)"
  shows "\<exists>segs. cat_msgs (i18n_New l) (''reason.'' @ reason_Key r) = Some (flatten segs)
    \<and> list_all seg_ok segs
    \<and> map_of message_holes (''reason.'' @ reason_Key r) = Some (holes segs)
    \<and> set (holes segs) \<subseteq> dom (reason_Args r)
    \<and> Explain (i18n_New l) r = fill (reason_Args r) segs"
proof -
  obtain v cs names where row: "map_of reason_table (reason_Key r) = Some (v, cs, names)"
    "dom (reason_Args r) = set names"
    using Decide_tabled_row [of inp] by (auto simp: r_def tabled_def split: option.splits)
  obtain ns where ns: "map_of message_holes (''reason.'' @ reason_Key r) = Some ns" "set ns \<subseteq> set names"
    "plain_keys (set names)"
    using reason_holes [OF row(1)] by blast
  then obtain segs where "cat_msgs (i18n_New l) (''reason.'' @ reason_Key r) = Some (flatten segs)"
    "list_all seg_ok segs" "holes segs = ns" "cat_T (i18n_New l) (''reason.'' @ reason_Key r) (reason_Args r) = fill (reason_Args r) segs"
    using T_holes [OF ns(1), of "reason_Args r" l] row(2) by auto
  then show ?thesis
    using ns(1,2) row(2) unfolding Explain_def by blast
qed

text \<open>
  The catalogues agree: both languages know exactly the same keys, with the same
  placeholders in the same order, so the Persian one never falls back to English; and every
  verdict has a suggestion and every confidence a name, without placeholders.
\<close>

lemma catalogues_agree:
  "Keys FA = Keys EN \<and> cat_msgs (i18n_New FA) = map_of persian
   \<and> map (\<lambda>(k, m). (k, scan None m)) persian = map (\<lambda>(k, m). (k, scan None m)) english
   \<and> list_all (\<lambda>(k, m). scan None m \<noteq> None) english
   \<and> (\<exists>m. cat_msgs (i18n_New l) (''suggest.'' @ verdict_text v) = Some m \<and> Suggest (i18n_New l) v [] = m)
   \<and> (\<exists>m. cat_msgs (i18n_New l) (''confidence.'' @ confidence_text c) = Some m
          \<and> cat_Confidence (i18n_New l) c = m)"
proof -
  have e: "map (\<lambda>(k, m). (k, scan None m)) tbl = scan_table tbl" for tbl by (simp add: scan_table_def)
  have some: "list_all (\<lambda>(k, m). scan None m \<noteq> None) tbl \<longleftrightarrow> list_all (\<lambda>(k, n). n \<noteq> None) (scan_table tbl)" for tbl
    by (induction tbl) auto
  have "list_all (\<lambda>(k, m). scan None m \<noteq> None) english"
    unfolding some scan_english by (auto simp: list_all_iff)
  moreover have "Keys FA = Keys EN" by (simp add: Keys_def keys_english keys_persian)
  moreover obtain ms where ms: "cat_msgs (i18n_New l) (''suggest.'' @ verdict_text v) = Some ms"
    using New_known [OF verdict_holes(1)] by blast
  moreover have "Suggest (i18n_New l) v [] = ms"
    unfolding Suggest_def T_known [OF ms] by simp
  moreover obtain mc where mc: "cat_msgs (i18n_New l) (''confidence.'' @ confidence_text c) = Some mc"
    using New_known [OF confidence_holes] by blast
  moreover have "cat_Confidence (i18n_New l) c = mc"
    unfolding cat_Confidence_def T_known [OF mc] ..
  ultimately show ?thesis by (simp add: e scan_english scan_persian cat_msgs_New del: append.simps)
qed

end
