(* ===== verification/Report.thy ===== *)
theory Report
  imports I18n
begin

text \<open>
  Package report: text.go (the terminal table, the summary, the suggestions and the notes) and
  machine.go (Markdown and the JSON value). A renderer returns the lines it writes, each of them
  ended by a newline in the output (\<open>written\<close>). The Unicode tables behind \<open>width\<close>, the formatting
  of a point in time and encoding/json are parameters.
\<close>

section \<open>Columns and colours\<close>

definition width :: "(nat \<Rightarrow> bool) \<Rightarrow> string \<Rightarrow> nat" where
  "width zw s = length (filter (\<lambda>r. \<not> zw r) (runes s))"

definition pad :: "(nat \<Rightarrow> bool) \<Rightarrow> string \<Rightarrow> nat \<Rightarrow> string" where
  "pad zw s n = (let d = int n - int (width zw s) in if 0 < d then s @ replicate (nat d) (CHR '' '') else s)"

text \<open>The verbs \<^verbatim>\<open>%-6s\<close> and \<^verbatim>\<open>%-18s\<close> count runes.\<close>

definition left :: "nat \<Rightarrow> string \<Rightarrow> string" where
  "left n s = s @ replicate (n - length (runes s)) (CHR '' '')"

definition ansi :: "string \<Rightarrow> string" where
  "ansi code = char_of (27::nat) # ''['' @ code @ ''m''"

definition ansiReset :: string where "ansiReset = ansi ''0''"
definition ansiBold :: string where "ansiBold = ansi ''1''"
definition ansiDim :: string where "ansiDim = ansi ''2''"
definition ansiRed :: string where "ansiRed = ansi ''31''"
definition ansiGreen :: string where "ansiGreen = ansi ''32''"
definition ansiYellow :: string where "ansiYellow = ansi ''33''"
definition ansiMagenta :: string where "ansiMagenta = ansi ''35''"

record options =
  op_Color :: bool
  op_Verbose :: bool

text \<open>\<^verbatim>\<open>f.Stat\<close>: \<^const>\<open>None\<close> when it fails, else whether the file is a character device.\<close>

definition ColorEnabled :: "bool option \<Rightarrow> string \<Rightarrow> (string \<Rightarrow> string) \<Rightarrow> bool" where
  "ColorEnabled stat goos getenv =
     (if getenv ''NO_COLOR'' \<noteq> [] \<or> getenv ''TERM'' = ''dumb'' then False
      else if getenv ''FORCE_COLOR'' \<noteq> [] then True
      else if stat = None \<or> stat = Some False then False
      else if goos = ''windows'' then
        getenv ''WT_SESSION'' \<noteq> [] \<or> getenv ''ANSICON'' \<noteq> [] \<or> getenv ''ConEmuANSI'' = ''ON'' \<or> getenv ''TERM'' \<noteq> []
      else True)"

fun verdictColor :: "verdict \<Rightarrow> string" where
  "verdictColor v =
     (if v = OK then ansiGreen
      else if v = Inconclusive \<or> v = Throttled \<or> v = UpstreamOutage then ansiYellow
      else if v = LocalNetworkDown then ansiMagenta
      else ansiRed)"

fun statusColor :: "status \<Rightarrow> string" where
  "statusColor s = (if s = Pass then ansiGreen else if s = Fail then ansiRed else if s = Warn then ansiYellow else ansiDim)"

definition paint :: "options \<Rightarrow> string \<Rightarrow> string \<Rightarrow> string" where
  "paint opts code s = (if \<not> op_Color opts \<or> code = [] then s else code @ s @ ansiReset)"

section \<open>Summary\<close>

definition joinVerdicts :: "verdict list \<Rightarrow> string" where
  "joinVerdicts vs = str_join (map verdict_text vs) '', ''"

definition verdict_counts :: "target_report list \<Rightarrow> verdict \<Rightarrow> nat" where
  "verdict_counts ts = foldl (\<lambda>m t. m(tr_Verdict t := m (tr_Verdict t) + 1)) (\<lambda>_. 0) ts"

definition problems :: "(verdict \<Rightarrow> nat) \<Rightarrow> verdict list" where
  "problems counts =
     sort_key (\<lambda>v. - int (counts v)) (filter (\<lambda>v. v \<noteq> OK \<and> 0 < counts v) AllVerdicts)"

definition summary_part :: "catalog \<Rightarrow> nat \<Rightarrow> verdict \<Rightarrow> nat \<Rightarrow> string" where
  "summary_part c n_all v n =
     cat_T c (''summary.'' @ verdict_text v) [''n'' \<mapsto> itoa (int n), ''total'' \<mapsto> itoa (int n_all)]"

definition Summary :: "report \<Rightarrow> catalog \<Rightarrow> string" where
  "Summary r c =
     (if rep_Targets r = [] then cat_T c ''summary.none'' Map.empty
      else (let counts = verdict_counts (rep_Targets r);
                n_all = length (rep_Targets r);
                parts = map (\<lambda>v. summary_part c n_all v (counts v)) (problems counts)
                          @ [summary_part c n_all OK (counts OK)]
            in str_join parts (cat_T c ''summary.sep'' Map.empty)))"

section \<open>Suggestions\<close>

text \<open>
  The groups in order of creation; \<^verbatim>\<open>byText\<close> holds pointers to them, which are their positions.
\<close>

record group =
  gr_text :: string
  gr_v :: verdict
  gr_hosts :: "string list"

definition group_key :: "verdict \<Rightarrow> string \<Rightarrow> string" where
  "group_key v text = verdict_text v @ char_of (0::nat) # text"

definition group_step ::
  "catalog \<Rightarrow> group list \<times> (string \<rightharpoonup> nat) \<Rightarrow> target_report \<Rightarrow> group list \<times> (string \<rightharpoonup> nat)" where
  "group_step c st t =
     (case st of (groups, byText) \<Rightarrow>
        if tr_Verdict t = OK then (groups, byText)
        else (let text = Suggest c (tr_Verdict t) (target_Kind (tr_Target t));
                  key = group_key (tr_Verdict t) text;
                  host = target_Host (tr_Target t)
              in case byText key of
                   None \<Rightarrow> (groups @ [\<lparr>gr_text = text, gr_v = tr_Verdict t, gr_hosts = [host]\<rparr>],
                            byText(key \<mapsto> length groups))
                 | Some i \<Rightarrow> (groups[i := (groups ! i)\<lparr>gr_hosts := gr_hosts (groups ! i) @ [host]\<rparr>], byText)))"

definition group_line :: "group \<Rightarrow> string" where
  "group_line g = verdict_text (gr_v g) @ '' ('' @ str_join (gr_hosts g) '', '' @ ''): '' @ gr_text g"

definition Suggestions :: "report \<Rightarrow> catalog \<Rightarrow> string list" where
  "Suggestions r c = map group_line (fst (foldl (group_step c) ([], Map.empty) (rep_Targets r)))"

section \<open>Notes\<close>

definition down_reason :: "local_summary \<Rightarrow> string" where
  "down_reason l =
     (if ls_DownReason l = [] then (if ls_DefaultRoute l then ''unreachable'' else ''no_route'')
      else ls_DownReason l)"

definition Notes :: "report \<Rightarrow> catalog \<Rightarrow> string list" where
  "Notes r c =
     (let l = rep_Local r in
      (if \<not> ls_Up l
       then [cat_T c ''label.local_down'' [''detail'' \<mapsto> cat_T c (''reason.local.'' @ down_reason l) Map.empty]] else [])
      @ (if ls_ProxyFlag l then [cat_T c ''label.proxy_flag'' Map.empty] else [])
      @ (if 0 < length (ls_VPNInterfaces l)
         then [cat_T c ''label.vpn'' [''names'' \<mapsto> str_join (ls_VPNInterfaces l) '', '']] else [])
      @ (if 0 < length (ls_ProxyEnv l) \<and> \<not> ls_ProxyFlag l
         then [cat_T c ''label.proxy_env'' [''names'' \<mapsto> str_join (ls_ProxyEnv l) '', '']] else [])
      @ (if ls_SystemProxy l \<noteq> [] \<and> \<not> ls_ProxyFlag l
         then [cat_T c ''label.proxy_sys'' [''proxy'' \<mapsto> ls_SystemProxy l]] else [])
      @ (if ls_DNSIntercept l then [cat_T c ''label.dns_hijack'' Map.empty] else [])
      @ (if ls_DoHUnreachable l then [cat_T c ''label.doh_down'' Map.empty] else []))"

section \<open>The terminal report\<close>

definition written :: "string list \<Rightarrow> string" where
  "written ls = concat (map (\<lambda>l. l @ [char_of (10::nat)]) ls)"

definition explanation :: "catalog \<Rightarrow> target_report \<Rightarrow> string" where
  "explanation c t =
     (let expl = Explain c (tr_Reason t) in
      if 0 < length (tr_Also t)
      then expl @ '' ('' @ cat_T c ''label.also'' Map.empty @ '': '' @ joinVerdicts (tr_Also t) @ '')''
      else expl)"

definition headers :: "catalog \<Rightarrow> string list" where
  "headers c = map (\<lambda>k. cat_T c k Map.empty) [''label.target'', ''label.verdict'', ''label.confidence'', ''label.explanation'']"

definition text_row :: "catalog \<Rightarrow> target_report \<Rightarrow> string list" where
  "text_row c t =
     [target_Host (tr_Target t), verdict_text (tr_Verdict t), cat_Confidence c (tr_Confidence t), explanation c t]"

fun max_width :: "(nat \<Rightarrow> bool) \<Rightarrow> nat \<Rightarrow> string list \<Rightarrow> nat" where
  "max_width zw w [] = w"
| "max_width zw w (s # ss) = max_width zw (if w < width zw s then width zw s else w) ss"

definition column_width :: "(nat \<Rightarrow> bool) \<Rightarrow> string list \<Rightarrow> string list list \<Rightarrow> nat \<Rightarrow> nat" where
  "column_width zw hs rows i = max_width zw (width zw (hs ! i)) (map (\<lambda>row. row ! i) rows)"

definition header_line :: "(nat \<Rightarrow> bool) \<Rightarrow> (nat \<Rightarrow> nat) \<Rightarrow> string list \<Rightarrow> string" where
  "header_line zw ws hs =
     pad zw (hs ! 0) (ws 0) @ ''  '' @ pad zw (hs ! 1) (ws 1) @ ''  '' @ pad zw (hs ! 2) (ws 2) @ ''  '' @ hs ! 3"

definition row_line :: "(nat \<Rightarrow> bool) \<Rightarrow> options \<Rightarrow> (nat \<Rightarrow> nat) \<Rightarrow> verdict \<Rightarrow> string list \<Rightarrow> string" where
  "row_line zw opts ws v row =
     pad zw (row ! 0) (ws 0) @ ''  '' @ paint opts (verdictColor v) (pad zw (row ! 1) (ws 1)) @ ''  ''
       @ pad zw (row ! 2) (ws 2) @ ''  '' @ row ! 3"

definition checked_line :: "report \<Rightarrow> catalog \<Rightarrow> string" where
  "checked_line r c =
     cat_T c ''label.checked'' [''total'' \<mapsto> itoa (int (length (rep_Targets r))),
       ''duration'' \<mapsto> dur_String (dur_round (rep_Duration r) (100 * Millisecond))]"

definition verbose_evidence :: "(nat \<Rightarrow> bool) \<Rightarrow> options \<Rightarrow> evidence \<Rightarrow> string" where
  "verbose_evidence zw opts e =
     ''  ['' @ left 6 (ev_Layer e) @ ''] '' @ paint opts (statusColor (ev_Status e)) (pad zw (status_text (ev_Status e)) 4)
       @ '' '' @ left 18 (ev_Check e) @ '' '' @ ev_Detail e"

definition verbose_target :: "(nat \<Rightarrow> bool) \<Rightarrow> catalog \<Rightarrow> options \<Rightarrow> target_report \<Rightarrow> string list" where
  "verbose_target zw c opts t =
     [[], paint opts ansiBold (target_Host (tr_Target t)) @ ''  ''
            @ paint opts (verdictColor (tr_Verdict t)) (verdict_text (tr_Verdict t)) @ '' (''
            @ cat_Confidence c (tr_Confidence t) @ '')  '' @ dur_String (dur_round (tr_Duration t) Millisecond)]
     @ map (verbose_evidence zw opts) (tr_Evidence t)"

definition Text_lines :: "(nat \<Rightarrow> bool) \<Rightarrow> report \<Rightarrow> catalog \<Rightarrow> options \<Rightarrow> string list" where
  "Text_lines zw r c opts =
     (let hs = headers c;
          rows = map (text_row c) (rep_Targets r);
          ws = column_width zw hs rows;
          sug = Suggestions r c
      in [[], paint opts ansiBold (header_line zw ws hs)]
         @ map (\<lambda>t. row_line zw opts ws (tr_Verdict t) (text_row c t)) (rep_Targets r)
         @ [[],
            paint opts ansiBold (cat_T c ''label.summary'' Map.empty @ '':'') @ '' '' @ Summary r c,
            paint opts ansiDim (checked_line r c)]
         @ map (\<lambda>note. paint opts ansiYellow ''! '' @ note) (Notes r c)
         @ (if 0 < length sug
            then [[], paint opts ansiBold (cat_T c ''label.suggestions'' Map.empty @ '':'')] @ map (\<lambda>l. ''  - '' @ l) sug
            else [])
         @ (if op_Verbose opts then concat (map (verbose_target zw c opts) (rep_Targets r)) else []))"

definition report_Text :: "(nat \<Rightarrow> bool) \<Rightarrow> report \<Rightarrow> catalog \<Rightarrow> options \<Rightarrow> string" where
  "report_Text zw r c opts = written (Text_lines zw r c opts)"

section \<open>Markdown\<close>

fun replace_char :: "char \<Rightarrow> string \<Rightarrow> string \<Rightarrow> string" where
  "replace_char c r [] = []"
| "replace_char c r (x # xs) = (if x = c then r @ replace_char c r xs else x # replace_char c r xs)"

definition backslash :: char where "backslash = char_of (92::nat)"

definition newline :: char where "newline = char_of (10::nat)"

definition backtick :: char where "backtick = char_of (96::nat)"

definition mdCell :: "string \<Rightarrow> string" where
  "mdCell s = replace_char newline '' '' (replace_char (CHR ''|'') [backslash, CHR ''|''] s)"

definition yesNo :: "bool \<Rightarrow> string" where
  "yesNo b = (if b then ''yes'' else ''no'')"

definition listOrNone :: "string list \<Rightarrow> string" where
  "listOrNone s = (if length s = 0 then ''none'' else str_join s '', '')"

definition orNone :: "string \<Rightarrow> string" where
  "orNone s = (if s = [] then ''none'' else s)"

definition code_span :: "string \<Rightarrow> string" where
  "code_span s = backtick # s @ [backtick]"

definition md_row :: "string list \<Rightarrow> string" where
  "md_row cells = ''| '' @ str_join cells '' | '' @ '' |''"

definition md_head :: "(int \<Rightarrow> string) \<Rightarrow> report \<Rightarrow> string list" where
  "md_head fmt_time r =
     (let l = rep_Local r in
      [''## Chera network report'', [],
       ''- **chera**: '' @ code_span (rep_Version r) @ '' on '' @ code_span (rep_OS r @ ''/'' @ rep_Arch r),
       ''- **date**: '' @ fmt_time (rep_Started r) @ '' (took ''
         @ dur_String (dur_round (rep_Duration r) (100 * Millisecond)) @ '')'',
       ''- **local network**: up='' @ yesNo (ls_Up l) @ '', default route='' @ yesNo (ls_DefaultRoute l)
         @ '', DNS interception='' @ yesNo (ls_DNSIntercept l),
       ''- **proxy/VPN**: --proxy='' @ yesNo (ls_ProxyFlag l) @ '', VPN interfaces='' @ listOrNone (ls_VPNInterfaces l)
         @ '', proxy env='' @ listOrNone (ls_ProxyEnv l) @ '', system proxy='' @ orNone (ls_SystemProxy l)]
      @ (if 0 < length (ls_Unreachable l)
         then [''- **unreachable baseline hosts**: '' @ str_join (ls_Unreachable l) '', ''] else [])
      @ [[]])"

definition md_target_row :: "catalog \<Rightarrow> target_report \<Rightarrow> string" where
  "md_target_row c t =
     md_row [code_span (target_Host (tr_Target t)), ''**'' @ verdict_text (tr_Verdict t) @ ''**'',
             cat_Confidence c (tr_Confidence t), mdCell (explanation c t)]"

definition md_evidence_row :: "evidence \<Rightarrow> string" where
  "md_evidence_row e = md_row [ev_Layer e, mdCell (ev_Check e), status_text (ev_Status e), mdCell (ev_Detail e)]"

definition md_details :: "catalog \<Rightarrow> target_report \<Rightarrow> string list" where
  "md_details c t =
     [''#### '' @ code_span (target_Host (tr_Target t)) @ '' - '' @ verdict_text (tr_Verdict t) @ '' (''
        @ cat_Confidence c (tr_Confidence t) @ '')'', [],
      ''| Layer | Check | Status | Detail |'', ''|---|---|---|---|'']
     @ map md_evidence_row (tr_Evidence t) @ [[]]"

definition Markdown_lines :: "(int \<Rightarrow> string) \<Rightarrow> report \<Rightarrow> catalog \<Rightarrow> string list" where
  "Markdown_lines fmt_time r c =
     (let sug = Suggestions r c; notes = Notes r c in
      md_head fmt_time r
      @ [''**'' @ cat_T c ''label.summary'' Map.empty @ '':** '' @ Summary r c, [],
         md_row (headers c), ''|---|---|---|---|'']
      @ map (md_target_row c) (rep_Targets r)
      @ (if 0 < length sug
         then [[], ''### '' @ cat_T c ''label.suggestions'' Map.empty, []] @ map (\<lambda>l. ''- '' @ l) sug else [])
      @ (if 0 < length notes then [] # map (\<lambda>n. ''> '' @ n) notes else [])
      @ [[], ''<details>'', ''<summary>'' @ cat_T c ''label.evidence'' Map.empty @ ''</summary>'', []]
      @ concat (map (md_details c) (rep_Targets r))
      @ [''</details>''])"

definition report_Markdown :: "(int \<Rightarrow> string) \<Rightarrow> report \<Rightarrow> catalog \<Rightarrow> string" where
  "report_Markdown fmt_time r c = written (Markdown_lines fmt_time r c)"

section \<open>JSON\<close>

text \<open>
  The value given to the encoder. The nil lists the code replaces by empty ones are the empty list
  of the model already. \<^verbatim>\<open>Milliseconds\<close> rounds towards zero.
\<close>

record json_target =
  jt_Report :: target_report
  jt_Explanation :: string
  jt_Suggestion :: string
  jt_DurationMS :: int

record json_report =
  jr_Version :: string
  jr_Started :: int
  jr_DurationMS :: int
  jr_OS :: string
  jr_Arch :: string
  jr_Language :: string
  jr_Local :: local_summary
  jr_Summary :: string
  jr_Counts :: "verdict \<rightharpoonup> nat"
  jr_Targets :: "json_target list"

definition dur_Milliseconds :: "int \<Rightarrow> int" where
  "dur_Milliseconds d = (if 0 \<le> d then d div Millisecond else - (- d div Millisecond))"

definition json_target_of :: "catalog \<Rightarrow> target_report \<Rightarrow> json_target" where
  "json_target_of c t =
     \<lparr>jt_Report = t, jt_Explanation = Explain c (tr_Reason t),
      jt_Suggestion = Suggest c (tr_Verdict t) (target_Kind (tr_Target t)),
      jt_DurationMS = dur_Milliseconds (tr_Duration t)\<rparr>"

definition count_step :: "(verdict \<rightharpoonup> nat) \<Rightarrow> target_report \<Rightarrow> (verdict \<rightharpoonup> nat)" where
  "count_step m t = m(tr_Verdict t \<mapsto> (case m (tr_Verdict t) of None \<Rightarrow> 0 | Some n \<Rightarrow> n) + 1)"

definition json_value :: "report \<Rightarrow> catalog \<Rightarrow> json_report" where
  "json_value r c =
     \<lparr>jr_Version = rep_Version r, jr_Started = rep_Started r, jr_DurationMS = dur_Milliseconds (rep_Duration r),
      jr_OS = rep_OS r, jr_Arch = rep_Arch r, jr_Language = lang_text (cat_Lang c), jr_Local = rep_Local r,
      jr_Summary = Summary r c, jr_Counts = foldl count_step Map.empty (rep_Targets r),
      jr_Targets = map (json_target_of c) (rep_Targets r)\<rparr>"

definition report_JSON :: "(json_report \<Rightarrow> 'e + string) \<Rightarrow> report \<Rightarrow> catalog \<Rightarrow> 'e + string" where
  "report_JSON encode r c = encode (json_value r c)"

section \<open>Facts about columns\<close>

lemma width_pad:
  assumes "\<not> zw 32"
  shows "width zw (pad zw s n) = max n (width zw s)"
proof -
  have "filter (\<lambda>r. \<not> zw r) (replicate k 32) = replicate k 32" for k
    using assms by (induction k) simp_all
  then show ?thesis by (auto simp: pad_def width_def Let_def runes_spaces)
qed

lemma max_width_eq: "max_width zw w ss = Max (insert w (width zw ` set ss))"
proof (induction ss arbitrary: w)
  case (Cons s ss)
  have "max_width zw w (s # ss) = max_width zw (max w (width zw s)) ss" by (simp add: max_def)
  also have "\<dots> = Max (insert (max w (width zw s)) (width zw ` set ss))" by (rule Cons.IH)
  also have "\<dots> = Max (insert w (insert (width zw s) (width zw ` set ss)))"
    by (cases "set ss = {}") (simp_all add: Max_insert max.assoc)
  finally show ?case by simp
qed simp

text \<open>
  The terminal table is aligned: padded to its column, the header and the cell of every
  target take the same number of columns, whatever the widths of their characters.
\<close>

lemma table_aligned:
  fixes zw c ts i
  defines "ws \<equiv> column_width zw (headers c) (map (text_row c) ts)"
  assumes "\<not> zw 32"
  shows "map (\<lambda>cell. width zw (pad zw cell (ws i))) (headers c ! i # map (\<lambda>t. text_row c t ! i) ts)
    = replicate (Suc (length ts)) (ws i)"
proof -
  let ?cells = "headers c ! i # map (\<lambda>t. text_row c t ! i) ts"
  have ws: "ws i = Max (width zw ` set ?cells)"
    by (simp add: ws_def column_width_def max_width_eq comp_def image_image)
  have "width zw (pad zw cell (ws i)) = ws i" if "cell \<in> set ?cells" for cell
    using that by (simp only: width_pad [where zw = zw, OF assms(2)] ws) (intro max_absorb1 Max_ge finite_imageI imageI finite_set; assumption)
  then have "map (\<lambda>cell. width zw (pad zw cell (ws i))) ?cells = map (\<lambda>cell. ws i) ?cells"
    by (rule map_cong [OF refl])
  then show ?thesis by (simp add: map_replicate_const)
qed

lemma table_aligned_witness:
  "map (\<lambda>cell. width (\<lambda>r. r = 8204) (pad (\<lambda>r. r = 8204) cell
       (column_width (\<lambda>r. r = 8204) (headers (i18n_New FA)) (map (text_row (i18n_New FA)) []) 0)))
     [headers (i18n_New FA) ! 0]
   = [column_width (\<lambda>r. r = 8204) (headers (i18n_New FA)) (map (text_row (i18n_New FA)) []) 0]"
  using table_aligned [of "\<lambda>r. r = 8204" "i18n_New FA" "[]" 0] by simp

section \<open>Facts about the summary\<close>

abbreviation verdicts_of :: "report \<Rightarrow> verdict \<Rightarrow> nat" where
  "verdicts_of r v \<equiv> count_list (map tr_Verdict (rep_Targets r)) v"

lemma verdict_counts_eq: "verdict_counts ts v = count_list (map tr_Verdict ts) v"
proof -
  have "foldl (\<lambda>m t. m(tr_Verdict t := m (tr_Verdict t) + 1)) m ts v = m v + count_list (map tr_Verdict ts) v" for m
    by (induction ts arbitrary: m) auto
  then show ?thesis by (simp add: verdict_counts_def)
qed

lemma count_fold: "foldl count_step m ts v =
    (if count_list (map tr_Verdict ts) v = 0 then m v
     else Some ((case m v of None \<Rightarrow> 0 | Some n \<Rightarrow> n) + count_list (map tr_Verdict ts) v))"
  by (induction ts arbitrary: m) (auto simp: count_step_def split: option.splits)

lemma count_list_pos: "0 < count_list vs v \<longleftrightarrow> v \<in> set vs"
  using count_list_0_iff [of vs v] by linarith

lemma problems_facts:
  "distinct (problems f)" "set (problems f) = {v. v \<noteq> OK \<and> 0 < f v}"
  "sorted_wrt (\<lambda>v w. f w \<le> f v) (problems f)"
proof -
  show "distinct (problems f)" by (simp add: problems_def)
  show "set (problems f) = {v. v \<noteq> OK \<and> 0 < f v}" by (simp add: problems_def)
  have "sorted (map (\<lambda>v. - int (f v)) (problems f))" by (simp add: problems_def)
  then show "sorted_wrt (\<lambda>v w. f w \<le> f v) (problems f)" by (simp add: sorted_map)
qed

lemma sum_all_verdicts: "(\<Sum>v\<in>set (problems (\<lambda>v. count_list vs v)). count_list vs v) + count_list vs OK = length vs"
proof -
  have "(\<Sum>v\<in>set vs - {OK}. count_list vs v) + count_list vs OK = (\<Sum>v\<in>set vs. count_list vs v)"
  proof (cases "OK \<in> set vs")
    case True
    then show ?thesis by (simp add: sum.remove [of "set vs" OK])
  next
    case False
    then show ?thesis by (simp add: count_list_0_iff)
  qed
  moreover have "set (problems (\<lambda>v. count_list vs v)) = set vs - {OK}"
    by (auto simp: problems_facts(2) count_list_pos)
  ultimately show ?thesis by (simp add: sum_count_set)
qed

lemma plain_count_keys: "plain_keys (dom [''n'' \<mapsto> a, ''total'' \<mapsto> b])"
  by (simp add: plain_keys_def)

text \<open>
  Claim C36. The summary line accounts for every target: it names each problem that occurs exactly
  once, the most frequent first, and last the number of reachable targets; the counts add up to
  the number of targets and are those of the JSON report.
\<close>

theorem Summary_spec:
  fixes r c
  defines "ps \<equiv> problems (verdicts_of r)"
  shows "Summary r c =
      (if rep_Targets r = [] then cat_T c ''summary.none'' Map.empty
       else str_join (map (\<lambda>v. summary_part c (length (rep_Targets r)) v (verdicts_of r v)) (ps @ [OK]))
              (cat_T c ''summary.sep'' Map.empty))
    \<and> distinct ps \<and> set ps = {v. v \<noteq> OK \<and> 0 < verdicts_of r v}
    \<and> sorted_wrt (\<lambda>v w. verdicts_of r w \<le> verdicts_of r v) ps
    \<and> (\<Sum>v\<leftarrow>ps @ [OK]. verdicts_of r v) = length (rep_Targets r)
    \<and> jr_Counts (json_value r c) v = (if verdicts_of r v = 0 then None else Some (verdicts_of r v))"
proof -
  have "verdict_counts (rep_Targets r) = verdicts_of r" by (rule ext) (rule verdict_counts_eq)
  then have "Summary r c = (if rep_Targets r = [] then cat_T c ''summary.none'' Map.empty
       else str_join (map (\<lambda>v. summary_part c (length (rep_Targets r)) v (verdicts_of r v)) (ps @ [OK]))
              (cat_T c ''summary.sep'' Map.empty))"
    by (simp add: Summary_def Let_def ps_def)
  moreover have "(\<Sum>v\<leftarrow>ps @ [OK]. verdicts_of r v) = length (rep_Targets r)"
    using sum_all_verdicts [of "map tr_Verdict (rep_Targets r)"] problems_facts(1) [of "verdicts_of r"]
    by (simp add: ps_def sum_list_distinct_conv_sum_set)
  moreover have "jr_Counts (json_value r c) v = (if verdicts_of r v = 0 then None else Some (verdicts_of r v))"
    by (simp add: json_value_def count_fold)
  ultimately show ?thesis using problems_facts [of "verdicts_of r"] by (simp add: ps_def)
qed

section \<open>Facts about the suggestions\<close>

lemma group_key_inj: "group_key v text = group_key w text' \<Longrightarrow> v = w \<and> text = text'"
proof -
  assume eq: "group_key v text = group_key w text'"
  have nul: "takeWhile (\<lambda>c. c \<noteq> char_of (0::nat)) (group_key v rm) = verdict_text v" for v rm
  proof -
    have "list_all (\<lambda>v. char_of (0::nat) \<notin> set (verdict_text v)) AllVerdicts" by code_simp
    then have "char_of (0::nat) \<notin> set (verdict_text v)" by (simp add: list_all_iff)
    then show ?thesis unfolding group_key_def by (subst takeWhile_append2) auto
  qed
  then have "v = w" using arg_cong [OF eq, of "takeWhile (\<lambda>c. c \<noteq> char_of (0::nat))"] by (simp add: verdict_text_inj)
  with eq show ?thesis by (simp add: group_key_def)
qed

definition remedy :: "catalog \<Rightarrow> target_report \<Rightarrow> verdict \<times> string" where
  "remedy c t = (tr_Verdict t, Suggest c (tr_Verdict t) (target_Kind (tr_Target t)))"

abbreviation failing :: "target_report list \<Rightarrow> target_report list" where
  "failing ts \<equiv> filter (\<lambda>t. tr_Verdict t \<noteq> OK) ts"

definition hosts_with :: "catalog \<Rightarrow> target_report list \<Rightarrow> verdict \<times> string \<Rightarrow> string list" where
  "hosts_with c ts p = map (\<lambda>t. target_Host (tr_Target t)) (filter (\<lambda>t. remedy c t = p) (failing ts))"

lemma hosts_with_snoc:
  "hosts_with c (ts @ [t]) p =
     hosts_with c ts p @ (if tr_Verdict t \<noteq> OK \<and> remedy c t = p then [target_Host (tr_Target t)] else [])"
  by (simp add: hosts_with_def)

abbreviation remedies :: "catalog \<Rightarrow> target_report list \<Rightarrow> (verdict \<times> string) list" where
  "remedies c ts \<equiv> dedup_by (\<lambda>p. p) {} (map (remedy c) (failing ts))"

definition groups_of :: "catalog \<Rightarrow> target_report list \<Rightarrow> (verdict \<times> string) list \<Rightarrow> group list" where
  "groups_of c ts ps = map (\<lambda>p. \<lparr>gr_text = snd p, gr_v = fst p, gr_hosts = hosts_with c ts p\<rparr>) ps"

definition index_ok :: "(verdict \<times> string) list \<Rightarrow> (string \<rightharpoonup> nat) \<Rightarrow> bool" where
  "index_ok ps byText \<longleftrightarrow>
     (\<forall>v text. byText (group_key v text) =
        (if (v, text) \<in> set ps then Some (length (takeWhile (\<lambda>p. p \<noteq> (v, text)) ps)) else None))"

lemma dedup_by_snoc:
  "dedup_by key seen (xs @ [x]) =
     dedup_by key seen xs @ (if key x \<in> seen \<union> key ` set xs then [] else [x])"
  by (induction xs arbitrary: seen) auto

lemma index_of_mem:
  assumes "p \<in> set ps"
  shows "length (takeWhile (\<lambda>q. q \<noteq> p) ps) < length ps" "ps ! length (takeWhile (\<lambda>q. q \<noteq> p) ps) = p"
  using assms by (induction ps) auto

lemma nth_groups_of:
  "k < length ps \<Longrightarrow> groups_of c ts ps ! k =
     \<lparr>gr_text = snd (ps ! k), gr_v = fst (ps ! k), gr_hosts = hosts_with c ts (ps ! k)\<rparr>"
  by (simp add: groups_of_def)

lemma length_groups_of [simp]: "length (groups_of c ts ps) = length ps"
  by (simp add: groups_of_def)

lemma group_step_cases:
  "tr_Verdict t = OK \<Longrightarrow> group_step c (gs, bt) t = (gs, bt)"
  "tr_Verdict t \<noteq> OK \<Longrightarrow> bt (group_key (fst (remedy c t)) (snd (remedy c t))) = None \<Longrightarrow>
     group_step c (gs, bt) t =
       (gs @ [\<lparr>gr_text = snd (remedy c t), gr_v = fst (remedy c t), gr_hosts = [target_Host (tr_Target t)]\<rparr>],
        bt(group_key (fst (remedy c t)) (snd (remedy c t)) \<mapsto> length gs))"
  "tr_Verdict t \<noteq> OK \<Longrightarrow> bt (group_key (fst (remedy c t)) (snd (remedy c t))) = Some i \<Longrightarrow>
     group_step c (gs, bt) t = (gs[i := (gs ! i)\<lparr>gr_hosts := gr_hosts (gs ! i) @ [target_Host (tr_Target t)]\<rparr>], bt)"
  by (simp_all add: group_step_def remedy_def Let_def)

lemma index_okD:
  "index_ok ps bt \<Longrightarrow> bt (group_key (fst p) (snd p)) =
     (if p \<in> set ps then Some (length (takeWhile (\<lambda>q. q \<noteq> p) ps)) else None)"
  by (simp add: index_ok_def)

lemma groups_extend:
  assumes "p \<in> set ps" "distinct ps" "tr_Verdict t \<noteq> OK" "remedy c t = p"
  defines "i \<equiv> length (takeWhile (\<lambda>q. q \<noteq> p) ps)"
  shows "(groups_of c ts ps)[i := (groups_of c ts ps ! i)
      \<lparr>gr_hosts := gr_hosts (groups_of c ts ps ! i) @ [target_Host (tr_Target t)]\<rparr>] = groups_of c (ts @ [t]) ps"
proof (rule nth_equalityI)
  fix k
  assume "k < length ((groups_of c ts ps)[i := (groups_of c ts ps ! i)
      \<lparr>gr_hosts := gr_hosts (groups_of c ts ps ! i) @ [target_Host (tr_Target t)]\<rparr>])"
  then have k: "k < length ps" by simp
  note i = index_of_mem [OF assms(1), folded i_def]
  have "ps ! k = p \<longleftrightarrow> k = i" using i assms(2) k by (metis nth_eq_iff_index_eq)
  then show "(groups_of c ts ps)[i := (groups_of c ts ps ! i)
      \<lparr>gr_hosts := gr_hosts (groups_of c ts ps ! i) @ [target_Host (tr_Target t)]\<rparr>] ! k
      = groups_of c (ts @ [t]) ps ! k"
    using k i(1) assms(3,4) by (auto simp: nth_groups_of nth_list_update hosts_with_snoc)
qed simp

lemma groups_new:
  assumes "p \<notin> set ps" "remedy c t = p" "tr_Verdict t \<noteq> OK" "hosts_with c ts p = []"
  shows "groups_of c ts ps @ [\<lparr>gr_text = snd p, gr_v = fst p, gr_hosts = [target_Host (tr_Target t)]\<rparr>]
    = groups_of c (ts @ [t]) (ps @ [p])"
  using assms by (auto simp: groups_of_def hosts_with_snoc)

lemma index_new:
  assumes "index_ok ps bt" "p \<notin> set ps"
  shows "index_ok (ps @ [p]) (bt(group_key (fst p) (snd p) \<mapsto> length ps))"
  unfolding index_ok_def
proof (intro allI)
  fix v rm
  show "(bt(group_key (fst p) (snd p) \<mapsto> length ps)) (group_key v rm) =
    (if (v, rm) \<in> set (ps @ [p]) then Some (length (takeWhile (\<lambda>q. q \<noteq> (v, rm)) (ps @ [p]))) else None)"
  proof (cases "(v, rm) = p")
    case True
    then have "takeWhile (\<lambda>q. q \<noteq> (v, rm)) (ps @ [p]) = ps" using assms(2) by (subst takeWhile_append2) auto
    with True show ?thesis by auto
  next
    case False
    then have "group_key v rm \<noteq> group_key (fst p) (snd p)" using group_key_inj [of v rm "fst p" "snd p"] by force
    with False assms(1) show ?thesis by (auto simp: index_ok_def takeWhile_append1)
  qed
qed

lemma groups_fold:
  "fst (foldl (group_step c) ([], Map.empty) ts) = groups_of c ts (remedies c ts)
   \<and> index_ok (remedies c ts) (snd (foldl (group_step c) ([], Map.empty) ts))"
proof (induction ts rule: rev_induct)
  case Nil
  show ?case by (simp add: groups_of_def index_ok_def)
next
  case (snoc t ts)
  let ?st = "foldl (group_step c) ([], Map.empty)"
  obtain gs bt where st: "?st ts = (gs, bt)" by fastforce
  have gs: "gs = groups_of c ts (remedies c ts)" and ix: "index_ok (remedies c ts) bt"
    using snoc unfolding st by simp_all
  have fold: "?st (ts @ [t]) = group_step c (gs, bt) t" by (simp only: foldl_append foldl.simps st)
  let ?p = "remedy c t" and ?ps = "remedies c ts"
  have mem: "?p \<in> set ?ps \<longleftrightarrow> ?p \<in> remedy c ` set (failing ts)"
    using dedup_by_keys [of "\<lambda>p. p" "{}" "map (remedy c) (failing ts)"] by simp
  have new: "remedies c (ts @ [t]) = (if tr_Verdict t = OK \<or> ?p \<in> set ?ps then ?ps else ?ps @ [?p])"
    unfolding mem by (simp add: dedup_by_snoc)
  have d: "distinct ?ps" using dedup_by_distinct [of "\<lambda>p. p" "{}" "map (remedy c) (failing ts)"] by simp
  note bt = index_okD [OF ix, of ?p]
  consider (ok) "tr_Verdict t = OK" | (old) "tr_Verdict t \<noteq> OK" "?p \<in> set ?ps"
    | (new) "tr_Verdict t \<noteq> OK" "?p \<notin> set ?ps" by blast
  then show ?case
  proof cases
    case ok
    then have "groups_of c (ts @ [t]) ?ps = gs" by (simp add: gs groups_of_def hosts_with_snoc)
    with ok show ?thesis unfolding fold group_step_cases(1) [OF ok] new by (simp add: ix)
  next
    case old
    have "bt (group_key (fst ?p) (snd ?p)) = Some (length (takeWhile (\<lambda>q. q \<noteq> ?p) ?ps))" using bt old by simp
    from group_step_cases(3) [where gs = gs and c = c and t = t and bt = bt, OF old(1) this] groups_extend [OF old(2) d old(1) refl, of ts] old ix
    show ?thesis unfolding fold new by (simp add: gs)
  next
    case new': new
    have "bt (group_key (fst ?p) (snd ?p)) = None" using bt new' by simp
    moreover have "hosts_with c ts ?p = []" using new'(2) unfolding mem hosts_with_def
      by (force simp: filter_empty_conv image_iff)
    ultimately show ?thesis
      using group_step_cases(2) [of t bt c gs] groups_new [OF new'(2) refl new'(1)] index_new [OF ix new'(2)] new'
      unfolding fold new by (simp add: gs fun_upd_def)
  qed
qed

text \<open>
  Claim C24. The suggestions group the failing targets: one line per distinct pair of verdict and
  remedy, in the order in which the pairs first occur, each naming the hosts of exactly the
  targets with that pair, in their order; the pointers kept by text never mix two groups up.
\<close>

theorem Suggestions_spec:
  "Suggestions r c =
     map (\<lambda>p. verdict_text (fst p) @ '' ('' @ str_join (hosts_with c (rep_Targets r) p) '', '' @ ''): '' @ snd p)
       (dedup_by (\<lambda>p. p) {} (map (remedy c) (failing (rep_Targets r))))"
  unfolding Suggestions_def conjunct1 [OF groups_fold]
  by (simp add: groups_of_def group_line_def)

section \<open>Facts about Markdown\<close>

text \<open>The cell separators of a table row: the bars that no backslash precedes.\<close>

fun bars :: "bool \<Rightarrow> string \<Rightarrow> nat" where
  "bars esc [] = 0"
| "bars esc (c # s) = (if c = CHR ''|'' \<and> \<not> esc then 1 else 0) + bars (c = backslash) s"

lemma bars_append_space: "bars e (s @ CHR '' '' # r) = bars e s + bars False r"
proof (induction s arbitrary: e)
  case Nil
  have "CHR '' '' \<noteq> backslash" "CHR '' '' \<noteq> CHR ''|''" by code_simp+
  then show ?case by simp
next
  case (Cons c s)
  then show ?case by simp
qed

lemma replace_char_append [simp]: "replace_char c r (s @ t) = replace_char c r s @ replace_char c r t"
  by (induction s) simp_all

lemma mdCell_simps:
  "mdCell [] = []"
  "mdCell (c # s) = (if c = CHR ''|'' then [backslash, CHR ''|''] else if c = newline then '' '' else [c]) @ mdCell s"
proof -
  have "backslash \<noteq> newline" "CHR ''|'' \<noteq> newline" by code_simp+
  then show "mdCell (c # s) = (if c = CHR ''|'' then [backslash, CHR ''|''] else if c = newline then '' '' else [c]) @ mdCell s"
    by (simp add: mdCell_def)
qed (simp add: mdCell_def)

lemma mdCell_bars: "bars e (mdCell s) = 0"
proof (induction s arbitrary: e)
  case (Cons c s)
  have "backslash \<noteq> CHR ''|''" "CHR '' '' \<noteq> CHR ''|''" by code_simp+
  with Cons show ?case by (simp add: mdCell_simps)
qed (simp add: mdCell_simps)

lemma mdCell_newline: "newline \<notin> set (mdCell s)"
proof (induction s)
  case (Cons c s)
  have "backslash \<noteq> newline" "CHR ''|'' \<noteq> newline" "CHR '' '' \<noteq> newline" by code_simp+
  with Cons show ?case by (simp add: mdCell_simps)
qed (simp add: mdCell_simps)

lemma md_row_bars:
  "bars False (md_row [a, b, c, d]) = 5 + bars False a + bars False b + bars False c + bars False d"
proof -
  have b: "CHR '' '' \<noteq> backslash" "CHR '' '' \<noteq> CHR ''|''" "CHR ''|'' \<noteq> backslash" by code_simp+
  have sp: "bars e (s @ '' | '' @ r) = bars e s + 1 + bars False r" for e s r
    using bars_append_space [of e s "CHR ''|'' # CHR '' '' # r"] b by simp
  have en: "bars e (s @ '' |'') = bars e s + 1" for e s
    using bars_append_space [of e s "''|''"] b by simp
  have st: "bars e (''| '' @ r) = (if e then 0 else 1) + bars False r" for e r using b by simp
  have "md_row [a, b, c, d] = ''| '' @ a @ '' | '' @ b @ '' | '' @ c @ '' | '' @ d @ '' |''"
    by (simp add: md_row_def)
  then show ?thesis by (simp only: st sp en if_False)
qed

lemma bars_code_span: "bars False (code_span s) = bars False s"
proof -
  have "backtick \<noteq> CHR ''|''" "backtick \<noteq> backslash" by code_simp+
  moreover from this have "bars e (s @ [backtick]) = bars e s" for e by (induction s arbitrary: e) auto
  ultimately show ?thesis by (simp add: code_span_def)
qed

lemma verdict_cell: "bars False (''**'' @ verdict_text v @ ''**'') = 0" "bars False (status_text s) = 0"
proof -
  have "list_all (\<lambda>v. bars False (''**'' @ verdict_text v @ ''**'') = 0) AllVerdicts"
    "list_all (\<lambda>s. bars False (status_text s) = 0) [Pass, Fail, Warn, Info, Skip]"
    by code_simp+
  then show "bars False (''**'' @ verdict_text v @ ''**'') = 0" "bars False (status_text s) = 0"
    by (simp_all only: list_all_iff set_AllVerdicts) (cases s; simp)
qed

text \<open>
  Claim C37. The rows of the Markdown tables: an evidence row has exactly the five bars of its four
  cells and stays on one line, whatever the check and the detail hold, unless the layer name breaks
  it; a target row keeps its explanation in one cell, and so its bars are five plus those of the
  host, which the code does not escape, and of the confidence.
\<close>

theorem markdown_rows:
  "bars False (md_evidence_row e) = 5 + bars False (ev_Layer e)
   \<and> (newline \<in> set (md_evidence_row e) \<longleftrightarrow> newline \<in> set (ev_Layer e))
   \<and> bars False (md_target_row c t) =
       5 + bars False (target_Host (tr_Target t)) + bars False (cat_Confidence c (tr_Confidence t))"
proof -
  have nl: "newline \<notin> set ''| ''" "newline \<notin> set '' | ''" "newline \<notin> set '' |''" by code_simp+
  have "list_all (\<lambda>s. newline \<notin> set (status_text s)) [Pass, Fail, Warn, Info, Skip]" by code_simp
  then have st: "newline \<notin> set (status_text (ev_Status e))" by (cases "ev_Status e") simp_all
  have "md_evidence_row e = ''| '' @ ev_Layer e @ '' | '' @ mdCell (ev_Check e) @ '' | ''
      @ status_text (ev_Status e) @ '' | '' @ mdCell (ev_Detail e) @ '' |''"
    by (simp add: md_evidence_row_def md_row_def)
  then have "newline \<in> set (md_evidence_row e) \<longleftrightarrow> newline \<in> set (ev_Layer e)"
    using nl st by (simp only: set_append Un_iff mdCell_newline) blast
  then show ?thesis
    unfolding md_evidence_row_def md_target_row_def md_row_bars verdict_cell mdCell_bars bars_code_span
    by simp
qed

end
