(* ===== verification/Support.thy ===== *)
theory Support
  imports Evidence Priority Report
begin

text \<open>
  The verdict and the evidence shown beside it are computed by two functions that do not call
  each other (verdict.go and evidence.go). The lemmas here tie them together: each row of the
  table of \<open>Priority\<close> leaves a failed entry of its own layer in the evidence.
\<close>

section \<open>Layers of the evidence\<close>

definition layers_with :: "status \<Rightarrow> evidence list \<Rightarrow> string set" where
  "layers_with s es = ev_Layer ` {e \<in> set es. ev_Status e = s}"

fun support_layers :: "verdict \<Rightarrow> string set" where
  "support_layers LocalNetworkDown = {''local''}"
| "support_layers DNSPoisoned = {''dns''}"
| "support_layers DNSIntercepted = {''dns''}"
| "support_layers IPBlocked = {''tcp'', ''tls''}"
| "support_layers ConnectionReset = {''tcp'', ''tls'', ''http''}"
| "support_layers SNIFiltered = {''tls''}"
| "support_layers TLSIntercepted = {''tls''}"
| "support_layers BlockPage = {''http''}"
| "support_layers ProviderGeoBlock = {''http''}"
| "support_layers UpstreamOutage = {''http'', ''dns''}"
| "support_layers Throttled = {''speed''}"
| "support_layers _ = {''dns'', ''tcp'', ''tls'', ''http''}"

lemma layers_with_iff: "l \<in> layers_with s es \<longleftrightarrow> (\<exists>e \<in> set es. ev_Layer e = l \<and> ev_Status e = s)"
  by (auto simp: layers_with_def)

lemma layers_with_simps [simp]:
  "layers_with s [] = {}"
  "layers_with s (e # es) = (if ev_Status e = s then {ev_Layer e} else {}) \<union> layers_with s es"
  "layers_with s (xs @ ys) = layers_with s xs \<union> layers_with s ys"
  by (auto simp: layers_with_def)

text \<open>The parts of the evidence and the layers they write about.\<close>

definition all_layer :: "string \<Rightarrow> evidence list \<Rightarrow> bool" where
  "all_layer l es \<longleftrightarrow> list_all (\<lambda>e. ev_Layer e = l) es"

lemma all_layer_simps [simp]:
  "all_layer l []" "all_layer l (e # es) \<longleftrightarrow> ev_Layer e = l \<and> all_layer l es"
  "all_layer l (xs @ ys) \<longleftrightarrow> all_layer l xs \<and> all_layer l ys"
  by (simp_all add: all_layer_def)

lemma all_layer_concat: "(\<And>x. all_layer l (f x)) \<Longrightarrow> all_layer l (concat (map f xs))"
  by (induction xs) simp_all

lemma all_layer_map: "(\<And>x. ev_Layer (f x) = l) \<Longrightarrow> all_layer l (map f xs)"
  by (induction xs) simp_all

lemma all_layer_layers: "all_layer l es \<Longrightarrow> layers_with s es \<subseteq> {l}"
  by (auto simp: layers_with_iff all_layer_def list_all_iff)

lemma all_layer_dns_parts:
  "all_layer ''dns'' (answer_evidence a ians)" "ev_Layer (analysis_evidence a) = ''dns''"
  "all_layer ''dns'' (control_evidence st)" "verify_evidence st = Some vs \<Longrightarrow> all_layer ''dns'' vs"
  by (auto simp: answer_evidence_def analysis_evidence_def control_evidence_def verify_evidence_def
      split: prod.splits option.splits list.splits if_splits)

lemma all_layer_dns: "dns_evidence st = Some ds \<Longrightarrow> all_layer ''dns'' ds"
  by (auto simp: dns_evidence_def Let_def all_layer_dns_parts all_layer_concat simp del: enumerate_simps
      split: if_splits)

lemma all_layer_parts:
  "all_layer ''local'' (local_evidence lo)" "all_layer ''dns'' (intercept_evidence ic)"
  "all_layer ''tcp'' (tcp_evidence st)" "all_layer ''tls'' (tls_evidence st)"
  "all_layer ''http'' (http_evidence st)" "all_layer ''speed'' (speed_evidence st)"
  "all_layer ''outage'' (outage_evidence st)"
  by (simp_all add: local_evidence_def baseline_evidence_def intercept_evidence_def tcp_evidence_def
      tls_evidence_def handshake_evidence_def http_evidence_def speed_evidence_def measurement_evidence_def
      outage_evidence_def all_layer_map split: option.split prod.split http_class.split)

lemma layers_with_evidence:
  assumes "evidence_of sh st = Some es"
  obtains ds where "dns_evidence st = Some ds"
    and "layers_with s es = layers_with s (local_evidence (sh_local sh)) \<union> layers_with s (intercept_evidence (sh_intercept sh))
      \<union> layers_with s ds \<union> layers_with s (tcp_evidence st) \<union> layers_with s (tls_evidence st)
      \<union> layers_with s (http_evidence st) \<union> layers_with s (speed_evidence st) \<union> layers_with s (outage_evidence st)"
  using assms by (auto simp: evidence_of_def Un_assoc split: option.splits)

section \<open>What each cause leaves in the evidence\<close>

lemma local_fails:
  "lo = Some l \<Longrightarrow> fst (Down l) \<Longrightarrow> ''local'' \<in> layers_with Fail (local_evidence lo)"
  by (auto simp: local_evidence_def split: prod.splits)

lemma tcp_fails:
  assumes "rn_tcp st \<noteq> []" and "ts_Working (Summarize (rn_tcp st)) = None"
  shows "''tcp'' \<in> layers_with Fail (tcp_evidence st)"
proof -
  from assms(1) obtain r rs where r: "rn_tcp st = r # rs" by (cases "rn_tcp st") auto
  have "tcp_Outcome r \<noteq> TcpOK"
    using assms(2) by (simp add: Summarize_Working r split: if_splits)
  then show ?thesis by (simp add: tcp_evidence_def r)
qed

lemma tcp_passes:
  assumes "ts_Working (Summarize (rn_tcp st)) = Some w"
  shows "''tcp'' \<in> layers_with Pass (tcp_evidence st)"
proof -
  have "w \<in> set (rn_tcp st)" "tcp_Outcome w = TcpOK"
    using assms by (auto simp: Summarize_Working find_Some_iff)
  then show ?thesis by (force simp: tcp_evidence_def layers_with_iff)
qed

lemma tls_fails_iff:
  "rn_tls st = Some t \<Longrightarrow> tls_Neutral t = None \<Longrightarrow> tls_NoSNI t = None \<Longrightarrow> \<not> SNI_filtered t \<Longrightarrow>
     ''tls'' \<in> layers_with Fail (tls_evidence st) \<longleftrightarrow> hs_Outcome (tls_Real t) \<noteq> TlsOK"
  by (simp add: tls_evidence_def handshake_evidence_def)

lemma tls_fails:
  "rn_tls st = Some t \<Longrightarrow> hs_Outcome (tls_Real t) \<noteq> TlsOK \<Longrightarrow> ''tls'' \<in> layers_with Fail (tls_evidence st)"
  by (simp add: tls_evidence_def handshake_evidence_def)

lemma tls_passes:
  "rn_tls st = Some t \<Longrightarrow> hs_Outcome (tls_Real t) = TlsOK \<Longrightarrow> ''tls'' \<in> layers_with Pass (tls_evidence st)"
  by (simp add: tls_evidence_def handshake_evidence_def)

lemma http_fails:
  "rn_http st = Some h \<Longrightarrow> hr_Class h \<noteq> HttpOK \<Longrightarrow> ''http'' \<in> layers_with Fail (http_evidence st)"
  by (simp add: http_evidence_def split: http_class.splits)

lemma http_passes:
  "rn_http st = Some h \<Longrightarrow> hr_Class h = HttpOK \<Longrightarrow> ''http'' \<in> layers_with Pass (http_evidence st)"
  by (simp add: http_evidence_def)

lemma speed_fails:
  "rn_speed st = Some sp \<Longrightarrow> sr_Throttled sp \<Longrightarrow> ''speed'' \<in> layers_with Fail (speed_evidence st)"
  by (simp add: speed_evidence_def)

text \<open>The DNS part, for a target whose lookups were made.\<close>

lemma dns_fails_analysis:
  assumes "dns_evidence st = Some ds" "rn_resolved st"
    and "Poisoned (rn_analysis st) \<or> (an_Unresolvable (rn_analysis st) \<and> an_Suspects (rn_analysis st) = [])"
  shows "''dns'' \<in> layers_with Fail ds"
  using assms
  by (auto simp: dns_evidence_def Let_def analysis_evidence_def Poisoned_def simp del: enumerate_simps)

lemma dns_fails_verify:
  assumes "dns_evidence st = Some ds" "rn_resolved st" "rn_verify st = Some v" "hs_Outcome v \<noteq> TlsOK"
  shows "''dns'' \<in> layers_with Fail ds"
  using assms by (auto simp: dns_evidence_def Let_def verify_evidence_def simp del: enumerate_simps split: list.splits)

lemma dns_fails_system:
  assumes "dns_evidence st = Some ds" "rn_resolved st"
    and "\<not> answer_OK (dr_System (rn_dns st))" "da_Resolver (dr_System (rn_dns st)) \<noteq> []"
  shows "''dns'' \<in> layers_with Fail ds"
  using assms by (auto simp: dns_evidence_def Let_def answer_evidence_def)

lemma dns_fails_control:
  assumes "dns_evidence st = Some ds" "rn_resolved st" "rn_control st = Some c" "an_Dropped (rn_analysis st)"
  shows "''dns'' \<in> layers_with Fail ds"
  using assms by (auto simp: dns_evidence_def Let_def control_evidence_def simp del: enumerate_simps)

section \<open>One target\<close>

lemma dropped_control:
  assumes "checkTarget cfg net t sh = (st, sh')" "an_Dropped (rn_analysis st)"
  shows "rn_control st \<noteq> None"
proof -
  obtain st1 sh1 st2 where L: "dns_layer cfg t sh = (st1, sh1)"
    "service_layers cfg net t (tcp_layer cfg net (verify_layer cfg net t st1)) sh1 = (st2, sh')"
    "st = outage_layer net t st2"
    using assms(1) by (rule checkTarget_layers)
  note f = service_layers_fields [OF L(2)]
  have "an_Dropped (rn_analysis st1)" using assms(2) by (simp add: L(3) f)
  with dns_layer_dropped [OF L(1)] have "rn_control st1 \<noteq> None" by blast
  then show ?thesis by (simp add: L(3) f)
qed

lemma target_analysis:
  assumes "checkTarget cfg net t sh = (st, sh')"
  shows "an_Unresolvable (rn_analysis st) \<Longrightarrow> an_Suspects (rn_analysis st) = []"
    and "an_SystemFailure (rn_analysis st) \<noteq> [] \<Longrightarrow>
      \<not> answer_OK (dr_System (rn_dns st)) \<and> da_Resolver (dr_System (rn_dns st)) \<noteq> []"
    and "an_Reference (rn_analysis st) = [] \<Longrightarrow> \<not> Poisoned (rn_analysis st) \<Longrightarrow> an_Unresolvable (rn_analysis st)"
proof -
  let ?A = "Analyze (rn_dns st) (the (cfg_Signatures cfg))"
  obtain x where A: "rn_analysis st = ?A\<lparr>an_Dropped := x\<rparr>"
    using checkTarget_analysis [OF assms] by blast
  note f = Analyze_fields [of "rn_dns st" "the (cfg_Signatures cfg)"]
  show "an_Unresolvable (rn_analysis st) \<Longrightarrow> an_Suspects (rn_analysis st) = []"
    unfolding A using f(5,8) by (auto split: if_splits)
  show "an_SystemFailure (rn_analysis st) \<noteq> [] \<Longrightarrow>
      \<not> answer_OK (dr_System (rn_dns st)) \<and> da_Resolver (dr_System (rn_dns st)) \<noteq> []"
    unfolding A using f(7) by (auto split: if_splits)
  show "an_Reference (rn_analysis st) = [] \<Longrightarrow> \<not> Poisoned (rn_analysis st) \<Longrightarrow> an_Unresolvable (rn_analysis st)"
    unfolding A Poisoned_def using f(1,3,4,8) by simp
qed

lemma failed_layers:
  assumes R: "checkTarget cfg net t sh = (st, sh')" and es: "evidence_of sh2 st = Some es"
  defines "inp \<equiv> verdict_input cfg sh2 st"
  shows "in_Local inp = Some l \<Longrightarrow> fst (Down l) \<Longrightarrow> ''local'' \<in> layers_with Fail es"
    and "no_connection inp \<Longrightarrow> ''tcp'' \<in> layers_with Fail es"
    and "in_TLS inp = Some tres \<Longrightarrow> hs_Outcome (tls_Real tres) \<noteq> TlsOK \<Longrightarrow> ''tls'' \<in> layers_with Fail es"
    and "in_HTTP inp = Some h \<Longrightarrow> hr_Class h \<noteq> HttpOK \<Longrightarrow> ''http'' \<in> layers_with Fail es"
    and "throttled inp \<Longrightarrow> ''speed'' \<in> layers_with Fail es"
    and "Poisoned (in_DNS inp) \<or> mismatch inp \<or> an_SystemFailure (in_DNS inp) \<noteq> []
      \<or> an_Dropped (in_DNS inp) \<or> an_Unresolvable (in_DNS inp) \<Longrightarrow> ''dns'' \<in> layers_with Fail es"
proof -
  obtain ds where ds: "dns_evidence st = Some ds"
    and F: "layers_with Fail es = layers_with Fail (local_evidence (sh_local sh2))
      \<union> layers_with Fail (intercept_evidence (sh_intercept sh2))
      \<union> layers_with Fail ds \<union> layers_with Fail (tcp_evidence st) \<union> layers_with Fail (tls_evidence st)
      \<union> layers_with Fail (http_evidence st) \<union> layers_with Fail (speed_evidence st)
      \<union> layers_with Fail (outage_evidence st)"
    using layers_with_evidence [OF es, of Fail] by blast
  have sel: "in_Local inp = sh_local sh2" "in_TCP inp = rn_tcp st" "in_TLS inp = rn_tls st"
    "in_HTTP inp = rn_http st" "in_Speed inp = rn_speed st" "in_DNS inp = rn_analysis st"
    "in_Verify inp = rn_verify st"
    by (simp_all add: inp_def verdict_input_def)
  note res = checkTarget_tcp(7) [OF R]
  show "in_Local inp = Some l \<Longrightarrow> fst (Down l) \<Longrightarrow> ''local'' \<in> layers_with Fail es"
    unfolding sel F using local_fails by blast
  show "no_connection inp \<Longrightarrow> ''tcp'' \<in> layers_with Fail es"
    unfolding no_connection_def sel F using tcp_fails by blast
  show "in_TLS inp = Some tres \<Longrightarrow> hs_Outcome (tls_Real tres) \<noteq> TlsOK \<Longrightarrow> ''tls'' \<in> layers_with Fail es"
    unfolding sel F using tls_fails by blast
  show "in_HTTP inp = Some h \<Longrightarrow> hr_Class h \<noteq> HttpOK \<Longrightarrow> ''http'' \<in> layers_with Fail es"
    unfolding sel F using http_fails by blast
  show "throttled inp \<Longrightarrow> ''speed'' \<in> layers_with Fail es"
    unfolding throttled_def sel F using speed_fails by (auto split: option.splits)
  have dns: "''dns'' \<in> layers_with Fail ds \<Longrightarrow> ''dns'' \<in> layers_with Fail es" unfolding F by blast
  have verify: "mismatch inp \<Longrightarrow> \<exists>v. rn_verify st = Some v \<and> hs_Outcome v \<noteq> TlsOK"
    by (auto simp: mismatch_def suspectInvalid_def sel split: option.splits if_splits)
  show "Poisoned (in_DNS inp) \<or> mismatch inp \<or> an_SystemFailure (in_DNS inp) \<noteq> []
      \<or> an_Dropped (in_DNS inp) \<or> an_Unresolvable (in_DNS inp) \<Longrightarrow> ''dns'' \<in> layers_with Fail es"
    unfolding sel(6)
    using dns dns_fails_analysis [OF ds res] dns_fails_verify [OF ds res] dns_fails_system [OF ds res]
      dns_fails_control [OF ds res] target_analysis [OF R] dropped_control [OF R] verify
    by blast
qed

lemma row_supported:
  assumes R: "checkTarget cfg net t sh = (st, sh')" and es: "evidence_of sh2 st = Some es"
    and row: "(True, v) \<in> set (verdict_rules (verdict_input cfg sh2 st))"
    and v: "v \<noteq> OK" "v \<noteq> TLSIntercepted"
  shows "layers_with Fail es \<inter> support_layers v \<noteq> {}"
proof -
  let ?inp = "verdict_input cfg sh2 st"
  note F = failed_layers [OF R es]
  have tls: "''tls'' \<in> layers_with Fail es" if "on_handshake ?inp P" "\<And>t. P t \<Longrightarrow> hs_Outcome (tls_Real t) \<noteq> TlsOK" for P
    using that F(3) by (auto simp: on_handshake_def split: option.splits)
  have http: "''http'' \<in> layers_with Fail es" if "on_response ?inp P" "\<And>h. P h \<Longrightarrow> hr_Class h \<noteq> HttpOK" for P
    using that F(4) by (auto simp: on_response_def split: option.splits)
  have speed: "''speed'' \<in> layers_with Fail es" if "throttled ?inp" using F(5) that by blast
  have locl: "''local'' \<in> layers_with Fail es" if "case in_Local ?inp of None \<Rightarrow> False | Some l \<Rightarrow> fst (Down l)"
    using F(1) that by (auto split: option.splits)
  note dns = F(6) and tcp = F(2)
  have bad: "hs_Outcome (tls_Real t) \<noteq> TlsOK" if "SNI_filtered t \<or> Blocked (tls_Real t)" for t
    using that by (auto simp: SNI_filtered_def Blocked_def split: if_splits)
  show ?thesis
    using row v
    apply (simp only: verdict_rules_def Let_def set_simps insert_iff prod.inject empty_iff simp_thms)
    apply (elim disjE conjE; hypsubst)
    apply (use locl in \<open>simp; fail\<close>
        | use tcp in \<open>simp; fail\<close>
        | use dns in \<open>simp; fail\<close>
        | use speed in \<open>simp; fail\<close>
        | (drule tls, use bad in \<open>force\<close>, simp; fail)
        | (drule http, force, simp; fail)
        | simp)+
    done
qed

lemma first_rule_row: "first_rule rs = v \<Longrightarrow> v \<noteq> Inconclusive \<Longrightarrow> (True, v) \<in> set rs"
  by (induction rs rule: first_rule.induct) (auto split: if_splits)

lemma first_rule_none: "first_rule rs = Inconclusive \<Longrightarrow> Inconclusive \<notin> snd ` set rs \<Longrightarrow> True \<notin> fst ` set rs"
  by (induction rs rule: first_rule.induct) (auto split: if_splits)

lemma tcp_probed:
  assumes "checkTarget cfg net t sh = (st, sh')" and "0 < cfg_MaxAddrs cfg"
  shows "rn_tcp st = [] \<longleftrightarrow> an_Reference (rn_analysis st) = []"
proof -
  have "map tcp_Addr (rn_tcp st) = map (addrPort cfg) (take (nat (cfg_MaxAddrs cfg)) (an_Reference (rn_analysis st)))"
    unfolding checkTarget_tcp(1) [OF assms(1)] map_Addr_ProbeAll
    using assms(2) by (subst pick_addrs_eq) auto
  then show ?thesis using assms(2) by (metis map_is_Nil_conv not_less take_eq_Nil zero_less_nat_eq less_numeral_extra(3))
qed

lemma service_known:
  assumes "checkTarget cfg net t sh = (st, sh')" and "ts_Working (Summarize (rn_tcp st)) = Some w"
  obtains r where "rn_tls st = Some r" "handshake_done r \<Longrightarrow> rn_http st \<noteq> None"
    "hs_Outcome (tls_Real r) \<in> {TlsOK, TlsCertInvalid} \<Longrightarrow> tls_Neutral r = None \<and> tls_NoSNI r = None"
proof
  show "rn_tls st = Some (tls_of cfg net t w)"
    using checkTarget_service(1) [OF assms(1)] assms(2) by simp
  show "handshake_done (tls_of cfg net t w) \<Longrightarrow> rn_http st \<noteq> None"
    using checkTarget_service(2) [OF assms(1)] assms(2) by simp
  show "hs_Outcome (tls_Real (tls_of cfg net t w)) \<in> {TlsOK, TlsCertInvalid} \<Longrightarrow>
      tls_Neutral (tls_of cfg net t w) = None \<and> tls_NoSNI (tls_of cfg net t w) = None"
    by (auto simp: tls_Check_def Let_def Blocked_def)
qed

text \<open>Nothing fits: some layer failed in a way that proves nothing.\<close>

lemma inconclusive_supported:
  assumes R: "checkTarget cfg net t sh = (st, sh')" and es: "evidence_of sh2 st = Some es"
    and max: "0 < cfg_MaxAddrs cfg" and none: "True \<notin> fst ` set (verdict_rules (verdict_input cfg sh2 st))"
  shows "layers_with Fail es \<inter> support_layers Inconclusive \<noteq> {}"
proof -
  let ?inp = "verdict_input cfg sh2 st"
  note F = failed_layers [OF R es]
  have sel: "in_TCP ?inp = rn_tcp st" "in_TLS ?inp = rn_tls st" "in_HTTP ?inp = rn_http st"
    "in_DNS ?inp = rn_analysis st" by (simp_all add: verdict_input_def)
  consider "rn_tcp st = []" | "no_connection ?inp" | w where "working ?inp = Some w"
    by (cases "ts_Working (Summarize (rn_tcp st))") (auto simp: no_connection_def sel)
  then show ?thesis
  proof cases
    case 1
    then have "an_Reference (rn_analysis st) = []" using tcp_probed [OF R max] by simp
    then have "Poisoned (in_DNS ?inp) \<or> an_Unresolvable (in_DNS ?inp)"
      using target_analysis(3) [OF R] unfolding sel by blast
    then show ?thesis using F(6) by auto
  next
    case 2
    then show ?thesis using F(2) by auto
  next
    case 3
    obtain r where r: "rn_tls st = Some r" "handshake_done r \<Longrightarrow> rn_http st \<noteq> None"
      using service_known [OF R 3 [unfolded sel]] by metis
    show ?thesis
    proof (cases "hs_Outcome (tls_Real r) = TlsOK")
      case False
      then show ?thesis using F(3) [unfolded sel, OF r(1)] by simp
    next
      case True
      then obtain h where h: "rn_http st = Some h" using r(2) by (auto simp: handshake_done_def)
      have "on_response ?inp (\<lambda>h. hr_Class h = HttpOK) \<notin> fst ` set (verdict_rules ?inp) \<or> \<not> on_response ?inp (\<lambda>h. hr_Class h = HttpOK)"
        using none by auto
      moreover have "on_response ?inp (\<lambda>h. hr_Class h = HttpOK) \<in> fst ` set (verdict_rules ?inp)"
        by (simp add: verdict_rules_def Let_def)
      ultimately have "hr_Class h \<noteq> HttpOK"
        using True 3 by (simp add: on_response_def on_handshake_def handshake_done_def sel r h)
      then show ?thesis using F(4) [unfolded sel, OF h] by simp
    qed
  qed
qed

text \<open>Nothing is wrong: the three layers of the path have a passing entry.\<close>

lemma ok_supported:
  assumes R: "checkTarget cfg net t sh = (st, sh')" and es: "evidence_of sh2 st = Some es"
    and OK: "d_Verdict (Decide (verdict_input cfg sh2 st)) = OK"
  shows "{''tcp'', ''tls'', ''http''} \<subseteq> layers_with Pass es"
proof -
  let ?inp = "verdict_input cfg sh2 st"
  have sel: "in_TCP ?inp = rn_tcp st" "in_TLS ?inp = rn_tls st" "in_HTTP ?inp = rn_http st"
    by (simp_all add: verdict_input_def)
  obtain w where w: "ts_Working (Summarize (rn_tcp st)) = Some w"
    using OK by (auto simp: Decide_OK_iff sel)
  obtain r where r: "rn_tls st = Some r" "handshake_done r \<Longrightarrow> rn_http st \<noteq> None"
    using service_known [OF R w] by metis
  have "hs_Outcome (tls_Real r) = TlsOK" "service_ok ?inp"
    using OK by (auto simp: Decide_OK_iff sel r)
  moreover from this r(2) obtain h where "rn_http st = Some h" "hr_Class h = HttpOK"
    by (auto simp: handshake_done_def service_ok_def sel split: option.splits)
  ultimately have "''tls'' \<in> layers_with Pass (tls_evidence st)" "''http'' \<in> layers_with Pass (http_evidence st)"
    using tls_passes [OF r(1)] http_passes by blast+
  moreover obtain ds where "layers_with Pass es = layers_with Pass (local_evidence (sh_local sh2))
      \<union> layers_with Pass (intercept_evidence (sh_intercept sh2)) \<union> layers_with Pass ds
      \<union> layers_with Pass (tcp_evidence st) \<union> layers_with Pass (tls_evidence st)
      \<union> layers_with Pass (http_evidence st) \<union> layers_with Pass (speed_evidence st)
      \<union> layers_with Pass (outage_evidence st)"
    using layers_with_evidence [OF es, of Pass] by blast
  ultimately show ?thesis using tcp_passes [OF w] by simp
qed

text \<open>An interception is seen in the evidence exactly when the certificate was rejected.\<close>

lemma intercepted_supported:
  assumes R: "checkTarget cfg net t sh = (st, sh')" and es: "evidence_of sh2 st = Some es"
    and v: "d_Verdict (Decide (verdict_input cfg sh2 st)) = TLSIntercepted"
  shows "\<exists>r. rn_tls st = Some r \<and> hs_Outcome (tls_Real r) \<in> {TlsOK, TlsCertInvalid}
    \<and> (''tls'' \<in> layers_with Fail es \<longleftrightarrow> hs_Outcome (tls_Real r) = TlsCertInvalid)"
proof -
  let ?inp = "verdict_input cfg sh2 st"
  have sel: "in_TCP ?inp = rn_tcp st" "in_TLS ?inp = rn_tls st" by (simp_all add: verdict_input_def)
  have "(True, TLSIntercepted) \<in> set (verdict_rules ?inp)"
    by (rule first_rule_row [OF v [unfolded Decide_rules]]) simp
  then obtain w r where w: "ts_Working (Summarize (rn_tcp st)) = Some w" and r: "rn_tls st = Some r"
    and oc: "hs_Outcome (tls_Real r) \<in> {TlsOK, TlsCertInvalid}"
    by (auto simp: verdict_rules_def Let_def on_handshake_def sel split: option.splits)
  have ex: "tls_Neutral r = None" "tls_NoSNI r = None" "\<not> SNI_filtered r"
    using service_known [OF R w] r oc handshake_done_not_filtered [of r]
    by (auto simp: handshake_done_def)
  obtain ds where ds: "dns_evidence st = Some ds"
    and F: "layers_with Fail es = layers_with Fail (local_evidence (sh_local sh2))
      \<union> layers_with Fail (intercept_evidence (sh_intercept sh2))
      \<union> layers_with Fail ds \<union> layers_with Fail (tcp_evidence st) \<union> layers_with Fail (tls_evidence st)
      \<union> layers_with Fail (http_evidence st) \<union> layers_with Fail (speed_evidence st)
      \<union> layers_with Fail (outage_evidence st)"
    using layers_with_evidence [OF es, of Fail] by blast
  have "''tls'' \<in> layers_with Fail es \<longleftrightarrow> ''tls'' \<in> layers_with Fail (tls_evidence st)"
    using all_layer_parts [THEN all_layer_layers] all_layer_dns [OF ds, THEN all_layer_layers]
    unfolding F by fastforce
  also have "\<dots> \<longleftrightarrow> hs_Outcome (tls_Real r) \<noteq> TlsOK"
    by (rule tls_fails_iff [OF r ex])
  finally show ?thesis using r oc by auto
qed

section \<open>The verdict and the evidence agree\<close>

text \<open>
  Claim C6. The evidence shown with a target supports its verdict. Every verdict that names a
  failure, and an inconclusive one, comes with a failed entry in a layer that verdict is about; a
  target reported as OK has a passing entry for its connection, its handshake and its request.
  The one verdict the statuses alone do not always show is TLS_INTERCEPTED: its handshake entry
  has failed exactly when the certificate was rejected, and passes when only the issuer's name
  gave the middlebox away.
\<close>

theorem evidence_supports_verdict:
  fixes cfg0 b net t sh sh2
  defines "cfg \<equiv> fillDefaults b cfg0"
  defines "st \<equiv> fst (checkTarget cfg net t sh)"
  defines "D \<equiv> Decide (verdict_input cfg sh2 st)"
  shows "\<exists>es. evidence_of sh2 st = Some es
    \<and> (case d_Verdict D of
         OK \<Rightarrow> {''tcp'', ''tls'', ''http''} \<subseteq> layers_with Pass es
       | TLSIntercepted \<Rightarrow>
           (\<exists>r. rn_tls st = Some r \<and> hs_Outcome (tls_Real r) \<in> {TlsOK, TlsCertInvalid}
             \<and> (''tls'' \<in> layers_with Fail es \<longleftrightarrow> hs_Outcome (tls_Real r) = TlsCertInvalid))
       | v \<Rightarrow> layers_with Fail es \<inter> support_layers v \<noteq> {})"
proof -
  obtain sh' where R: "checkTarget cfg net t sh = (st, sh')"
    unfolding st_def by (metis prod.collapse)
  obtain es where es: "evidence_of sh2 st = Some es"
    using evidence_total [of sh2 cfg net t sh] by (auto simp: R)
  let ?rules = "verdict_rules (verdict_input cfg sh2 st)"
  have max: "0 < cfg_MaxAddrs cfg" by (simp add: cfg_def)
  have D: "d_Verdict D = first_rule ?rules" unfolding D_def by (rule Decide_rules)
  have fail: "layers_with Fail es \<inter> support_layers (d_Verdict D) \<noteq> {}"
    if "d_Verdict D \<noteq> OK" "d_Verdict D \<noteq> TLSIntercepted"
  proof (cases "d_Verdict D = Inconclusive")
    case True
    have "Inconclusive \<notin> snd ` set ?rules" by (simp add: verdict_rules_def Let_def)
    then show ?thesis
      using inconclusive_supported [OF R es max] first_rule_none [of ?rules] D True by metis
  next
    case False
    then show ?thesis using row_supported [OF R es first_rule_row] D that by metis
  qed
  show ?thesis
    using es fail ok_supported [OF R es, folded D_def] intercepted_supported [OF R es, folded D_def]
    by (cases "d_Verdict D") simp_all
qed

section \<open>What an unclassified error shows\<close>

text \<open>
  An error of no known category is shown whole. The text of a \<^verbatim>\<open>net.OpError\<close> of an open socket names
  both of its ends, so a datagram that a local firewall refuses puts the machine's own address into
  the evidence, and from there into the Markdown and JSON reports, which are documented not to
  contain it.
\<close>

lemma Short_other: "Classify (Some e) = KindOther \<Longrightarrow> Short (Some e) = err_text e"
  by (simp add: Short_def Let_def split: option.split)

definition refused_write :: goerr where
  "refused_write =
     GoErr KPlain (Some False) True ''write udp 192.168.1.7:40000->1.1.1.1:53: write: operation not permitted''
       [GoErr KPlain None False ''write: operation not permitted''
         [GoErr (KErrno (EOther 1)) (Some False) True ''operation not permitted'' []]]"

definition refused_answer :: dns_answer where
  "refused_answer =
     \<lparr>da_Resolver = ''1.1.1.1'', da_Kind = KindUDP, da_Addrs = [], da_Err = Some refused_write, da_Duration = 0\<rparr>"

lemma local_address_shown:
  "map md_evidence_row (answer_evidence empty_analysis (1, refused_answer)) =
     [''| dns | 1.1.1.1 | fail | write udp 192.168.1.7:40000->1.1.1.1:53: write: operation not permitted after 0s |'']"
  by code_simp

end
