(* ===== verification/Presets.thy ===== *)
theory Presets
  imports Gonet "HOL-Library.AList"
begin

text \<open>
  Package presets (internal/presets/presets.go): named groups of targets, merged from the built-in
  file and user files, and expanded along their includes. A Go map of presets is an association
  list with distinct keys; its order is the iteration order of the run, which the code's results
  must not depend on. The YAML decoder is a parameter. \<open>walk\<close> is the recursive closure of
  \<^verbatim>\<open>Resolve\<close>; its termination is proved from the stack of names being expanded.
\<close>

section \<open>Data\<close>

record preset =
  pr_Description :: string
  pr_Targets :: "target list"
  pr_Include :: "string list"

record preset_file =
  pf_Default :: string
  pf_Presets :: "(string \<times> preset) list"

record preset_set =
  ps_Default :: string
  ps_Presets :: "(string \<times> preset) list"

datatype preset_error =
    PresetDecode string
  | PresetBoth string
  | PresetNoHost string nat
  | PresetCycle "string list" string
  | PresetUnknown string "string list"
  | PresetRead string
  | PresetInFile string preset_error
  | PresetPanic string

fun preset_error_text :: "preset_error \<Rightarrow> string" where
  "preset_error_text (PresetDecode e) = ''parse presets: '' @ e"
| "preset_error_text (PresetBoth name) =
     ''preset '' @ go_quote name @ '': use either targets or include, not both''"
| "preset_error_text (PresetNoHost name i) =
     ''preset '' @ go_quote name @ '': target '' @ digits_of i @ '' has no host''"
| "preset_error_text (PresetCycle stack n) =
     ''preset include cycle: '' @ str_join stack '' -> '' @ '' -> '' @ n"
| "preset_error_text (PresetUnknown n names) =
     ''unknown preset '' @ go_quote n @ '' (available: '' @ str_join names '', '' @ '')''"
| "preset_error_text (PresetRead e) = e"
| "preset_error_text (PresetInFile path e) = path @ '': '' @ preset_error_text e"
| "preset_error_text (PresetPanic e) = ''embedded presets are invalid: '' @ e"

section \<open>Parsing and merging\<close>

text \<open>The inner loop over the targets, counting from one in the message.\<close>

fun check_targets :: "string \<Rightarrow> nat \<Rightarrow> target list \<Rightarrow> preset_error option" where
  "check_targets name i [] = None"
| "check_targets name i (t # ts) =
     (if trim_space (target_Host t) = [] then Some (PresetNoHost name (i + 1))
      else check_targets name (Suc i) ts)"

fun check_presets :: "(string \<times> preset) list \<Rightarrow> preset_error option" where
  "check_presets [] = None"
| "check_presets ((name, p) # rest) =
     (if 0 < length (pr_Targets p) \<and> 0 < length (pr_Include p) then Some (PresetBoth name)
      else (case check_targets name 0 (pr_Targets p) of
          Some e \<Rightarrow> Some e
        | None \<Rightarrow> check_presets rest))"

definition presets_Parse :: "(bytes \<Rightarrow> string + preset_file) \<Rightarrow> bytes \<Rightarrow> preset_error + preset_file" where
  "presets_Parse decode data =
     (case decode data of
        Inl e \<Rightarrow> Inl (PresetDecode e)
      | Inr f \<Rightarrow> (case check_presets (pf_Presets f) of Some e \<Rightarrow> Inl e | None \<Rightarrow> Inr f))"

definition presets_Builtin :: "(bytes \<Rightarrow> string + preset_file) \<Rightarrow> bytes \<Rightarrow> preset_error + preset_set" where
  "presets_Builtin decode builtin =
     (case presets_Parse decode builtin of
        Inl e \<Rightarrow> Inl (PresetPanic (preset_error_text e))
      | Inr f \<Rightarrow> Inr \<lparr>ps_Default = pf_Default f, ps_Presets = pf_Presets f\<rparr>)"

definition presets_Merge :: "preset_set \<Rightarrow> preset_file \<Rightarrow> preset_set" where
  "presets_Merge s f =
     (let s1 = (if pf_Default f \<noteq> [] then s\<lparr>ps_Default := pf_Default f\<rparr> else s)
      in foldl (\<lambda>st np. st\<lparr>ps_Presets := AList.update (fst np) (snd np) (ps_Presets st)\<rparr>) s1 (pf_Presets f))"

text \<open>What reading a file gave: its bytes, that it does not exist, or another error.\<close>

datatype preset_read = PresetOK bytes | PresetNotExist string | PresetReadErr string

definition presets_MergeFile ::
  "(bytes \<Rightarrow> string + preset_file) \<Rightarrow> preset_set \<Rightarrow> string \<Rightarrow> preset_read \<Rightarrow> bool \<Rightarrow> preset_error + preset_set" where
  "presets_MergeFile decode s path contents optional =
     (case contents of
        PresetNotExist e \<Rightarrow> if optional then Inr s else Inl (PresetRead e)
      | PresetReadErr e \<Rightarrow> Inl (PresetRead e)
      | PresetOK data \<Rightarrow>
          (case presets_Parse decode data of
             Inl e \<Rightarrow> Inl (PresetInFile path e)
           | Inr f \<Rightarrow> Inr (presets_Merge s f)))"

definition Names :: "preset_set \<Rightarrow> string list" where
  "Names s = sort (map fst (ps_Presets s))"

section \<open>Resolve\<close>

type_synonym walk_state = "string set \<times> target list"

definition add_target :: "walk_state \<Rightarrow> target \<Rightarrow> walk_state" where
  "add_target st t =
     (case st of (seen, out) \<Rightarrow>
        let key = to_lower (target_Host t) in
        if key \<in> seen then (seen, out) else (insert key seen, out @ [t]))"

function (sequential) walk :: "preset_set \<Rightarrow> string \<Rightarrow> string list \<Rightarrow> walk_state \<Rightarrow> preset_error + walk_state"
  and walk_includes :: "preset_set \<Rightarrow> string list \<Rightarrow> string list \<Rightarrow> walk_state \<Rightarrow> preset_error + walk_state"
where
  "walk s n stack st =
     (if n \<in> set stack then Inl (PresetCycle stack n)
      else (case map_of (ps_Presets s) n of
          None \<Rightarrow> Inl (PresetUnknown n (Names s))
        | Some p \<Rightarrow>
            (case walk_includes s (pr_Include p) (stack @ [n]) st of
               Inl e \<Rightarrow> Inl e
             | Inr st' \<Rightarrow> Inr (foldl add_target st' (pr_Targets p)))))"
| "walk_includes s [] stack st = Inr st"
| "walk_includes s (i # is) stack st =
     (case walk s i stack st of
        Inl e \<Rightarrow> Inl e
      | Inr st' \<Rightarrow> walk_includes s is stack st')"
  by pat_completeness auto

text \<open>Each nested call has one more defined name on the stack, and a name on it is refused.\<close>

termination
proof (relation "inv_image (less_than <*lex*> less_than)
    (\<lambda>x. case x of
       Inl (s, n, stack, st) \<Rightarrow> (card (fst ` set (ps_Presets s) - set stack), 0)
     | Inr (s, is, stack, st) \<Rightarrow> (card (fst ` set (ps_Presets s) - set stack), Suc (length is)))")
  fix s :: preset_set and n :: string and stack :: "string list" and st :: walk_state and p
  assume n: "n \<notin> set stack" and p: "map_of (ps_Presets s) n = Some p"
  have "n \<in> fst ` set (ps_Presets s)" using map_of_SomeD [OF p] by force
  then have "card (fst ` set (ps_Presets s) - set (stack @ [n])) < card (fst ` set (ps_Presets s) - set stack)"
    using n by (intro psubset_card_mono) auto
  then show "(Inr (s, pr_Include p, stack @ [n], st), Inl (s, n, stack, st)) \<in> inv_image (less_than <*lex*> less_than)
    (\<lambda>x. case x of
       Inl (s, n, stack, st) \<Rightarrow> (card (fst ` set (ps_Presets s) - set stack), 0)
     | Inr (s, is, stack, st) \<Rightarrow> (card (fst ` set (ps_Presets s) - set stack), Suc (length is)))"
    by simp
qed auto

declare walk.simps [simp del]

definition presets_Resolve :: "preset_set \<Rightarrow> string \<Rightarrow> preset_error + target list" where
  "presets_Resolve s name =
     (case walk s name [] ({}, []) of Inl e \<Rightarrow> Inl e | Inr (seen, out) \<Rightarrow> Inr out)"

section \<open>Lookup\<close>

fun find_target :: "string \<Rightarrow> target list \<Rightarrow> target option" where
  "find_target host [] = None"
| "find_target host (t # ts) =
     (if to_lower (target_Host t) = host then Some t else find_target host ts)"

fun lookup_names :: "preset_set \<Rightarrow> string \<Rightarrow> string list \<Rightarrow> target option" where
  "lookup_names s host [] = None"
| "lookup_names s host (n # ns) =
     (case find_target host (case map_of (ps_Presets s) n of None \<Rightarrow> [] | Some p \<Rightarrow> pr_Targets p) of
        Some t \<Rightarrow> Some t
      | None \<Rightarrow> lookup_names s host ns)"

definition presets_Lookup :: "preset_set \<Rightarrow> string \<Rightarrow> target \<times> bool" where
  "presets_Lookup s host =
     (case lookup_names s (to_lower host) (Names s) of
        Some t \<Rightarrow> (t, True)
      | None \<Rightarrow> (no_target, False))"

section \<open>Facts about Resolve\<close>

interpretation targets: ordered_dedup add_target snd "\<lambda>t. to_lower (target_Host t)"
  "\<lambda>st. fst st = (\<lambda>t. to_lower (target_Host t)) ` set (snd st)"
  by unfold_locales (auto simp: add_target_def Let_def split: prod.splits)

abbreviation host_key :: "target \<Rightarrow> string" where
  "host_key t \<equiv> to_lower (target_Host t)"

definition includes_rel :: "preset_set \<Rightarrow> (string \<times> string) set" where
  "includes_rel s = {(a, b). \<exists>p. map_of (ps_Presets s) a = Some p \<and> b \<in> set (pr_Include p)}"

definition defined :: "preset_set \<Rightarrow> string \<Rightarrow> bool" where
  "defined s n \<longleftrightarrow> map_of (ps_Presets s) n \<noteq> None"

text \<open>A name expands when everything it reaches is defined, off the stack and on no cycle.\<close>

definition expandable :: "preset_set \<Rightarrow> string list \<Rightarrow> string \<Rightarrow> bool" where
  "expandable s stack n \<longleftrightarrow>
     (\<forall>m. (n, m) \<in> (includes_rel s)\<^sup>* \<longrightarrow> defined s m \<and> m \<notin> set stack \<and> (m, m) \<notin> (includes_rel s)\<^sup>+)"

lemma expandable_step:
  assumes p: "map_of (ps_Presets s) n = Some p"
  shows "expandable s stack n \<longleftrightarrow> n \<notin> set stack \<and> (\<forall>i \<in> set (pr_Include p). expandable s (stack @ [n]) i)"
proof
  assume E: "expandable s stack n"
  show "n \<notin> set stack \<and> (\<forall>i \<in> set (pr_Include p). expandable s (stack @ [n]) i)"
  proof (intro conjI ballI)
    show "n \<notin> set stack" using E unfolding expandable_def by blast
    fix i assume "i \<in> set (pr_Include p)"
    with p have ni: "(n, i) \<in> includes_rel s" by (auto simp: includes_rel_def)
    show "expandable s (stack @ [n]) i"
      unfolding expandable_def
    proof (intro allI impI)
      fix m assume im: "(i, m) \<in> (includes_rel s)\<^sup>*"
      then have "(n, m) \<in> (includes_rel s)\<^sup>*" using ni by (rule converse_rtrancl_into_rtrancl [rotated])
      then have m: "defined s m \<and> m \<notin> set stack \<and> (m, m) \<notin> (includes_rel s)\<^sup>+"
        using E unfolding expandable_def by blast
      have "m \<noteq> n" using rtrancl_into_trancl2 [OF ni im] m by blast
      with m show "defined s m \<and> m \<notin> set (stack @ [n]) \<and> (m, m) \<notin> (includes_rel s)\<^sup>+" by simp
    qed
  qed
next
  assume A: "n \<notin> set stack \<and> (\<forall>i \<in> set (pr_Include p). expandable s (stack @ [n]) i)"
  have inc: "\<exists>i \<in> set (pr_Include p). (i, m) \<in> (includes_rel s)\<^sup>*" if "(n, m) \<in> (includes_rel s)\<^sup>+" for m
  proof -
    from tranclD [OF that] obtain i where "(n, i) \<in> includes_rel s" "(i, m) \<in> (includes_rel s)\<^sup>*" by blast
    then show ?thesis using p by (auto simp: includes_rel_def)
  qed
  have reach: "defined s m \<and> m \<notin> set (stack @ [n]) \<and> (m, m) \<notin> (includes_rel s)\<^sup>+"
    if "(n, m) \<in> (includes_rel s)\<^sup>+" for m
    using inc [OF that] A unfolding expandable_def by blast
  show "expandable s stack n"
    unfolding expandable_def
  proof (intro allI impI)
    fix m assume "(n, m) \<in> (includes_rel s)\<^sup>*"
    then consider "m = n" | "(n, m) \<in> (includes_rel s)\<^sup>+" by (auto simp: rtrancl_eq_or_trancl)
    then show "defined s m \<and> m \<notin> set stack \<and> (m, m) \<notin> (includes_rel s)\<^sup>+"
    proof cases
      case 1
      then show ?thesis using A p reach [of n] by (auto simp: defined_def)
    next
      case 2
      then show ?thesis using reach by auto
    qed
  qed
qed

lemma expandable_defined: "expandable s stack n \<Longrightarrow> defined s n \<and> n \<notin> set stack"
  unfolding expandable_def by blast

lemma walk_ok_iff:
  "(\<exists>st'. walk s n stack st = Inr st') \<longleftrightarrow> expandable s stack n"
  "(\<exists>st'. walk_includes s is stack st = Inr st') \<longleftrightarrow> (\<forall>i \<in> set is. expandable s stack i)"
proof (induction s n stack st and s "is" stack st rule: walk_walk_includes.induct)
  case (1 s n stack st)
  show ?case
  proof (cases "n \<in> set stack \<or> map_of (ps_Presets s) n = None")
    case True
    then show ?thesis
      using expandable_defined [of s stack n] by (auto simp: walk.simps [of s n] defined_def)
  next
    case False
    then obtain p where p: "map_of (ps_Presets s) n = Some p" and n: "n \<notin> set stack" by auto
    show ?thesis
      using 1 [OF n p] n by (auto simp: walk.simps [of s n] p expandable_step [OF p] split: sum.splits)
  qed
next
  case (2 s stack st)
  then show ?case by simp
next
  case (3 s i "is" stack st)
  show ?case
  proof (cases "walk s i stack st")
    case (Inl e)
    then show ?thesis using 3(1) by auto
  next
    case (Inr st')
    then show ?thesis using 3(1) 3(2) [OF Inr] by auto
  qed
qed

text \<open>The hosts of every target that a name reaches.\<close>

definition reached_hosts :: "preset_set \<Rightarrow> string \<Rightarrow> string set" where
  "reached_hosts s n =
     {host_key t | t m p. (n, m) \<in> (includes_rel s)\<^sup>* \<and> map_of (ps_Presets s) m = Some p \<and> t \<in> set (pr_Targets p)}"

lemma reached_hosts_step:
  assumes p: "map_of (ps_Presets s) n = Some p"
  shows "reached_hosts s n = host_key ` set (pr_Targets p) \<union> (\<Union>i \<in> set (pr_Include p). reached_hosts s i)"
proof -
  have "(n, m) \<in> (includes_rel s)\<^sup>* \<longleftrightarrow> m = n \<or> (\<exists>i \<in> set (pr_Include p). (i, m) \<in> (includes_rel s)\<^sup>*)" for m
  proof
    assume "(n, m) \<in> (includes_rel s)\<^sup>*"
    then show "m = n \<or> (\<exists>i \<in> set (pr_Include p). (i, m) \<in> (includes_rel s)\<^sup>*)"
      by (cases rule: converse_rtranclE) (auto simp: includes_rel_def p)
  next
    assume "m = n \<or> (\<exists>i \<in> set (pr_Include p). (i, m) \<in> (includes_rel s)\<^sup>*)"
    moreover have "(n, i) \<in> includes_rel s" if "i \<in> set (pr_Include p)" for i
      using that p by (auto simp: includes_rel_def)
    ultimately show "(n, m) \<in> (includes_rel s)\<^sup>*"
      by (blast intro: converse_rtrancl_into_rtrancl)
  qed
  then show ?thesis
    unfolding reached_hosts_def using p by auto
qed

abbreviation seen_ok :: "walk_state \<Rightarrow> bool" where
  "seen_ok st \<equiv> fst st = host_key ` set (snd st)"

lemma walk_hosts:
  "walk s n stack st = Inr st' \<Longrightarrow> seen_ok st \<Longrightarrow>
     seen_ok st' \<and> host_key ` set (snd st') = host_key ` set (snd st) \<union> reached_hosts s n
     \<and> (distinct (map host_key (snd st)) \<longrightarrow> distinct (map host_key (snd st')))"
  "walk_includes s is stack st = Inr st' \<Longrightarrow> seen_ok st \<Longrightarrow>
     seen_ok st' \<and> host_key ` set (snd st') = host_key ` set (snd st) \<union> (\<Union>i \<in> set is. reached_hosts s i)
     \<and> (distinct (map host_key (snd st)) \<longrightarrow> distinct (map host_key (snd st')))"
proof (induction s n stack st and s "is" stack st arbitrary: st' and st' rule: walk_walk_includes.induct)
  case (1 s n stack st)
  from "1.prems"(1) obtain p st1 where n: "n \<notin> set stack" and p: "map_of (ps_Presets s) n = Some p"
    and inc: "walk_includes s (pr_Include p) (stack @ [n]) st = Inr st1"
    and st': "st' = foldl add_target st1 (pr_Targets p)"
    by (auto simp: walk.simps [of s n] split: if_splits option.splits sum.splits)
  from "1.IH" [OF n p inc "1.prems"(2)]
  have st1: "seen_ok st1" "host_key ` set (snd st1) = host_key ` set (snd st) \<union> (\<Union>i \<in> set (pr_Include p). reached_hosts s i)"
    "distinct (map host_key (snd st)) \<longrightarrow> distinct (map host_key (snd st1))" by auto
  show ?case
    using targets.invar_fold [OF st1(1), of "pr_Targets p"] targets.keys_fold [OF st1(1), of "pr_Targets p"]
      targets.distinct_fold [OF st1(1), of "pr_Targets p"] st1(2,3)
    by (auto simp: st' reached_hosts_step [OF p])
next
  case (2 s stack st)
  then show ?case by simp
next
  case (3 s i "is" stack st)
  from "3.prems"(1) obtain st1 where w: "walk s i stack st = Inr st1"
    and rest: "walk_includes s is stack st1 = Inr st'"
    by (auto split: sum.splits)
  from "3.IH"(1) [OF w "3.prems"(2)] "3.IH"(2) [OF w rest] show ?case by auto
qed

text \<open>What an error of the walk says about the presets.\<close>

definition walk_error_ok :: "preset_set \<Rightarrow> string \<Rightarrow> preset_error \<Rightarrow> bool" where
  "walk_error_ok s n e =
     (case e of
        PresetCycle stack m \<Rightarrow> (n, m) \<in> (includes_rel s)\<^sup>* \<and> (m, m) \<in> (includes_rel s)\<^sup>+
      | PresetUnknown m names \<Rightarrow> (n, m) \<in> (includes_rel s)\<^sup>* \<and> \<not> defined s m \<and> names = Names s
      | _ \<Rightarrow> False)"

lemma walk_error_ok_step: "(n, i) \<in> includes_rel s \<Longrightarrow> walk_error_ok s i e \<Longrightarrow> walk_error_ok s n e"
  by (auto simp: walk_error_ok_def split: preset_error.splits intro: converse_rtrancl_into_rtrancl)

lemma walk_error:
  "walk s n stack st = Inl e \<Longrightarrow> \<forall>x \<in> set stack. (x, n) \<in> (includes_rel s)\<^sup>+ \<Longrightarrow> walk_error_ok s n e"
  "walk_includes s is stack st = Inl e \<Longrightarrow>
     \<forall>i \<in> set is. \<forall>x \<in> set stack. (x, i) \<in> (includes_rel s)\<^sup>+ \<Longrightarrow> \<exists>i \<in> set is. walk_error_ok s i e"
proof (induction s n stack st and s "is" stack st rule: walk_walk_includes.induct)
  case (1 s n stack st)
  show ?case
  proof (cases "n \<in> set stack \<or> map_of (ps_Presets s) n = None")
    case True
    then show ?thesis
      using "1.prems" by (auto simp: walk.simps [of s n] walk_error_ok_def defined_def split: if_splits)
  next
    case False
    then obtain p where p: "map_of (ps_Presets s) n = Some p" and n: "n \<notin> set stack" by auto
    have ni: "(n, i) \<in> includes_rel s" if "i \<in> set (pr_Include p)" for i
      using that p by (auto simp: includes_rel_def)
    have inc: "walk_includes s (pr_Include p) (stack @ [n]) st = Inl e"
      using "1.prems"(1) p n by (auto simp: walk.simps [of s n] split: sum.splits)
    have "\<forall>i \<in> set (pr_Include p). \<forall>x \<in> set (stack @ [n]). (x, i) \<in> (includes_rel s)\<^sup>+"
      using "1.prems"(2) ni by (auto intro: trancl_into_trancl)
    from "1.IH" [OF n p inc this] show ?thesis
      using ni walk_error_ok_step by blast
  qed
next
  case (2 s stack st)
  then show ?case by simp
next
  case (3 s i "is" stack st)
  show ?case
  proof (cases "walk s i stack st")
    case (Inl e')
    then show ?thesis using 3 by auto
  next
    case (Inr st1)
    then show ?thesis using "3.IH"(2) [OF Inr] "3.prems" by auto
  qed
qed

section \<open>Properties\<close>

text \<open>
  Claim C12. Expanding a preset always ends, in one of two ways. It returns targets with distinct
  hosts (up to case), exactly the hosts of every preset reachable through includes, and then
  everything reachable is defined and on no cycle; or it returns an error that names a reachable
  preset which really is undefined, or really includes itself.
\<close>

theorem Resolve_spec:
  "case presets_Resolve s name of
     Inr ts \<Rightarrow>
       distinct (map (\<lambda>t. to_lower (target_Host t)) ts)
       \<and> (\<lambda>t. to_lower (target_Host t)) ` set ts = reached_hosts s name
       \<and> \<not> (\<exists>m. (name, m) \<in> (includes_rel s)\<^sup>* \<and> (\<not> defined s m \<or> (m, m) \<in> (includes_rel s)\<^sup>+))
   | Inl e \<Rightarrow> walk_error_ok s name e"
proof (cases "walk s name [] ({}, [])")
  case (Inl e)
  then show ?thesis
    using walk_error(1) [OF Inl] by (simp add: presets_Resolve_def)
next
  case (Inr st')
  moreover have "expandable s [] name"
    using walk_ok_iff(1) [of s name "[]" "({}, [])"] Inr by blast
  ultimately show ?thesis
    using walk_hosts(1) [OF Inr]
    by (auto simp: presets_Resolve_def expandable_def split: prod.splits)
qed

definition social :: preset where
  "social = \<lparr>pr_Description = ''social'', pr_Targets = [no_target\<lparr>target_Host := ''x.com''\<rparr>], pr_Include = []\<rparr>"

definition all_preset :: preset where
  "all_preset = \<lparr>pr_Description = ''all'', pr_Targets = [], pr_Include = [''social'', ''dev'']\<rparr>"

theorem Resolve_spec_witness:
  "walk_error_ok \<lparr>ps_Default = ''all'', ps_Presets = [(''social'', social), (''all'', all_preset)]\<rparr> ''all''
     (PresetUnknown ''dev'' [''all'', ''social''])"
proof -
  have "presets_Resolve \<lparr>ps_Default = ''all'', ps_Presets = [(''social'', social), (''all'', all_preset)]\<rparr> ''all''
      = Inl (PresetUnknown ''dev'' [''all'', ''social''])"
    by code_simp
  with Resolve_spec [of "\<lparr>ps_Default = ''all'', ps_Presets = [(''social'', social), (''all'', all_preset)]\<rparr>" "''all''"]
  show ?thesis by simp
qed

lemma merge_fold:
  "ps_Default (foldl (\<lambda>st np. st\<lparr>ps_Presets := AList.update (fst np) (snd np) (ps_Presets st)\<rparr>) s nps) = ps_Default s
   \<and> map_of (ps_Presets (foldl (\<lambda>st np. st\<lparr>ps_Presets := AList.update (fst np) (snd np) (ps_Presets st)\<rparr>) s nps))
       = map_of (ps_Presets s) ++ map_of (rev nps)
   \<and> (distinct (map fst (ps_Presets s)) \<longrightarrow>
       distinct (map fst (ps_Presets (foldl (\<lambda>st np. st\<lparr>ps_Presets := AList.update (fst np) (snd np) (ps_Presets st)\<rparr>) s nps))))"
proof (induction nps rule: rev_induct)
  case Nil
  then show ?case by simp
next
  case (snoc np nps)
  then show ?case
    by (cases np) (auto simp: update_conv' distinct_update fun_eq_iff map_add_def)
qed

lemma Merge_presets:
  assumes "distinct (map fst (pf_Presets f))"
  shows "map_of (ps_Presets (presets_Merge s f)) = map_of (ps_Presets s) ++ map_of (pf_Presets f)"
    and "distinct (map fst (ps_Presets s)) \<Longrightarrow> distinct (map fst (ps_Presets (presets_Merge s f)))"
    and "ps_Default (presets_Merge s f) = (if pf_Default f = [] then ps_Default s else pf_Default f)"
proof -
  have rev: "map_of (rev (pf_Presets f)) = map_of (pf_Presets f)"
  proof
    fix k
    have "map_of (rev (pf_Presets f)) k = Some v \<longleftrightarrow> map_of (pf_Presets f) k = Some v" for v
      using assms by (simp add: map_of_eq_Some_iff rev_map [symmetric])
    then show "map_of (rev (pf_Presets f)) k = map_of (pf_Presets f) k"
      by (cases "map_of (pf_Presets f) k"; cases "map_of (rev (pf_Presets f)) k") auto
  qed
  show "map_of (ps_Presets (presets_Merge s f)) = map_of (ps_Presets s) ++ map_of (pf_Presets f)"
    and "distinct (map fst (ps_Presets s)) \<Longrightarrow> distinct (map fst (ps_Presets (presets_Merge s f)))"
    and "ps_Default (presets_Merge s f) = (if pf_Default f = [] then ps_Default s else pf_Default f)"
    by (simp_all add: presets_Merge_def Let_def merge_fold rev)
qed

lemma Names_dom:
  assumes "distinct (map fst (ps_Presets s))"
  shows "Names s = sorted_list_of_set (dom (map_of (ps_Presets s)))"
proof -
  have "dom (map_of (ps_Presets s)) = set (map fst (ps_Presets s))"
    by (simp add: dom_map_of_conv_image_fst)
  then show ?thesis
    using assms by (simp only: Names_def sorted_list_of_set_sort_remdups distinct_remdups_id)
qed

text \<open>
  Claim C35. Merging a file does not depend on the order in which the map of its presets is walked:
  two orders of the same presets give the same presets, the same sorted names and the same default.
  A preset of the file replaces one of the same name and the others stay; names stay distinct.
\<close>

theorem Merge_order_independent:
  assumes "distinct (map fst (pf_Presets f))" and "distinct (map fst (pf_Presets g))"
    and "set (pf_Presets f) = set (pf_Presets g)" and "pf_Default f = pf_Default g"
    and "distinct (map fst (ps_Presets s))"
  shows "map_of (ps_Presets (presets_Merge s f)) = map_of (ps_Presets (presets_Merge s g))
    \<and> Names (presets_Merge s f) = Names (presets_Merge s g)
    \<and> ps_Default (presets_Merge s f) = ps_Default (presets_Merge s g)
    \<and> distinct (map fst (ps_Presets (presets_Merge s f)))
    \<and> map_of (ps_Presets (presets_Merge s f)) = map_of (ps_Presets s) ++ map_of (pf_Presets f)"
proof -
  have "map_of (pf_Presets f) = map_of (pf_Presets g)"
    using assms(1-3) by (rule map_of_inject_set [THEN iffD2])
  then have m: "map_of (ps_Presets (presets_Merge s f)) = map_of (ps_Presets (presets_Merge s g))"
    by (simp only: Merge_presets(1) assms)
  have "distinct (map fst (ps_Presets (presets_Merge s f)))"
    and "distinct (map fst (ps_Presets (presets_Merge s g)))"
    using Merge_presets(2) assms by auto
  then have "Names (presets_Merge s f) = Names (presets_Merge s g)"
    and "distinct (map fst (ps_Presets (presets_Merge s f)))"
    by (simp_all only: Names_dom m)
  moreover have "ps_Default (presets_Merge s f) = ps_Default (presets_Merge s g)"
    by (simp only: Merge_presets(3) assms)
  ultimately show ?thesis
    using m Merge_presets(1) [OF assms(1), of s] by blast
qed

theorem Merge_order_independent_witness:
  "Names (presets_Merge \<lparr>ps_Default = ''d'', ps_Presets = [(''dev'', social)]\<rparr>
       \<lparr>pf_Default = [], pf_Presets = [(''social'', social), (''all'', all_preset)]\<rparr>)
   = Names (presets_Merge \<lparr>ps_Default = ''d'', ps_Presets = [(''dev'', social)]\<rparr>
       \<lparr>pf_Default = [], pf_Presets = [(''all'', all_preset), (''social'', social)]\<rparr>)"
  using Merge_order_independent [of
      "\<lparr>pf_Default = [], pf_Presets = [(''social'', social), (''all'', all_preset)]\<rparr>"
      "\<lparr>pf_Default = [], pf_Presets = [(''all'', all_preset), (''social'', social)]\<rparr>"
      "\<lparr>ps_Default = ''d'', ps_Presets = [(''dev'', social)]\<rparr>"]
  by auto

lemma find_target_find: "find_target host ts = find (\<lambda>t. host_key t = host) ts"
  by (induction ts) auto

lemma lookup_names_Some:
  "lookup_names s host ns = Some t \<Longrightarrow>
     host_key t = host \<and> (\<exists>n p. n \<in> set ns \<and> map_of (ps_Presets s) n = Some p \<and> t \<in> set (pr_Targets p))"
  by (induction ns) (auto simp: find_target_find find_Some_iff split: option.splits)

lemma lookup_names_None:
  "lookup_names s host ns = None \<longleftrightarrow>
     \<not> (\<exists>n p t. n \<in> set ns \<and> map_of (ps_Presets s) n = Some p \<and> t \<in> set (pr_Targets p) \<and> host_key t = host)"
  by (induction ns) (auto simp: find_target_find find_None_iff split: option.splits dest!: find_SomeD)

text \<open>
  \<^verbatim>\<open>Lookup\<close> finds a target exactly when some preset lists the host, up to case, and what
  it finds is such a target; otherwise it returns the empty target.
\<close>

lemma Lookup_spec:
  "(snd (presets_Lookup s host) \<longleftrightarrow>
      (\<exists>n p t. map_of (ps_Presets s) n = Some p \<and> t \<in> set (pr_Targets p)
         \<and> to_lower (target_Host t) = to_lower host))
   \<and> (case presets_Lookup s host of (t, ok) \<Rightarrow>
        if ok then to_lower (target_Host t) = to_lower host
          \<and> (\<exists>n p. map_of (ps_Presets s) n = Some p \<and> t \<in> set (pr_Targets p))
        else t = no_target)"
proof -
  have names: "n \<in> set (Names s)" if "map_of (ps_Presets s) n = Some p" for n p
    using map_of_SomeD [OF that] by (force simp: Names_def)
  show ?thesis
  proof (cases "lookup_names s (to_lower host) (Names s)")
    case None
    then show ?thesis
      using lookup_names_None [of s "to_lower host" "Names s"] names
      by (auto simp: presets_Lookup_def)
  next
    case (Some t)
    then show ?thesis
      using lookup_names_Some [OF Some] by (auto simp: presets_Lookup_def)
  qed
qed

text \<open>The first target with this host, presets taken in the order of their names.\<close>

definition known_target :: "preset_set \<Rightarrow> string \<Rightarrow> target option" where
  "known_target s host =
     find (\<lambda>t. to_lower (target_Host t) = to_lower host)
       (concat (map (\<lambda>n. case map_of (ps_Presets s) n of None \<Rightarrow> [] | Some p \<Rightarrow> pr_Targets p) (Names s)))"

lemma find_append: "find P (xs @ ys) = (case find P xs of None \<Rightarrow> find P ys | Some x \<Rightarrow> Some x)"
  by (induction xs) auto

lemma Lookup_first:
  "presets_Lookup s host = (case known_target s host of None \<Rightarrow> (no_target, False) | Some t \<Rightarrow> (t, True))"
proof -
  have "lookup_names s h ns = find (\<lambda>t. to_lower (target_Host t) = h)
      (concat (map (\<lambda>n. case map_of (ps_Presets s) n of None \<Rightarrow> [] | Some p \<Rightarrow> pr_Targets p) ns))" for h ns
    by (induction ns) (auto simp: find_target_find find_append split: option.splits)
  then show ?thesis by (simp add: presets_Lookup_def known_target_def)
qed

lemma known_target_host: "known_target s host = Some t \<Longrightarrow> to_lower (target_Host t) = to_lower host"
  by (auto simp: known_target_def find_Some_iff)

text \<open>When no two presets list the same host, every listed target is found by its host.\<close>

lemma Lookup_unique:
  assumes names: "distinct (map fst (ps_Presets s))"
    and keys: "distinct (map (to_lower \<circ> target_Host) (concat (map (pr_Targets \<circ> snd) (ps_Presets s))))"
    and t: "t \<in> set (concat (map (pr_Targets \<circ> snd) (ps_Presets s)))"
  shows "presets_Lookup s (target_Host t) = (t, True)"
proof -
  note spec = Lookup_spec [of s "target_Host t"]
  from t obtain n p where np: "(n, p) \<in> set (ps_Presets s)" "t \<in> set (pr_Targets p)" by auto
  then have "map_of (ps_Presets s) n = Some p" using names by simp
  with np(2) spec have "snd (presets_Lookup s (target_Host t))" by blast
  then obtain u where u: "presets_Lookup s (target_Host t) = (u, True)"
    by (cases "presets_Lookup s (target_Host t)") auto
  with spec obtain m q where mq: "map_of (ps_Presets s) m = Some q" "u \<in> set (pr_Targets q)"
    and key: "to_lower (target_Host u) = to_lower (target_Host t)"
    by auto
  have "u \<in> set (concat (map (pr_Targets \<circ> snd) (ps_Presets s)))"
    using map_of_SomeD [OF mq(1)] mq(2) by force
  then have "u = t" using keys t key unfolding distinct_map inj_on_def by (metis comp_apply)
  with u show ?thesis by simp
qed

end
