(* ===== verification/Shipped.thy ===== *)
theory Shipped
  imports Presets Messages Httpcheck Dnscheck
begin

text \<open>
  The two files embedded in the binary, presets.yaml and signatures.yaml, as the values the YAML
  decoder makes of them, and the checks a broken edit of them would fail: they load without a
  panic, every preset expands, every entry can be reached and every kind of target has its hint.
\<close>

section \<open>presets.yaml\<close>

definition target_of :: "string \<Rightarrow> string \<Rightarrow> string \<Rightarrow> string \<Rightarrow> target" where
  "target_of host url page knd =
     \<lparr>target_Host = host, target_URL = url, target_StatusPage = page, target_SpeedURL = [], target_Kind = knd\<rparr>"

definition preset_github :: preset where
  "preset_github = \<lparr>pr_Description = ''GitHub web, API, raw files, releases and archives'', pr_Targets = [
      target_of ''github.com'' ''https://github.com/robots.txt'' ''https://www.githubstatus.com/api/v2/status.json'' ''github'',
      target_of ''api.github.com'' ''https://api.github.com/'' ''https://www.githubstatus.com/api/v2/status.json'' ''github'',
      target_of ''raw.githubusercontent.com'' ''https://raw.githubusercontent.com/github/gitignore/main/Go.gitignore'' ''https://www.githubstatus.com/api/v2/status.json'' ''github'',
      target_of ''objects.githubusercontent.com'' ''https://objects.githubusercontent.com/'' ''https://www.githubstatus.com/api/v2/status.json'' ''github'',
      target_of ''codeload.github.com'' ''https://codeload.github.com/'' ''https://www.githubstatus.com/api/v2/status.json'' ''github''],
     pr_Include = []\<rparr>"

definition preset_python :: preset where
  "preset_python = \<lparr>pr_Description = ''PyPI index and package files'', pr_Targets = [
      target_of ''pypi.org'' ''https://pypi.org/robots.txt'' ''https://status.python.org/api/v2/status.json'' ''pypi'',
      target_of ''files.pythonhosted.org'' ''https://files.pythonhosted.org/'' ''https://status.python.org/api/v2/status.json'' ''pypi''],
     pr_Include = []\<rparr>"

definition preset_node :: preset where
  "preset_node = \<lparr>pr_Description = ''npm registry'', pr_Targets = [
      target_of ''registry.npmjs.org'' ''https://registry.npmjs.org/-/ping'' ''https://status.npmjs.org/api/v2/status.json'' ''npm''],
     pr_Include = []\<rparr>"

definition preset_docker :: preset where
  "preset_docker = \<lparr>pr_Description = ''Docker Hub registry, auth and blob CDN'', pr_Targets = [
      target_of ''registry-1.docker.io'' ''https://registry-1.docker.io/v2/'' [] ''docker'',
      target_of ''auth.docker.io'' ''https://auth.docker.io/token?service=registry.docker.io'' [] ''docker'',
      target_of ''production.cloudflare.docker.com'' ''https://production.cloudflare.docker.com/'' [] ''docker''],
     pr_Include = []\<rparr>"

definition preset_huggingface :: preset where
  "preset_huggingface = \<lparr>pr_Description = ''Hugging Face Hub, LFS CDN and Xet storage'', pr_Targets = [
      target_of ''huggingface.co'' ''https://huggingface.co/robots.txt'' [] ''huggingface'',
      target_of ''cdn-lfs.hf.co'' ''https://cdn-lfs.hf.co/'' [] ''huggingface'',
      target_of ''cas-bridge.xethub.hf.co'' ''https://cas-bridge.xethub.hf.co/'' [] ''huggingface''],
     pr_Include = []\<rparr>"

definition preset_ai :: preset where
  "preset_ai = \<lparr>pr_Description = ''AI model APIs'', pr_Targets = [
      target_of ''api.openai.com'' ''https://api.openai.com/v1/models'' ''https://status.openai.com/api/v2/status.json'' ''ai'',
      target_of ''api.anthropic.com'' ''https://api.anthropic.com/v1/models'' ''https://status.anthropic.com/api/v2/status.json'' ''ai'',
      target_of ''generativelanguage.googleapis.com'' ''https://generativelanguage.googleapis.com/v1beta/models'' [] ''ai''],
     pr_Include = []\<rparr>"

definition preset_go :: preset where
  "preset_go = \<lparr>pr_Description = ''Go module proxy'', pr_Targets = [
      target_of ''proxy.golang.org'' ''https://proxy.golang.org/'' [] ''go''],
     pr_Include = []\<rparr>"

definition preset_rust :: preset where
  "preset_rust = \<lparr>pr_Description = ''crates.io'', pr_Targets = [
      target_of ''crates.io'' ''https://crates.io/'' [] ''crates''],
     pr_Include = []\<rparr>"

definition preset_dev :: preset where
  "preset_dev = \<lparr>pr_Description = ''Default developer preset (GitHub, Python, Node, Docker, Go)'', pr_Targets = [],
     pr_Include = [''github'', ''python'', ''node'', ''docker'', ''go'']\<rparr>"

definition preset_all :: preset where
  "preset_all = \<lparr>pr_Description = ''Every built-in target'', pr_Targets = [],
     pr_Include = [''github'', ''python'', ''node'', ''docker'', ''huggingface'', ''ai'', ''go'', ''rust'']\<rparr>"

definition shipped_presets :: preset_file where
  "shipped_presets = \<lparr>pf_Default = ''dev'', pf_Presets =
     [(''github'', preset_github),
      (''python'', preset_python),
      (''node'', preset_node),
      (''docker'', preset_docker),
      (''huggingface'', preset_huggingface),
      (''ai'', preset_ai),
      (''go'', preset_go),
      (''rust'', preset_rust),
      (''dev'', preset_dev),
      (''all'', preset_all)]\<rparr>"

section \<open>signatures.yaml\<close>

definition shipped_pages :: "block_page_sig list" where
  "shipped_pages =
     [\<lparr>bp_Name = ''iran-peyvandha'', bp_URLContains = [''peyvandha.ir'', ''10.10.34.34'', ''10.10.34.35'', ''10.10.34.36''],
        bp_BodyContains = [''peyvandha.ir'', ''http://10.10.34.34'', ''http://10.10.34.35'', ''http://10.10.34.36'']\<rparr>,
      \<lparr>bp_Name = ''iran-internet-ir'', bp_URLContains = [''internet.ir/blocked''],
        bp_BodyContains = [''internet.ir/blocked'']\<rparr>]"

definition shipped_geo :: "geo_block_sig list" where
  "shipped_geo =
     [\<lparr>gb_Name = ''openai-unsupported-region'', gb_HostSuffix = ''openai.com'', gb_Status = [403],
        gb_BodyContains = [''unsupported_country_region_territory'', ''Country, region, or territory not supported'']\<rparr>,
      \<lparr>gb_Name = ''anthropic-unsupported-region'', gb_HostSuffix = ''anthropic.com'', gb_Status = [403],
        gb_BodyContains = [''Request not allowed'', ''not available in your region'']\<rparr>,
      \<lparr>gb_Name = ''google-user-location'', gb_HostSuffix = ''googleapis.com'', gb_Status = [400, 403],
        gb_BodyContains = [''User location is not supported'']\<rparr>,
      \<lparr>gb_Name = ''docker-export-control'', gb_HostSuffix = ''docker.io'', gb_Status = [403],
        gb_BodyContains = [''export control'', ''US export'']\<rparr>,
      \<lparr>gb_Name = ''cloudflare-country-ban'', gb_HostSuffix = [], gb_Status = [403],
        gb_BodyContains = [''error code: 1009'', ''has banned the country or region your IP address is in'']\<rparr>,
      \<lparr>gb_Name = ''generic-trade-restriction'', gb_HostSuffix = [], gb_Status = [403, 451],
        gb_BodyContains = [''trade restriction'', ''export control regulations'', ''sanctioned countr'', ''not available in your country'', ''not available in your region'', ''unsupported region'', ''unsupported_country'']\<rparr>]"

definition shipped_signatures :: sig_file where
  "shipped_signatures = \<lparr>sf_BlockIPs = [''10.10.34.34'', ''10.10.34.35'', ''10.10.34.36''], sf_BlockPages = shipped_pages,
     sf_GeoBlocks = shipped_geo,
     sf_InterceptionIssuers = [''Fortinet'', ''FortiGate'', ''Sophos'', ''Kaspersky'', ''ESET'', ''Zscaler'', ''Palo Alto Networks'', ''Cisco Umbrella'', ''Blue Coat'', ''Netfilter SSL'', ''mitmproxy'', ''Charles Proxy'', ''Fiddler'']\<rparr>"


section \<open>Loading them\<close>

definition shipped_set :: preset_set where
  "shipped_set = \<lparr>ps_Default = pf_Default shipped_presets, ps_Presets = pf_Presets shipped_presets\<rparr>"

definition shipped_targets :: "target list" where
  "shipped_targets = concat (map (pr_Targets \<circ> snd) (pf_Presets shipped_presets))"

definition hosts_of :: "preset_error + target list \<Rightarrow> string list option" where
  "hosts_of r = (case r of Inl e \<Rightarrow> None | Inr ts \<Rightarrow> Some (map target_Host ts))"

lemma shipped_presets_load: "presets_Builtin (\<lambda>_. Inr shipped_presets) data = Inr shipped_set"
proof -
  have "check_presets (pf_Presets shipped_presets) = None" by code_simp
  then show ?thesis by (simp add: presets_Builtin_def presets_Parse_def shipped_set_def)
qed

lemma shipped_hosts_distinct: "distinct (map (to_lower \<circ> target_Host) shipped_targets)"
  by code_simp

lemma shipped_all: "hosts_of (presets_Resolve shipped_set ''all'') = Some (map target_Host shipped_targets)"
  by code_simp

lemma shipped_default: "map_option length (hosts_of (presets_Resolve shipped_set (ps_Default shipped_set))) = Some 12"
  by code_simp

lemma shipped_resolve: "list_all (\<lambda>n. hosts_of (presets_Resolve shipped_set n) \<noteq> None) (map fst (ps_Presets shipped_set))"
  by code_simp

lemma shipped_urls: "list_all (\<lambda>t. has_prefix (CheckURL t) (''https://'' @ target_Host t @ ''/'')) shipped_targets"
  by code_simp

lemma shipped_hints: "list_all (\<lambda>t. map_of english (''hint.'' @ target_Kind t) \<noteq> None) shipped_targets"
  by code_simp

text \<open>Every host finds its own target: no preset hides the entry of another.\<close>

lemma shipped_lookup: "t \<in> set shipped_targets \<Longrightarrow> presets_Lookup shipped_set (target_Host t) = (t, True)"
proof (rule Lookup_unique)
  have same: "concat (map (pr_Targets \<circ> snd) (ps_Presets shipped_set)) = shipped_targets"
    by (simp add: shipped_targets_def shipped_set_def)
  show "distinct (map fst (ps_Presets shipped_set))" by code_simp
  show "distinct (map (to_lower \<circ> target_Host) (concat (map (pr_Targets \<circ> snd) (ps_Presets shipped_set))))"
    unfolding same by (rule shipped_hosts_distinct)
  assume "t \<in> set shipped_targets"
  then show "t \<in> set (concat (map (pr_Targets \<circ> snd) (ps_Presets shipped_set)))" by (simp only: same)
qed

section \<open>The signatures\<close>

definition shipped_sigs :: sig_set where
  "shipped_sigs =
     \<lparr>sg_BlockIPs = {V4 (v4_of 10 10 34 34), V4 (v4_of 10 10 34 35), V4 (v4_of 10 10 34 36)},
      sg_BlockPages = shipped_pages, sg_GeoBlocks = shipped_geo,
      sg_InterceptionIssuers = sf_InterceptionIssuers shipped_signatures\<rparr>"

lemma shipped_ips:
  "map ParseAddr (sf_BlockIPs shipped_signatures) =
     [Some (V4 (v4_of 10 10 34 34)), Some (V4 (v4_of 10 10 34 35)), Some (V4 (v4_of 10 10 34 36))]"
  by code_simp

lemma shipped_signatures_valid: "validate_file shipped_signatures = Inr shipped_signatures"
proof -
  have "find (\<lambda>ip. ParseAddr ip = None) (sf_BlockIPs shipped_signatures) = None"
    using shipped_ips by (simp add: shipped_signatures_def)
  moreover have "find (\<lambda>b. bp_Name b = []) (sf_BlockPages shipped_signatures) = None" by code_simp
  moreover have "find (\<lambda>g. gb_Name g = [] \<or> gb_BodyContains g = []) (sf_GeoBlocks shipped_signatures) = None" by code_simp
  ultimately show ?thesis by (simp only: validate_file_def option.case)
qed

lemma shipped_signatures_merged: "sig_Merge sig_New shipped_signatures = Inr shipped_sigs"
  using shipped_ips by (simp add: sig_Merge_def sig_New_def shipped_sigs_def shipped_signatures_def insert_commute)

definition block_page_urls :: "string list" where
  "block_page_urls = [''http://10.10.34.34/'', ''https://internet.ir/blocked?u=x'']"

lemma shipped_pages_reached:
  "map (\<lambda>loc. MatchBlockPage shipped_sigs loc []) block_page_urls = map bp_Name shipped_pages"
  by code_simp

definition geo_block_replies :: "(string \<times> int \<times> string) list" where
  "geo_block_replies =
     [(''api.openai.com'', 403, ''unsupported_country_region_territory''),
      (''api.anthropic.com'', 403, ''Request not allowed''),
      (''generativelanguage.googleapis.com'', 400, ''User location is not supported for the API use.''),
      (''auth.docker.io'', 403, ''US export''), (''github.com'', 403, ''error code: 1009''),
      (''github.com'', 451, ''trade restriction'')]"

lemma shipped_geo_reached:
  "map (\<lambda>(host, st, body). MatchGeoBlock shipped_sigs host st body) geo_block_replies = map gb_Name shipped_geo"
  by code_simp

lemma shipped_issuers: "[] \<notin> set (sg_InterceptionIssuers shipped_sigs)" "distinct (sg_InterceptionIssuers shipped_sigs)"
  by (simp_all add: shipped_sigs_def shipped_signatures_def)

lemma shipped_bogons: "list_all (\<lambda>a. IsBogon (the a)) (map ParseAddr (sf_BlockIPs shipped_signatures))"
  unfolding shipped_ips by code_simp

end
