(* ===== verification/Defaults.thy ===== *)
theory Defaults
  imports Evidence
begin

text \<open>
  Package probe, file defaults.go: the resolvers of a real run. The world behind them (the system
  resolver, a UDP server by its address, a DoH server by its URL, bootstrap address, dialer and
  timeout) and \<^verbatim>\<open>url.Parse\<close> are parameters.
\<close>

section \<open>Addresses with a port\<close>

text \<open>\<^verbatim>\<open>strconv.ParseUint(s, 10, 16)\<close> and \<^verbatim>\<open>netip.ParseAddrPort\<close>.\<close>

definition ParseUint16 :: "string \<Rightarrow> nat option" where
  "ParseUint16 s =
     (let n = foldl (\<lambda>a c. a * 10 + digit_val c) 0 s in
      if s = [] \<or> \<not> list_all is_digit s \<or> 65535 < n then None else Some n)"

definition ParseAddrPort :: "string \<Rightarrow> addr_port option" where
  "ParseAddrPort s =
     (case last_index (CHR '':'') s of
        None \<Rightarrow> None
      | Some i \<Rightarrow>
          (let ip = take i s; port = drop (i + 1) s in
           if ip = [] \<or> port = [] then None
           else (let ip6 = (hd ip = CHR ''['') in
             if ip6 \<and> (length ip < 2 \<or> last ip \<noteq> CHR '']'') then None
             else (case (ParseUint16 port, ParseAddr (if ip6 then butlast (tl ip) else ip)) of
                 (Some p, Some a) \<Rightarrow> if ip6 = addr_Is4 a then None else Some (a, p)
               | _ \<Rightarrow> None))))"

text \<open>\<^verbatim>\<open>strings.Trim\<close> with a set of characters.\<close>

definition trim_chars :: "char set \<Rightarrow> string \<Rightarrow> string" where
  "trim_chars cs s = rev (dropWhile (\<lambda>c. c \<in> cs) (rev (dropWhile (\<lambda>c. c \<in> cs) s)))"

definition resolverAddr :: "string \<Rightarrow> goerr + string" where
  "resolverAddr s =
     (case ParseAddrPort s of
        Some ap \<Rightarrow> Inr (addr_port_String ap)
      | None \<Rightarrow>
          (case ParseAddr (trim_chars {CHR ''['', CHR '']''} s) of
             Some a \<Rightarrow> Inr (net_JoinHostPort (addr_String a) ''53'')
           | None \<Rightarrow> Inl (errors_New (''invalid --resolver '' @ go_quote s
               @ '': use an IP address, IP:port, or an https:// DoH URL''))))"

section \<open>Resolvers\<close>

type_synonym lookup_fun = "int \<Rightarrow> string \<Rightarrow> (goerr + addr list) \<times> int"

record world =
  wo_System :: lookup_fun
  wo_UDP :: "string \<Rightarrow> lookup_fun"
  wo_DoH :: "string \<Rightarrow> string \<Rightarrow> dialer \<Rightarrow> int \<Rightarrow> lookup_fun"

definition defaultPublicUDP :: "string list" where
  "defaultPublicUDP = [''1.1.1.1:53'', ''8.8.8.8:53'']"

definition defaultDoH :: "(string \<times> string \<times> string) list" where
  "defaultDoH =
     [(''doh:cloudflare'', ''https://cloudflare-dns.com/dns-query'', ''1.1.1.1:443''),
      (''doh:google'', ''https://dns.google/dns-query'', ''8.8.8.8:443''),
      (''doh:quad9'', ''https://dns.quad9.net/dns-query'', ''9.9.9.9:443'')]"

definition DefaultInterceptionProbe :: string where
  "DefaultInterceptionProbe = ''198.51.100.53:53''"

definition system_resolver :: "world \<Rightarrow> resolver" where
  "system_resolver w = \<lparr>rv_Name = ''system'', rv_Kind = KindSystem, rv_Lookup = wo_System w\<rparr>"

definition udp_resolver :: "world \<Rightarrow> string \<Rightarrow> string \<Rightarrow> resolver" where
  "udp_resolver w label addr = \<lparr>rv_Name = UDP_Name label addr, rv_Kind = KindUDP, rv_Lookup = wo_UDP w addr\<rparr>"

definition NewDoH :: "world \<Rightarrow> config \<Rightarrow> string \<Rightarrow> string \<Rightarrow> string \<Rightarrow> resolver" where
  "NewDoH w cfg label u bootstrap =
     \<lparr>rv_Name = DoH_Name label u, rv_Kind = KindDoH,
      rv_Lookup = wo_DoH w u bootstrap (the (cfg_Dialer cfg)) (cfg_Timeout cfg)\<rparr>"

text \<open>The address a DoH transport dials for the address it is asked for.\<close>

definition doh_addr :: "string \<Rightarrow> string \<Rightarrow> string" where
  "doh_addr bootstrap addr = (if bootstrap \<noteq> [] then bootstrap else addr)"

section \<open>ApplyDefaults\<close>

definition base_resolvers :: "world \<Rightarrow> resolvers" where
  "base_resolvers w =
     \<lparr>rs_System = Some (system_resolver w),
      rs_Public = map (\<lambda>a. udp_resolver w (''udp:'' @ trim_suffix a '':53'') a) defaultPublicUDP,
      rs_DoH = []\<rparr>"

definition given_resolver ::
  "(string \<Rightarrow> goerr + url) \<Rightarrow> world \<Rightarrow> config \<Rightarrow> string \<Rightarrow> resolvers \<Rightarrow> goerr + resolvers" where
  "given_resolver parse w cfg resolver rs =
     (if resolver = [] then Inr rs
      else if has_prefix resolver ''https://'' then
        (case parse resolver of
           Inl err \<Rightarrow> Inl (errors_New (''invalid --resolver URL '' @ go_quote resolver))
         | Inr u \<Rightarrow>
             if url_Host u = [] then Inl (errors_New (''invalid --resolver URL '' @ go_quote resolver))
             else Inr (rs\<lparr>rs_DoH := rs_DoH rs @ [NewDoH w cfg (''doh:'' @ url_Host u) resolver []]\<rparr>))
      else (case resolverAddr resolver of
           Inl err \<Rightarrow> Inl err
         | Inr addr \<Rightarrow> Inr (rs\<lparr>rs_System := Some (udp_resolver w (''resolver:'' @ addr) addr)\<rparr>)))"

definition fill_InterceptionProbe :: "config \<Rightarrow> config" where
  "fill_InterceptionProbe cfg =
     (if cfg_InterceptionProbe cfg = [] then cfg\<lparr>cfg_InterceptionProbe := DefaultInterceptionProbe\<rparr> else cfg)"

definition fill_Local :: "config \<Rightarrow> config" where
  "fill_Local cfg = (if cfg_Local cfg = None then cfg\<lparr>cfg_Local := Some DefaultBaseline\<rparr> else cfg)"

definition ApplyDefaults ::
  "(string \<Rightarrow> goerr + url) \<Rightarrow> world \<Rightarrow> sig_set \<Rightarrow> config \<Rightarrow> string \<Rightarrow> goerr + config" where
  "ApplyDefaults parse w builtin cfg0 resolver =
     (let cfg = fillDefaults builtin cfg0 in
      case given_resolver parse w cfg resolver (base_resolvers w) of
        Inl err \<Rightarrow> Inl err
      | Inr rs1 \<Rightarrow>
          (let rs = rs1\<lparr>rs_DoH := rs_DoH rs1 @ map (\<lambda>(label, u, boot). NewDoH w cfg label u boot) defaultDoH\<rparr>
           in Inr (fill_Local (fill_InterceptionProbe (cfg\<lparr>cfg_Resolvers := rs\<rparr>)))))"

section \<open>Facts about addresses as text\<close>

lemma digits_of_chars: "c \<in> set (digits_of n) \<Longrightarrow> is_digit c"
proof (induction n rule: digits_of.induct)
  case (1 n)
  have d: "is_digit (char_of (48 + k))" if "k < 10" for k :: nat
    using that by (simp add: is_digit_def)
  show ?case
  proof (cases "n < 10")
    case True
    with "1.prems" d show ?thesis by (subst (asm) digits_of.simps) auto
  next
    case False
    from "1.prems" False have "c \<in> set (digits_of (n div 10)) \<or> c = char_of (48 + n mod 10)"
      by (subst (asm) digits_of.simps) auto
    with "1.IH" [OF False] d [of "n mod 10"] show ?thesis by auto
  qed
qed

lemma v4_string_no_colon: "CHR '':'' \<notin> set (v4_string w)"
proof -
  have "CHR '':'' \<notin> set (digits_of n)" for n
  proof
    assume "CHR '':'' \<in> set (digits_of n)"
    then have "is_digit (CHR '':'')" by (rule digits_of_chars)
    moreover have "\<not> is_digit (CHR '':'')" by code_simp
    ultimately show False by simp
  qed
  then show ?thesis by (simp add: v4_string_def)
qed

lemma join_has_sep: "2 \<le> length ws \<Longrightarrow> c \<in> set (str_join ws [c])"
  by (cases ws; cases "tl ws") auto

lemma v6_string_colon: "CHR '':'' \<in> set (addr_String (V6 w z))"
proof -
  have "CHR '':'' \<in> set (v6_groups_string (map (v6_group w) [0, 1, 2, 3, 4, 5, 6, 7]))"
    by (auto simp: v6_groups_string_def split: option.split prod.split intro!: join_has_sep)
  then show ?thesis by simp
qed

lemma join_53: "net_JoinHostPort (addr_String a) ''53'' = addr_port_String (a, 53)"
proof -
  have "digits_of 53 = ''53''" by (code_simp)
  then show ?thesis
    using v4_string_no_colon v6_string_colon
    by (cases a) (simp_all add: net_JoinHostPort_def del: addr_String.simps(2))
qed

section \<open>Properties\<close>

lemma given_resolver_cases:
  "given_resolver parse w cfg resolver rs = Inr rs1 \<Longrightarrow>
     rs_Public rs1 = rs_Public rs
     \<and> (if has_prefix resolver ''https://''
        then rs_System rs1 = rs_System rs
          \<and> (\<exists>u. parse resolver = Inr u \<and> url_Host u \<noteq> []
                \<and> rs_DoH rs1 = rs_DoH rs @ [NewDoH w cfg (''doh:'' @ url_Host u) resolver []])
        else rs_DoH rs1 = rs_DoH rs
          \<and> rs_System rs1 = (if resolver = [] then rs_System rs
               else Some (udp_resolver w (''resolver:'' @ projr (resolverAddr resolver)) (projr (resolverAddr resolver))))
          \<and> (resolver = [] \<or> isl (resolverAddr resolver) = False))"
  by (cases "resolver = []") (auto simp: given_resolver_def has_prefix_iff split: if_splits sum.splits)

lemma fillDefaults_update:
  "fillDefaults b (cfg\<lparr>cfg_Resolvers := x\<rparr>) = (fillDefaults b cfg)\<lparr>cfg_Resolvers := x\<rparr>"
  "fillDefaults b (cfg\<lparr>cfg_InterceptionProbe := p\<rparr>) = (fillDefaults b cfg)\<lparr>cfg_InterceptionProbe := p\<rparr>"
  "fillDefaults b (cfg\<lparr>cfg_Local := l\<rparr>) = (fillDefaults b cfg)\<lparr>cfg_Local := l\<rparr>"
  by (rule config.equality; simp add: fillDefaults_sel split del: if_split cong: if_cong)+

text \<open>
  What may follow --resolver: an address with a port, or an address alone, with or
  without brackets, which means port 53; anything else is an error. What is dialed is the standard
  text of that address and port.
\<close>

lemma resolverAddr_spec:
  "(case resolverAddr s of
      Inr a \<Rightarrow> (\<exists>ip port. a = addr_port_String (ip, port)
          \<and> (ParseAddrPort s = Some (ip, port)
             \<or> ParseAddrPort s = None \<and> ParseAddr (trim_chars {CHR ''['', CHR '']''} s) = Some ip \<and> port = 53))
    | Inl e \<Rightarrow> ParseAddrPort s = None \<and> ParseAddr (trim_chars {CHR ''['', CHR '']''} s) = None)"
  by (auto simp: resolverAddr_def join_53 split: option.split)

lemma filled_config:
  fixes b cfg rs
  assumes "fillDefaults b cfg = cfg"
  defines "cfg' \<equiv> fill_Local (fill_InterceptionProbe (cfg\<lparr>cfg_Resolvers := rs\<rparr>))"
  shows "fillDefaults b cfg' = cfg'" "cfg_InterceptionProbe cfg' \<noteq> []" "cfg_Local cfg' \<noteq> None"
    "cfg_Resolvers cfg' = rs"
  unfolding cfg'_def fill_Local_def fill_InterceptionProbe_def
  by (simp_all add: fillDefaults_update assms(1) DefaultInterceptionProbe_def)

text \<open>
  The configuration of a real run: every bound and part is set, filling it again changes
  nothing, and the interception probe and the local check are on. The resolver given replaces the
  system resolver as the one under test, or is the first of the DoH references if it is an https
  URL; the two public resolvers and the three built-in DoH references, each dialed at a fixed
  address, are always there. Only a given resolver can make it fail.
\<close>

lemma ApplyDefaults_spec:
  "(case ApplyDefaults parse w b cfg resolver of
      Inl e \<Rightarrow> resolver \<noteq> []
    | Inr cfg' \<Rightarrow>
        fillDefaults b cfg' = cfg' \<and> cfg_InterceptionProbe cfg' \<noteq> [] \<and> cfg_Local cfg' \<noteq> None
        \<and> map rv_Name (rs_Public (cfg_Resolvers cfg')) = [''udp:1.1.1.1'', ''udp:8.8.8.8'']
        \<and> map_option rv_Name (rs_System (cfg_Resolvers cfg')) =
            Some (if resolver = [] \<or> has_prefix resolver ''https://'' then ''system''
                  else ''resolver:'' @ projr (resolverAddr resolver))
        \<and> map rv_Name (rs_DoH (cfg_Resolvers cfg')) =
            (if has_prefix resolver ''https://'' then [''doh:'' @ url_Host (projr (parse resolver))] else [])
            @ [''doh:cloudflare'', ''doh:google'', ''doh:quad9''])
   \<and> list_all (\<lambda>(label, u, boot). ParseAddrPort (doh_addr boot u) \<noteq> None) defaultDoH"
proof -
  let ?cfg = "fillDefaults b cfg"
  have boot: "list_all (\<lambda>(label, u, boot). ParseAddrPort (doh_addr boot u) \<noteq> None) defaultDoH"
    by (simp add: defaultDoH_def doh_addr_def ParseAddrPort_def last_index_def ParseUint16_def ParseAddr_def
        parse_v4_def parse_octet_def is_digit_def digit_val_def)
  have pub: "map rv_Name (rs_Public (base_resolvers w)) = [''udp:1.1.1.1'', ''udp:8.8.8.8'']"
    "rs_System (base_resolvers w) = Some (system_resolver w)" "rs_DoH (base_resolvers w) = []"
    by (simp_all add: base_resolvers_def defaultPublicUDP_def udp_resolver_def UDP_Name_def trim_suffix_def has_suffix_def)
  have doh: "map rv_Name (map (\<lambda>(label, u, boot). NewDoH w ?cfg label u boot) defaultDoH)
      = [''doh:cloudflare'', ''doh:google'', ''doh:quad9'']"
    by (simp add: defaultDoH_def NewDoH_def DoH_Name_def)
  show ?thesis
  proof (cases "given_resolver parse w ?cfg resolver (base_resolvers w)")
    case (Inl e)
    then have "resolver \<noteq> []" by (auto simp: given_resolver_def)
    then show ?thesis unfolding ApplyDefaults_def Let_def Inl sum.case using boot by blast
  next
    case (Inr rs1)
    note g = given_resolver_cases [OF Inr]
    let ?rs = "rs1\<lparr>rs_DoH := rs_DoH rs1 @ map (\<lambda>(label, u, boot). NewDoH w ?cfg label u boot) defaultDoH\<rparr>"
    let ?cfg' = "fill_Local (fill_InterceptionProbe (?cfg\<lparr>cfg_Resolvers := ?rs\<rparr>))"
    have cfg': "ApplyDefaults parse w b cfg resolver = Inr ?cfg'"
      unfolding ApplyDefaults_def Let_def Inr sum.case ..
    note f = filled_config [where rs = ?rs, OF fillDefaults_idem [of b cfg]]
    have "map rv_Name (rs_DoH rs1) =
        (if has_prefix resolver ''https://'' then [''doh:'' @ url_Host (projr (parse resolver))] else [])"
      using g pub by (auto simp: NewDoH_def DoH_Name_def split: if_splits)
    moreover have "map_option rv_Name (rs_System rs1) =
        Some (if resolver = [] \<or> has_prefix resolver ''https://'' then ''system''
              else ''resolver:'' @ projr (resolverAddr resolver))"
      using g pub by (auto simp: system_resolver_def udp_resolver_def UDP_Name_def split: if_splits)
    moreover have "map rv_Name (rs_Public rs1) = [''udp:1.1.1.1'', ''udp:8.8.8.8'']" using g pub by simp
    ultimately show ?thesis
      unfolding cfg' sum.case f(4) using boot doh f(1-3) by (simp del: fillDefaults_fields)
  qed
qed

end
