(* ===== verification/Proxy.thy ===== *)
theory Proxy
  imports Gonet Dnswire
begin

text \<open>
  Package netx, file proxy.go: the proxy URL, the SOCKS5 and HTTP CONNECT dialogues, and the dialer
  that runs them. A connection is what the peer will have sent, the error after that, the
  failures of the writes, and what was written. \<open>io_read\<close> is \<^verbatim>\<open>io.ReadFull\<close>, and a dialogue is a
  function on the connection that may fail; \<open>io_bind\<close> is the early return on an error. Parsing a
  URL, writing a request, reading a response and base64 are parameters. The connection a dial
  returns is read through \<open>conn_Read\<close>, which is \<^verbatim>\<open>bufio.Reader.Read\<close> where the code wraps it.

  \<open>socks_server\<close> is the other end, a reader of the request after RFC 1928.
\<close>

section \<open>The proxy URL\<close>

definition ParseProxy :: "(string \<Rightarrow> goerr + url) \<Rightarrow> string \<Rightarrow> goerr + url" where
  "ParseProxy parse raw =
     (case parse raw of
        Inl err \<Rightarrow> Inl (wrap_err ''invalid proxy URL: '' err)
      | Inr u \<Rightarrow>
          if url_Scheme u \<notin> {''http'', ''socks5'', ''socks5h''}
          then Inl (errors_New (''unsupported proxy scheme '' @ go_quote (url_Scheme u) @ '' (use http:// or socks5://)''))
          else if url_Host u = [] \<or> url_Port u = []
          then Inl (errors_New (''proxy URL needs host:port, got '' @ go_quote raw))
          else Inr u)"

section \<open>Connections\<close>

record conn =
  co_In :: bytes
  co_ReadErr :: goerr
  co_WriteErrs :: "goerr option list"
  co_Out :: "bytes list"

definition io_EOF :: goerr where "io_EOF = GoErr KEOFError None False ''EOF'' []"
definition io_ErrUnexpectedEOF :: goerr where
  "io_ErrUnexpectedEOF = GoErr KUnexpectedEOF None False ''unexpected EOF'' []"

definition io_bind :: "(conn \<Rightarrow> (goerr + 'a) \<times> conn) \<Rightarrow> ('a \<Rightarrow> conn \<Rightarrow> (goerr + 'b) \<times> conn) \<Rightarrow> conn \<Rightarrow> (goerr + 'b) \<times> conn" where
  "io_bind m f c = (case m c of (Inl e, c') \<Rightarrow> (Inl e, c') | (Inr a, c') \<Rightarrow> f a c')"

definition io_return :: "'a \<Rightarrow> conn \<Rightarrow> (goerr + 'a) \<times> conn" where "io_return a c = (Inr a, c)"

definition io_fail :: "string \<Rightarrow> conn \<Rightarrow> (goerr + 'a) \<times> conn" where "io_fail msg c = (Inl (errors_New msg), c)"

text \<open>A write with the prefix its error is wrapped in; the failures are taken in order.\<close>

definition io_write :: "string \<Rightarrow> bytes \<Rightarrow> conn \<Rightarrow> (goerr + unit) \<times> conn" where
  "io_write pre msg c =
     (case co_WriteErrs c of
        Some err # es \<Rightarrow> (Inl (wrap_err pre err), c\<lparr>co_WriteErrs := es\<rparr>)
      | None # es \<Rightarrow> (Inr (), c\<lparr>co_WriteErrs := es, co_Out := co_Out c @ [msg]\<rparr>)
      | [] \<Rightarrow> (Inr (), c\<lparr>co_Out := co_Out c @ [msg]\<rparr>))"

definition io_read :: "string \<Rightarrow> nat \<Rightarrow> conn \<Rightarrow> (goerr + bytes) \<times> conn" where
  "io_read pre n c =
     (if n \<le> length (co_In c) then (Inr (take n (co_In c)), c\<lparr>co_In := drop n (co_In c)\<rparr>)
      else (Inl (wrap_err pre (if co_ReadErr c = io_EOF \<and> co_In c \<noteq> [] then io_ErrUnexpectedEOF else co_ReadErr c)),
            c\<lparr>co_In := []\<rparr>))"

section \<open>SOCKS5\<close>

definition socks5_methods :: "(string \<times> string) option \<Rightarrow> bytes" where
  "socks5_methods user = (if user \<noteq> None then [0, 2] else [0])"

definition socks5_greeting :: "(string \<times> string) option \<Rightarrow> bytes" where
  "socks5_greeting user = [5, of_nat (length (socks5_methods user))] @ socks5_methods user"

text \<open>\<^verbatim>\<open>Username\<close> and \<^verbatim>\<open>Password\<close> of a nil \<^verbatim>\<open>Userinfo\<close> are empty.\<close>

definition credentials :: "(string \<times> string) option \<Rightarrow> string \<times> string" where
  "credentials user = (case user of None \<Rightarrow> ([], []) | Some up \<Rightarrow> up)"

definition auth_message :: "(string \<times> string) option \<Rightarrow> bytes" where
  "auth_message user =
     (case credentials user of (user_, pass) \<Rightarrow>
        [1, of_nat (length user_)] @ bytes_of user_ @ [of_nat (length pass)] @ bytes_of pass)"

definition socks5_auth :: "(string \<times> string) option \<Rightarrow> conn \<Rightarrow> (goerr + unit) \<times> conn" where
  "socks5_auth user =
     (if 255 < length (fst (credentials user)) \<or> 255 < length (snd (credentials user))
      then io_fail ''socks5: credentials too long''
      else io_bind (io_write ''socks5 auth: '' (auth_message user)) (\<lambda>_.
           io_bind (io_read ''socks5 auth: '' 2) (\<lambda>reply.
             if reply ! 1 \<noteq> 0 then io_fail ''socks5: authentication failed'' else io_return ())))"

definition socks5_negotiate :: "(string \<times> string) option \<Rightarrow> conn \<Rightarrow> (goerr + unit) \<times> conn" where
  "socks5_negotiate user =
     io_bind (io_write ''socks5: '' (socks5_greeting user)) (\<lambda>_.
     io_bind (io_read ''socks5: '' 2) (\<lambda>reply.
       if reply ! 0 \<noteq> 5 then io_fail ''socks5: bad server version''
       else if reply ! 1 = 0 then io_return ()
       else if reply ! 1 = 2 then socks5_auth user
       else io_fail ''socks5: no acceptable authentication method''))"

definition dest_bytes :: "string \<Rightarrow> goerr + bytes" where
  "dest_bytes host =
     (case net_ParseIP host of
        Some (V4 w) \<Rightarrow> Inr (1 # u32_bytes w)
      | Some (V6 w z) \<Rightarrow>
          if addr_Is4In6 (V6 w z) then Inr (1 # u32_bytes (ucast w)) else Inr (4 # be_bytes 16 w)
      | None \<Rightarrow>
          if 255 < length host then Inl (errors_New ''socks5: host name too long'')
          else Inr ([3, of_nat (length host)] @ bytes_of host))"

definition socks5_request :: "string \<Rightarrow> int \<Rightarrow> goerr + bytes" where
  "socks5_request host port =
     (case dest_bytes host of
        Inl err \<Rightarrow> Inl err
      | Inr dest \<Rightarrow> Inr ([5, 1, 0] @ dest @ u16_bytes (of_int port)))"

definition skip_bytes :: "byte \<Rightarrow> conn \<Rightarrow> (goerr + nat) \<times> conn" where
  "skip_bytes atyp =
     (if atyp = 1 then io_return 4
      else if atyp = 4 then io_return 16
      else if atyp = 3 then io_bind (io_read ''socks5 connect: '' 1) (\<lambda>l. io_return (unat (l ! 0)))
      else io_fail ''socks5: bad address type in reply'')"

definition socks5_reply :: "string \<Rightarrow> conn \<Rightarrow> (goerr + unit) \<times> conn" where
  "socks5_reply address =
     io_bind (io_read ''socks5 connect: '' 4) (\<lambda>head.
       if head ! 1 \<noteq> 0
       then io_fail (''socks5 connect to '' @ address @ '' failed (code '' @ itoa (uint (head ! 1)) @ '')'')
       else io_bind (skip_bytes (head ! 3)) (\<lambda>skip.
            io_bind (io_read ''socks5 connect: '' (skip + 2)) (\<lambda>_. io_return ())))"

definition socks5Connect :: "(string \<times> string) option \<Rightarrow> string \<Rightarrow> conn \<Rightarrow> (goerr + unit) \<times> conn" where
  "socks5Connect user address c =
     (case net_SplitHostPort address of
        Inl err \<Rightarrow> (Inl err, c)
      | Inr (host, portStr) \<Rightarrow>
          (case go_Atoi portStr of
             None \<Rightarrow> (Inl (errors_New (''invalid port '' @ go_quote portStr)), c)
           | Some port \<Rightarrow>
               io_bind (socks5_negotiate user) (\<lambda>_.
                 case socks5_request host port of
                   Inl err \<Rightarrow> (\<lambda>c. (Inl err, c))
                 | Inr req \<Rightarrow>
                     io_bind (io_write ''socks5 connect: '' req) (\<lambda>_. socks5_reply address)) c))"

section \<open>HTTP CONNECT\<close>

text \<open>
  The request of \<^verbatim>\<open>httpConnect\<close>: the address and the credentials header. \<open>read_response\<close> reads a
  response from the stream: an error, or the status code, the status line and how many bytes it
  took. The buffered reader has fetched \<open>fetched\<close> bytes, at least those of the response.
\<close>

record connect_request =
  cr_Address :: string
  cr_ProxyAuthorization :: "string option"

record http_proxy =
  hp_write :: "connect_request \<Rightarrow> bytes"
  hp_read :: "bytes \<Rightarrow> goerr + int \<times> string \<times> nat"
  hp_fetched :: nat
  hp_base64 :: "string \<Rightarrow> string"

definition connect_request_of :: "(string \<Rightarrow> string) \<Rightarrow> (string \<times> string) option \<Rightarrow> string \<Rightarrow> connect_request" where
  "connect_request_of base64 user address =
     \<lparr>cr_Address = address,
      cr_ProxyAuthorization = (case user of None \<Rightarrow> None
        | Some (user_, pass) \<Rightarrow> Some (''Basic '' @ base64 (user_ @ '':'' @ pass)))\<rparr>"

text \<open>The bytes left in the buffer, when the proxy accepted.\<close>

definition httpConnect :: "http_proxy \<Rightarrow> (string \<times> string) option \<Rightarrow> string \<Rightarrow> conn \<Rightarrow> (goerr + bytes) \<times> conn" where
  "httpConnect hp user address =
     io_bind (io_write ''proxy CONNECT: '' (hp_write hp (connect_request_of (hp_base64 hp) user address))) (\<lambda>_ c.
       case hp_read hp (co_In c) of
         Inl err \<Rightarrow> (Inl (wrap_err ''proxy CONNECT: '' err), c)
       | Inr (code, line, used) \<Rightarrow>
           let fetched = max used (hp_fetched hp); c' = c\<lparr>co_In := drop fetched (co_In c)\<rparr> in
           if code \<noteq> 200
           then (Inl (errors_New (''proxy CONNECT to '' @ address @ '': '' @ line)), c')
           else (Inr (drop used (take fetched (co_In c))), c'))"

section \<open>The dialer\<close>

text \<open>
  The connection a dial returns: the raw one, or a \<^verbatim>\<open>bufferedConn\<close> with what its \<^verbatim>\<open>bufio.Reader\<close>
  still holds. A \<^verbatim>\<open>Read\<close> of the reader takes from the buffer only; when it is empty, a large one goes
  to the connection directly and a small one fills the buffer first. Of the connection a read takes
  as much as fits.
\<close>

datatype dialed = RawConn conn | BufferedConn bytes conn

definition bufio_size :: nat where "bufio_size = 4096"

fun conn_Read :: "nat \<Rightarrow> dialed \<Rightarrow> bytes \<times> dialed" where
  "conn_Read n (RawConn c) = (take n (co_In c), RawConn (c\<lparr>co_In := drop n (co_In c)\<rparr>))"
| "conn_Read n (BufferedConn b c) =
     (if n = 0 \<or> b \<noteq> [] then (take n b, BufferedConn (drop n b) c)
      else if bufio_size \<le> n then (take n (co_In c), BufferedConn [] (c\<lparr>co_In := drop n (co_In c)\<rparr>))
      else (let f = take bufio_size (co_In c) in
            (take n f, BufferedConn (drop n f) (c\<lparr>co_In := drop bufio_size (co_In c)\<rparr>))))"

definition proxy_DialContext ::
  "url \<Rightarrow> http_proxy \<Rightarrow> goerr + conn \<Rightarrow> string \<Rightarrow> string \<Rightarrow> goerr + dialed" where
  "proxy_DialContext u hp base network address =
     (if network \<noteq> ''tcp'' \<and> network \<noteq> ''tcp4'' \<and> network \<noteq> ''tcp6''
      then Inl (errors_New (''proxy supports only TCP, not '' @ network))
      else (case base of
          Inl err \<Rightarrow> Inl (wrap_err ''connect to proxy: '' err)
        | Inr c \<Rightarrow>
            if url_Scheme u = ''http''
            then (case httpConnect hp (url_User u) address c of
                (Inl err, c') \<Rightarrow> Inl err
              | (Inr buffered, c') \<Rightarrow> Inr (if 0 < length buffered then BufferedConn buffered c' else RawConn c'))
            else (case socks5Connect (url_User u) address c of
                (Inl err, c') \<Rightarrow> Inl err
              | (Inr _, c') \<Rightarrow> Inr (RawConn c'))))"

section \<open>What a successful dialogue looks like\<close>

text \<open>
  \<open>step\<close>: the connection after \<open>recv\<close> was read and \<open>sent\<close> written. \<open>dialogue m P\<close>: on a connection
  whose writes succeed, \<open>m\<close> returns \<open>a\<close> exactly when it reads and writes a conversation that
  \<open>P a\<close> allows, and it leaves everything behind it unread.
\<close>

definition step :: "conn \<Rightarrow> bytes \<Rightarrow> bytes list \<Rightarrow> conn \<Rightarrow> bool" where
  "step c recv sent c' \<longleftrightarrow>
     co_In c = recv @ co_In c' \<and> c' = c\<lparr>co_In := co_In c', co_Out := co_Out c @ sent\<rparr>"

definition dialogue :: "(conn \<Rightarrow> (goerr + 'a) \<times> conn) \<Rightarrow> ('a \<Rightarrow> bytes \<Rightarrow> bytes list \<Rightarrow> bool) \<Rightarrow> bool" where
  "dialogue m P \<longleftrightarrow>
     (\<forall>c a c'. co_WriteErrs c = [] \<longrightarrow>
        m c = (Inr a, c') \<longleftrightarrow> (\<exists>recv sent. P a recv sent \<and> step c recv sent c'))"

lemma step_writes: "step c recv sent c' \<Longrightarrow> co_WriteErrs c' = co_WriteErrs c"
  unfolding step_def by (metis conn.select_convs(3) conn.surjective conn.update_convs(1,4))

lemma step_compose: "(\<exists>c1. step c r1 s1 c1 \<and> step c1 r2 s2 c') \<longleftrightarrow> step c (r1 @ r2) (s1 @ s2) c'"
proof
  assume "\<exists>c1. step c r1 s1 c1 \<and> step c1 r2 s2 c'"
  then obtain c1 where 1: "co_In c = r1 @ co_In c1" "c1 = c\<lparr>co_In := co_In c1, co_Out := co_Out c @ s1\<rparr>"
    and 2: "co_In c1 = r2 @ co_In c'" "c' = c1\<lparr>co_In := co_In c', co_Out := co_Out c1 @ s2\<rparr>"
    by (auto simp: step_def)
  have "c' = c\<lparr>co_In := co_In c', co_Out := co_Out c @ s1 @ s2\<rparr>"
    by (subst 2(2), subst 1(2), subst (2) 1(2)) simp
  with 1(1) 2(1) show "step c (r1 @ r2) (s1 @ s2) c'" by (simp add: step_def)
next
  assume s: "step c (r1 @ r2) (s1 @ s2) c'"
  let ?c1 = "c\<lparr>co_In := r2 @ co_In c', co_Out := co_Out c @ s1\<rparr>"
  have "c' = c\<lparr>co_In := co_In c', co_Out := co_Out c @ s1 @ s2\<rparr>" using s by (simp add: step_def)
  then have "c' = ?c1\<lparr>co_In := co_In c', co_Out := co_Out ?c1 @ s2\<rparr>" by simp
  then have "step c r1 s1 ?c1 \<and> step ?c1 r2 s2 c'" using s by (simp add: step_def)
  then show "\<exists>c1. step c r1 s1 c1 \<and> step c1 r2 s2 c'" by blast
qed

lemma step_write: "step c [] [msg] c' \<longleftrightarrow> c' = c\<lparr>co_Out := co_Out c @ [msg]\<rparr>"
  by (cases c; cases c') (auto simp: step_def)

lemma step_none: "step c [] [] c' \<longleftrightarrow> c' = c"
  by (cases c; cases c') (auto simp: step_def)

named_theorems dialogue_intros

lemma dialogue_write [dialogue_intros]: "dialogue (io_write pre msg) (\<lambda>u recv sent. recv = [] \<and> sent = [msg])"
  by (auto simp: dialogue_def step_write io_write_def)

lemma dialogue_read [dialogue_intros]:
  "dialogue (io_read pre n) (\<lambda>bs recv sent. length bs = n \<and> recv = bs \<and> sent = [])"
proof -
  have "io_read pre n c = (Inr bs, c') \<longleftrightarrow> length bs = n \<and> step c bs [] c'" for c bs c'
  proof
    assume "io_read pre n c = (Inr bs, c')"
    then show "length bs = n \<and> step c bs [] c'" by (auto simp: io_read_def step_def split: if_splits)
  next
    assume r: "length bs = n \<and> step c bs [] c'"
    then have "n \<le> length (co_In c)" "take n (co_In c) = bs" "drop n (co_In c) = co_In c'" by (auto simp: step_def)
    then show "io_read pre n c = (Inr bs, c')" using r by (simp add: io_read_def step_def)
  qed
  then show ?thesis by (auto simp: dialogue_def)
qed

lemma dialogue_return [dialogue_intros]: "dialogue (io_return a) (\<lambda>b recv sent. b = a \<and> recv = [] \<and> sent = [])"
  by (auto simp: dialogue_def step_none io_return_def)

lemma dialogue_fail [dialogue_intros]: "dialogue (io_fail msg) (\<lambda>b recv sent. False)"
  by (simp add: dialogue_def io_fail_def)

lemma dialogue_error [dialogue_intros]: "dialogue (\<lambda>c. (Inl err, c)) (\<lambda>b recv sent. False)"
  by (simp add: dialogue_def)

lemma dialogue_if [dialogue_intros]:
  "dialogue m P \<Longrightarrow> dialogue m' P' \<Longrightarrow> dialogue (if b then m else m') (\<lambda>a recv sent. if b then P a recv sent else P' a recv sent)"
  by simp

lemma dialogue_bind:
  assumes "dialogue m P" and "\<And>a recv sent. P a recv sent \<Longrightarrow> dialogue (f a) (Q a)"
  shows "dialogue (io_bind m f)
    (\<lambda>b recv sent. \<exists>a r1 s1 r2 s2. P a r1 s1 \<and> Q a b r2 s2 \<and> recv = r1 @ r2 \<and> sent = s1 @ s2)"
  unfolding dialogue_def
proof (intro allI impI)
  fix c :: conn and b c'
  assume w: "co_WriteErrs c = []"
  have "io_bind m f c = (Inr b, c') \<longleftrightarrow> (\<exists>a c1. m c = (Inr a, c1) \<and> f a c1 = (Inr b, c'))"
    by (auto simp: io_bind_def split: prod.splits sum.splits)
  also have "\<dots> \<longleftrightarrow> (\<exists>a c1 r1 s1. P a r1 s1 \<and> step c r1 s1 c1 \<and> f a c1 = (Inr b, c'))"
    using assms(1) w by (auto simp: dialogue_def)
  also have "\<dots> \<longleftrightarrow> (\<exists>a c1 r1 s1. P a r1 s1 \<and> step c r1 s1 c1 \<and> (\<exists>r2 s2. Q a b r2 s2 \<and> step c1 r2 s2 c'))"
    using assms(2) w step_writes unfolding dialogue_def by metis
  also have "\<dots> \<longleftrightarrow> (\<exists>a r1 s1 r2 s2. P a r1 s1 \<and> Q a b r2 s2 \<and> step c (r1 @ r2) (s1 @ s2) c')"
    unfolding step_compose [symmetric] by blast
  finally show "io_bind m f c = (Inr b, c') \<longleftrightarrow> (\<exists>recv sent.
      (\<exists>a r1 s1 r2 s2. P a r1 s1 \<and> Q a b r2 s2 \<and> recv = r1 @ r2 \<and> sent = s1 @ s2) \<and> step c recv sent c')"
    by blast
qed

lemma dialogue_cong: "dialogue m P \<Longrightarrow> (\<And>a recv sent. P a recv sent \<longleftrightarrow> Q a recv sent) \<Longrightarrow> dialogue m Q"
  by (simp add: dialogue_def)

lemma len2: "length xs = 2 \<longleftrightarrow> (\<exists>a b. xs = [a, b])"
  by (auto simp: numeral_2_eq_2 length_Suc_conv)

lemma len4: "length xs = 4 \<longleftrightarrow> (\<exists>a b c d. xs = [a, b, c, d])"
  by (auto simp: numeral_eq_Suc length_Suc_conv)

text \<open>Sequencing, by what comes first: the bytes a read returns are named one by one.\<close>

lemma dialogue_then [dialogue_intros]:
  "dialogue m P \<Longrightarrow> (\<And>a. dialogue (f a) (Q a)) \<Longrightarrow> dialogue (io_bind m f)
    (\<lambda>b recv sent. \<exists>a r1 s1 r2 s2. P a r1 s1 \<and> Q a b r2 s2 \<and> recv = r1 @ r2 \<and> sent = s1 @ s2)"
  by (rule dialogue_bind)

lemma dialogue_read1:
  assumes "\<And>x. dialogue (f [x]) (Q x)"
  shows "dialogue (io_bind (io_read pre 1) f) (\<lambda>b recv sent. \<exists>x r. Q x b r sent \<and> recv = x # r)"
proof (rule dialogue_cong [OF dialogue_bind [OF dialogue_read, of 1 f "\<lambda>bs. Q (bs ! 0)"]])
  show "dialogue (f a) (Q (a ! 0))" if "length a = 1 \<and> recv = a \<and> sent = []" for a recv and sent :: "bytes list"
    using that assms by (auto simp: length_Suc_conv)
qed (auto simp: length_Suc_conv; force)

lemma dialogue_read2:
  assumes "\<And>x y. dialogue (f [x, y]) (Q x y)"
  shows "dialogue (io_bind (io_read pre 2) f) (\<lambda>b recv sent. \<exists>x y r. Q x y b r sent \<and> recv = x # y # r)"
proof (rule dialogue_cong [OF dialogue_bind [OF dialogue_read, of 2 f "\<lambda>bs. Q (bs ! 0) (bs ! 1)"]])
  show "dialogue (f a) (Q (a ! 0) (a ! 1))" if "length a = 2 \<and> recv = a \<and> sent = []" for a recv and sent :: "bytes list"
    using that assms by (auto simp: len2)
qed (auto simp: len2; force)

lemma dialogue_read4:
  assumes "\<And>x y z w. dialogue (f [x, y, z, w]) (Q x y z w)"
  shows "dialogue (io_bind (io_read pre 4) f)
    (\<lambda>b recv sent. \<exists>x y z w r. Q x y z w b r sent \<and> recv = x # y # z # w # r)"
proof (rule dialogue_cong [OF dialogue_bind [OF dialogue_read, of 4 f "\<lambda>bs. Q (bs ! 0) (bs ! 1) (bs ! 2) (bs ! 3)"]])
  show "dialogue (f a) (Q (a ! 0) (a ! 1) (a ! 2) (a ! 3))" if "length a = 4 \<and> recv = a \<and> sent = []"
    for a recv and sent :: "bytes list"
    using that assms by (auto simp: len4)
qed (auto simp: len4; force)


lemmas cases_if = if_bool_eq_disj ex_disj_distrib conj_disj_distribL conj_disj_distribR

text \<open>The server's side of a dialogue that succeeds: the method, and the reply to the request.\<close>

definition creds_fit :: "(string \<times> string) option \<Rightarrow> bool" where
  "creds_fit user \<longleftrightarrow> length (fst (credentials user)) \<le> 255 \<and> length (snd (credentials user)) \<le> 255"

definition selects :: "(string \<times> string) option \<Rightarrow> bytes \<Rightarrow> bytes list \<Rightarrow> bool" where
  "selects user sel auth \<longleftrightarrow>
     sel = [5, 0] \<and> auth = []
     \<or> (\<exists>v. sel = [5, 2, v, 0]) \<and> creds_fit user \<and> auth = [auth_message user]"

definition grants :: "bytes \<Rightarrow> bool" where
  "grants rep \<longleftrightarrow>
     (\<exists>v r t tail. rep = [v, 0, r, t] @ tail
        \<and> (t = 1 \<and> length tail = 4 + 2 \<or> t = 4 \<and> length tail = 16 + 2
            \<or> t = 3 \<and> (\<exists>l rest. tail = l # rest \<and> length rest = unat l + 2)))"

lemma dialogue_auth:
  "dialogue (socks5_auth user)
     (\<lambda>u recv sent. creds_fit user \<and> (\<exists>v. recv = [v, 0]) \<and> sent = [auth_message user])"
  unfolding socks5_auth_def
  by (rule dialogue_cong, (rule dialogue_read2 dialogue_intros)+) (auto simp: creds_fit_def cases_if)

lemma dialogue_negotiate:
  "dialogue (socks5_negotiate user)
     (\<lambda>u recv sent. \<exists>auth. selects user recv auth \<and> sent = socks5_greeting user # auth)"
  unfolding socks5_negotiate_def
  by (rule dialogue_cong, (rule dialogue_read2 dialogue_intros dialogue_auth)+) (auto simp: selects_def cases_if)

lemma dialogue_skip:
  "dialogue (skip_bytes t) (\<lambda>n recv sent. sent = [] \<and>
     (t = 1 \<and> n = 4 \<and> recv = [] \<or> t = 4 \<and> n = 16 \<and> recv = [] \<or> t = 3 \<and> (\<exists>l. recv = [l] \<and> n = unat l)))"
  unfolding skip_bytes_def
  by (rule dialogue_cong, (rule dialogue_read1 dialogue_intros)+) (auto simp: cases_if)

lemma dialogue_reply: "dialogue (socks5_reply address) (\<lambda>u recv sent. grants recv \<and> sent = [])"
  unfolding socks5_reply_def
  by (rule dialogue_cong, (rule dialogue_read4 dialogue_intros dialogue_skip)+) (auto simp: grants_def cases_if; fastforce)

lemma dialogue_request:
  "dialogue (case socks5_request host port of
       Inl err \<Rightarrow> (\<lambda>c. (Inl err, c))
     | Inr req \<Rightarrow> io_bind (io_write pre req) (\<lambda>_. socks5_reply address))
   (\<lambda>u recv sent. \<exists>req. socks5_request host port = Inr req \<and> grants recv \<and> sent = [req])"
proof (cases "socks5_request host port")
  case (Inl err)
  then show ?thesis using dialogue_error [of err] by simp
next
  case (Inr req)
  have "dialogue (io_bind (io_write pre req) (\<lambda>_. socks5_reply address)) (\<lambda>u recv sent. grants recv \<and> sent = [req])"
    by (rule dialogue_cong, (rule dialogue_intros dialogue_reply)+) auto
  with Inr show ?thesis by simp
qed

lemma socks5_conversation:
  assumes "co_WriteErrs c = []"
  shows "socks5Connect user address c = (Inr u, c') \<longleftrightarrow>
    (\<exists>host portStr port req sel auth rep.
       net_SplitHostPort address = Inr (host, portStr) \<and> go_Atoi portStr = Some port
       \<and> socks5_request host port = Inr req
       \<and> selects user sel auth \<and> grants rep
       \<and> co_In c = sel @ rep @ co_In c'
       \<and> c' = c\<lparr>co_In := co_In c', co_Out := co_Out c @ [socks5_greeting user] @ auth @ [req]\<rparr>)"
proof (cases "\<exists>host portStr port. net_SplitHostPort address = Inr (host, portStr) \<and> go_Atoi portStr = Some port")
  case False
  then show ?thesis by (auto simp: socks5Connect_def split: sum.splits option.splits)
next
  case True
  then obtain host portStr port where a: "net_SplitHostPort address = Inr (host, portStr)" "go_Atoi portStr = Some port"
    by blast
  let ?m = "io_bind (socks5_negotiate user) (\<lambda>_. case socks5_request host port of
       Inl err \<Rightarrow> (\<lambda>c. (Inl err, c))
     | Inr req \<Rightarrow> io_bind (io_write ''socks5 connect: '' req) (\<lambda>_. socks5_reply address))"
  have "dialogue ?m (\<lambda>u recv sent. \<exists>sel auth rep req. selects user sel auth \<and> socks5_request host port = Inr req
      \<and> grants rep \<and> recv = sel @ rep \<and> sent = [socks5_greeting user] @ auth @ [req])"
    by (rule dialogue_cong, (rule dialogue_then dialogue_negotiate dialogue_request)+) fastforce
  then have "?m c = (Inr u, c') \<longleftrightarrow> (\<exists>sel auth rep req. selects user sel auth \<and> socks5_request host port = Inr req
      \<and> grants rep \<and> step c (sel @ rep) ([socks5_greeting user] @ auth @ [req]) c')"
    using assms unfolding dialogue_def by (metis (no_types, lifting))
  then show ?thesis by (auto simp: socks5Connect_def a step_def)
qed

text \<open>
  Claim C15. A SOCKS5 connection succeeds exactly when the server selects a method (none, or user and
  password with credentials that fit) and grants the request; then the greeting, the credentials if
  asked for, and the request are what was written, and not one byte behind the reply has been
  read, so the tunnel starts with the first byte of the far end.
\<close>

theorem socks5_connects_iff:
  assumes "co_WriteErrs c = []"
  shows "socks5Connect user address c = (Inr u, c') \<longleftrightarrow>
    (\<exists>host portStr port req sel auth rep.
       net_SplitHostPort address = Inr (host, portStr) \<and> go_Atoi portStr = Some port
       \<and> socks5_request host port = Inr req
       \<and> selects user sel auth \<and> grants rep
       \<and> co_In c = sel @ rep @ co_In c'
       \<and> c' = c\<lparr>co_In := co_In c', co_Out := co_Out c @ [socks5_greeting user] @ auth @ [req]\<rparr>)"
  using assms by (rule socks5_conversation)

definition sample_conn :: conn where
  "sample_conn = \<lparr>co_In = [5, 2, 1, 0, 5, 0, 0, 1, 10, 0, 0, 1, 0, 80, 71, 69],
     co_ReadErr = io_EOF, co_WriteErrs = [], co_Out = []\<rparr>"

theorem socks5_connects_iff_witness:
  "\<exists>sel rep auth. selects (Some (''me'', ''pw'')) sel auth \<and> grants rep \<and> co_In sample_conn = sel @ rep @ [71, 69]"
proof -
  let ?r = "socks5Connect (Some (''me'', ''pw'')) ''x.com:443'' sample_conn"
  have r: "fst ?r = Inr ()" "co_In (snd ?r) = [71, 69]" by code_simp+
  then have "?r = (Inr (), snd ?r)" by (metis prod.collapse)
  moreover have "co_WriteErrs sample_conn = []" by (simp add: sample_conn_def)
  ultimately show ?thesis using socks5_connects_iff [of sample_conn "Some (''me'', ''pw'')" "''x.com:443''" "()" "snd ?r"] r(2)
    by (metis (no_types, lifting))
qed

section \<open>The request as the server reads it\<close>

datatype socks_dest = DestV4 "32 word" | DestV6 "128 word" | DestName string

definition dest_of :: "string \<Rightarrow> socks_dest" where
  "dest_of host =
     (case net_ParseIP host of
        Some (V4 w) \<Rightarrow> DestV4 w
      | Some (V6 w z) \<Rightarrow> if addr_Is4In6 (V6 w z) then DestV4 (ucast w) else DestV6 w
      | None \<Rightarrow> DestName host)"

text \<open>The address of \<open>n\<close> bytes, the port, and the bytes behind them.\<close>

definition dest_port :: "(bytes \<Rightarrow> socks_dest) \<Rightarrow> nat \<Rightarrow> bytes \<Rightarrow> (socks_dest \<times> nat \<times> bytes) option" where
  "dest_port mk n r =
     (if n + 2 \<le> length r
      then Some (mk (take n r), unat (be_word (take 2 (drop n r)) :: 16 word), drop (n + 2) r) else None)"

definition socks_server :: "bytes \<Rightarrow> (socks_dest \<times> nat \<times> bytes) option" where
  "socks_server msg =
     (case msg of
        v # cmd # rsv # t # r \<Rightarrow>
          if v \<noteq> 5 \<or> cmd \<noteq> 1 then None
          else if t = 1 then dest_port (\<lambda>b. DestV4 (be_word b)) 4 r
          else if t = 4 then dest_port (\<lambda>b. DestV6 (be_word b)) 16 r
          else if t = 3 then (case r of [] \<Rightarrow> None | l # r' \<Rightarrow> dest_port (\<lambda>b. DestName (string_of b)) (unat l) r')
          else None
      | _ \<Rightarrow> None)"

lemma dest_port_app:
  "length a = n \<Longrightarrow> dest_port mk n (a @ u16_bytes w @ rest) = Some (mk a, unat w, rest)"
proof -
  assume n: "length a = n"
  have "take 2 (u16_bytes w @ rest) = u16_bytes w" by simp
  with n show ?thesis by (simp add: dest_port_def)
qed

lemma unat_of_int_16: "unat (of_int i :: 16 word) = nat (i mod 65536)"
  by (simp add: unat_eq_nat_uint uint_word_of_int)

text \<open>
  Claim C29. A server that reads the request after RFC 1928 sees the destination that was meant, as
  an IPv4 address (mapped ones unwrapped), an IPv6 address or a name, with the port modulo 65536,
  and nothing more; building the request fails exactly for a name of more than 255 bytes.
\<close>

theorem socks5_request_read_back:
  "(case socks5_request host port of
      Inl err \<Rightarrow> net_ParseIP host = None \<and> 255 < length host
    | Inr req \<Rightarrow> socks_server (req @ rest) = Some (dest_of host, nat (port mod 65536), rest)
               \<and> \<not> (net_ParseIP host = None \<and> 255 < length host))"
proof (cases "net_ParseIP host")
  case None
  show ?thesis
  proof (cases "255 < length host")
    case True
    with None show ?thesis by (simp add: socks5_request_def dest_bytes_def)
  next
    case False
    then have "unat (of_nat (length host) :: byte) = length host" by (simp add: unat_of_nat)
    then show ?thesis
      using None False dest_port_app [of "bytes_of host" "length host" _ "of_int port" rest]
      by (simp add: socks5_request_def dest_bytes_def socks_server_def dest_of_def unat_of_int_16)
  qed
next
  case (Some a)
  show ?thesis
  proof (cases a)
    case (V4 w)
    have "be_word (u32_bytes w) = w" by (simp add: be_word_be_bytes take_bit_word_eq_self)
    then show ?thesis
      using Some V4 dest_port_app [of "u32_bytes w" 4 _ "of_int port" rest]
      by (simp add: socks5_request_def dest_bytes_def socks_server_def dest_of_def unat_of_int_16)
  next
    case (V6 w z)
    have "be_word (be_bytes 16 w) = w" by (simp add: be_word_be_bytes take_bit_word_eq_self)
    moreover have "be_word (u32_bytes (ucast w)) = (ucast w :: 32 word)" by (simp add: be_word_be_bytes take_bit_word_eq_self)
    ultimately show ?thesis
      using Some V6 dest_port_app [of "be_bytes 16 w" 16 _ "of_int port" rest]
        dest_port_app [of "u32_bytes (ucast w)" 4 _ "of_int port" rest]
      by (simp add: socks5_request_def dest_bytes_def socks_server_def dest_of_def unat_of_int_16)
  qed
qed

section \<open>The tunnel\<close>

text \<open>What is left to read, and reads one after the other.\<close>

fun pending :: "dialed \<Rightarrow> bytes" where
  "pending (RawConn c) = co_In c"
| "pending (BufferedConn b c) = b @ co_In c"

fun read_all :: "nat list \<Rightarrow> dialed \<Rightarrow> bytes \<times> dialed" where
  "read_all [] d = ([], d)"
| "read_all (n # ns) d =
     (case conn_Read n d of (out, d') \<Rightarrow> (case read_all ns d' of (outs, d'') \<Rightarrow> (out @ outs, d'')))"

lemma drop_take_drop: "used \<le> m \<Longrightarrow> drop used (take m xs) @ drop m xs = drop used xs"
proof -
  assume "used \<le> m"
  then have "drop m xs = drop (m - used) (drop used xs)" by simp
  then show ?thesis unfolding drop_take by (simp only: append_take_drop_id)
qed

lemma conn_Read_pending: "fst (conn_Read n d) @ pending (snd (conn_Read n d)) = pending d"
proof (cases d)
  case (BufferedConn b c)
  have "take n (co_In c) @ drop n (take bufio_size (co_In c)) @ drop bufio_size (co_In c) = co_In c" if "\<not> bufio_size \<le> n"
    using that by (simp add: drop_take_drop)
  with BufferedConn show ?thesis by (simp add: Let_def)
qed simp

lemma conn_Read_progress: "0 < n \<Longrightarrow> pending d \<noteq> [] \<Longrightarrow> fst (conn_Read n d) \<noteq> []"
  by (cases d) (auto simp: Let_def bufio_size_def)

lemma read_all_pending: "fst (read_all ns d) @ pending (snd (read_all ns d)) = pending d"
proof (induction ns arbitrary: d)
  case (Cons n ns)
  show ?case
    using Cons.IH [of "snd (conn_Read n d)"] conn_Read_pending [of n d]
    by (simp add: case_prod_beta)
qed simp

lemma read_all_complete:
  "list_all ((<) 0) ns \<Longrightarrow> length (pending d) \<le> length ns \<Longrightarrow> pending (snd (read_all ns d)) = []"
proof (induction ns arbitrary: d)
  case (Cons n ns)
  let ?d = "snd (conn_Read n d)"
  have "length (pending ?d) \<le> length ns"
  proof (cases "pending d = []")
    case True
    then show ?thesis using conn_Read_pending [of n d] by simp
  next
    case False
    then have "fst (conn_Read n d) \<noteq> []" using Cons.prems(1) by (intro conn_Read_progress) simp_all
    then have "0 < length (fst (conn_Read n d))" by simp
    moreover have "length (fst (conn_Read n d)) + length (pending ?d) = length (pending d)"
      using arg_cong [OF conn_Read_pending [of n d], of length] by simp
    ultimately have "length (pending ?d) < length (pending d)" by linarith
    with Cons.prems(2) show ?thesis by simp
  qed
  with Cons show ?case by (simp add: case_prod_beta)
qed simp

lemma httpConnect_buffered:
  assumes "co_WriteErrs c = []"
  shows "httpConnect hp user address c = (Inr buffered, c') \<longleftrightarrow>
    (\<exists>line used fetched. hp_read hp (co_In c) = Inr (200, line, used) \<and> fetched = max used (hp_fetched hp)
       \<and> buffered = drop used (take fetched (co_In c))
       \<and> c' = c\<lparr>co_In := drop fetched (co_In c),
               co_Out := co_Out c @ [hp_write hp (connect_request_of (hp_base64 hp) user address)]\<rparr>)"
  using assms
  by (auto simp: httpConnect_def io_bind_def io_write_def Let_def split: sum.splits prod.splits if_splits)

text \<open>
  What a proxy says before the tunnel: the HTTP response of the length its reader found, with status 200,
  or the method selection and the reply of SOCKS5.
\<close>

definition proxy_grants :: "url \<Rightarrow> http_proxy \<Rightarrow> string \<Rightarrow> bytes \<Rightarrow> bytes \<Rightarrow> bool" where
  "proxy_grants u hp address received data \<longleftrightarrow>
     (if url_Scheme u = ''http''
      then \<exists>line used. hp_read hp received = Inr (200, line, used) \<and> data = drop used received
      else \<exists>host portStr port req sel auth rep.
        net_SplitHostPort address = Inr (host, portStr) \<and> go_Atoi portStr = Some port
        \<and> socks5_request host port = Inr req \<and> selects (url_User u) sel auth \<and> grants rep
        \<and> received = sel @ rep @ data)"

lemma dial_pending:
  assumes "co_WriteErrs c = []"
  shows "(\<exists>d. proxy_DialContext u hp (Inr c) network address = Inr d \<and> pending d = data) \<longleftrightarrow>
    network \<in> {''tcp'', ''tcp4'', ''tcp6''} \<and> proxy_grants u hp address (co_In c) data"
proof (cases "network \<in> {''tcp'', ''tcp4'', ''tcp6''}")
  case net: True
  show ?thesis
  proof (cases "url_Scheme u = ''http''")
    case True
    have "(\<exists>d. proxy_DialContext u hp (Inr c) network address = Inr d \<and> pending d = data) \<longleftrightarrow>
        (\<exists>buffered c'. httpConnect hp (url_User u) address c = (Inr buffered, c') \<and> buffered @ co_In c' = data)"
    proof -
      obtain r c' where r: "httpConnect hp (url_User u) address c = (r, c')" by fastforce
      show ?thesis using net True by (cases r) (auto simp: proxy_DialContext_def r)
    qed
    also have "\<dots> \<longleftrightarrow> (\<exists>line used. hp_read hp (co_In c) = Inr (200, line, used) \<and> data = drop used (co_In c))"
      unfolding httpConnect_buffered [OF assms] by (auto simp: drop_take_drop)
    finally show ?thesis using net True by (simp add: proxy_grants_def)
  next
    case False
    have "(\<exists>d. proxy_DialContext u hp (Inr c) network address = Inr d \<and> pending d = data) \<longleftrightarrow>
        (\<exists>c'. socks5Connect (url_User u) address c = (Inr (), c') \<and> co_In c' = data)"
    proof -
      obtain r c' where r: "socks5Connect (url_User u) address c = (r, c')" by fastforce
      show ?thesis using net False by (cases r) (auto simp: proxy_DialContext_def r)
    qed
    also have "\<dots> \<longleftrightarrow> proxy_grants u hp address (co_In c) data"
      unfolding socks5_conversation [OF assms] proxy_grants_def if_not_P [OF False]
    proof (intro iffI; elim exE conjE)
      fix host portStr port req sel auth rep
      assume "net_SplitHostPort address = Inr (host, portStr)" "go_Atoi portStr = Some port"
        "socks5_request host port = Inr req" "selects (url_User u) sel auth" "grants rep" "co_In c = sel @ rep @ data"
      then show "\<exists>c'. (\<exists>host portStr port req sel auth rep.
          net_SplitHostPort address = Inr (host, portStr) \<and> go_Atoi portStr = Some port
          \<and> socks5_request host port = Inr req \<and> selects (url_User u) sel auth \<and> grants rep
          \<and> co_In c = sel @ rep @ co_In c'
          \<and> c' = c\<lparr>co_In := co_In c', co_Out := co_Out c @ [socks5_greeting (url_User u)] @ auth @ [req]\<rparr>)
          \<and> co_In c' = data"
        by (intro exI [of _ "c\<lparr>co_In := data, co_Out := co_Out c @ [socks5_greeting (url_User u)] @ auth @ [req]\<rparr>"] conjI
            exI [of _ host] exI [of _ portStr] exI [of _ port] exI [of _ req] exI [of _ sel] exI [of _ auth] exI [of _ rep]) simp_all
    qed blast
    finally show ?thesis using net by simp
  qed
qed (auto simp: proxy_DialContext_def)

text \<open>
  Claim C39. A tunnel loses nothing and adds nothing, with either kind of proxy. The dial succeeds
  exactly when the network is TCP and the proxy grants the connection, and reading the connection it
  returns, in pieces of whatever sizes, gives the bytes behind what the proxy itself said, in order: what
  was read and what is left make up the whole, and as many reads as there are bytes leave nothing,
  also where the reader of the HTTP response had already fetched a part of them.
\<close>

theorem proxy_tunnel_complete:
  assumes "co_WriteErrs c = []"
  shows "(isl (proxy_DialContext u hp (Inr c) network address) \<longleftrightarrow>
      \<not> (network \<in> {''tcp'', ''tcp4'', ''tcp6''} \<and> (\<exists>data. proxy_grants u hp address (co_In c) data)))
    \<and> (\<forall>d. proxy_DialContext u hp (Inr c) network address = Inr d \<longrightarrow>
        (\<exists>data. proxy_grants u hp address (co_In c) data
          \<and> (\<forall>ns. (\<exists>rest. fst (read_all ns d) @ rest = data)
               \<and> (list_all ((<) 0) ns \<and> length data \<le> length ns \<longrightarrow> fst (read_all ns d) = data))))"
proof (intro conjI allI impI)
  note dial = dial_pending [OF assms, of u hp network address]
  show "isl (proxy_DialContext u hp (Inr c) network address) \<longleftrightarrow>
      \<not> (network \<in> {''tcp'', ''tcp4'', ''tcp6''} \<and> (\<exists>data. proxy_grants u hp address (co_In c) data))"
    using dial by (cases "proxy_DialContext u hp (Inr c) network address") auto
next
  fix d assume d: "proxy_DialContext u hp (Inr c) network address = Inr d"
  then have "proxy_grants u hp address (co_In c) (pending d)"
    using dial_pending [OF assms, of u hp network address "pending d"] by blast
  moreover have "(\<exists>rest. fst (read_all ns d) @ rest = pending d)
      \<and> (list_all ((<) 0) ns \<and> length (pending d) \<le> length ns \<longrightarrow> fst (read_all ns d) = pending d)" for ns
    using read_all_pending [of ns d] read_all_complete [of ns d] by fastforce
  ultimately show "\<exists>data. proxy_grants u hp address (co_In c) data
      \<and> (\<forall>ns. (\<exists>rest. fst (read_all ns d) @ rest = data)
           \<and> (list_all ((<) 0) ns \<and> length data \<le> length ns \<longrightarrow> fst (read_all ns d) = data))"
    by blast
qed

definition sample_http_proxy :: http_proxy where
  "sample_http_proxy = \<lparr>hp_write = (\<lambda>r. bytes_of (cr_Address r)), hp_read = (\<lambda>bs. Inr (200, ''200 OK'', 3)),
     hp_fetched = 5, hp_base64 = (\<lambda>s. s)\<rparr>"

definition sample_proxy_url :: url where
  "sample_proxy_url = \<lparr>url_Scheme = ''http'', url_User = None, url_Host = ''p:80''\<rparr>"

theorem proxy_tunnel_complete_witness:
  "\<exists>d. proxy_DialContext sample_proxy_url sample_http_proxy (Inr sample_conn) ''tcp'' ''x.com:443'' = Inr d
     \<and> fst (read_all (replicate 13 2) d) = drop 3 (co_In sample_conn)"
proof -
  let ?dial = "proxy_DialContext sample_proxy_url sample_http_proxy (Inr sample_conn) ''tcp'' ''x.com:443''"
  have w: "co_WriteErrs sample_conn = []" by (simp add: sample_conn_def)
  have grants: "proxy_grants sample_proxy_url sample_http_proxy ''x.com:443'' (co_In sample_conn) data
      \<longleftrightarrow> data = drop 3 (co_In sample_conn)" for data
    by (simp add: proxy_grants_def sample_proxy_url_def sample_http_proxy_def)
  note tunnel = proxy_tunnel_complete [OF w, of sample_proxy_url sample_http_proxy "''tcp''" "''x.com:443''", unfolded grants]
  from tunnel have "\<not> isl ?dial" by simp
  then obtain d where d: "?dial = Inr d" by (cases ?dial) auto
  have "length (drop 3 (co_In sample_conn)) \<le> length (replicate 13 (2::nat))" by (simp add: sample_conn_def)
  with tunnel d have "fst (read_all (replicate 13 2) d) = drop 3 (co_In sample_conn)"
    by (auto simp: list_all_iff)
  with d show ?thesis by blast
qed

end
