(* ===== verification/Cli.thy ===== *)
theory Cli
  imports Runner Presets Defaults Proxy Report
begin

text \<open>
  Package cli: the flags (Go's package flag with \<^verbatim>\<open>ContinueOnError\<close>), the targets, and \<open>Main\<close> from the
  arguments to the exit code and the two outputs. What the process finds outside is a record: its
  environment variables, the configuration directory, the files, the network behind a run, and
  whether it was interrupted. Package flag writes to the error output itself: the message of a bad flag
  and the usage text, laid out by \<^verbatim>\<open>PrintDefaults\<close>. The parsers of durations and integers, \<^verbatim>\<open>url.Parse\<close>, the YAML decoders
  and the JSON encoder are parameters in it.
\<close>

section \<open>Flags\<close>

record options_cli =
  oc_Preset :: string
  oc_JSON :: bool
  oc_Markdown :: bool
  oc_Verbose :: bool
  oc_Timeout :: int
  oc_Proxy :: string
  oc_Resolver :: string
  oc_Speed :: bool
  oc_Lang :: string
  oc_Concurrency :: int
  oc_NoColor :: bool
  oc_ListPresets :: bool
  oc_PresetsFile :: string
  oc_SignaturesFile :: string
  oc_Version :: bool
  oc_Targets :: "string list"

text \<open>The defaults \<^verbatim>\<open>newFlagSet\<close> gives the variables.\<close>

definition flag_defaults :: options_cli where
  "flag_defaults =
     \<lparr>oc_Preset = [], oc_JSON = False, oc_Markdown = False, oc_Verbose = False, oc_Timeout = 5 * Second,
      oc_Proxy = [], oc_Resolver = [], oc_Speed = False, oc_Lang = [], oc_Concurrency = 8, oc_NoColor = False,
      oc_ListPresets = False, oc_PresetsFile = [], oc_SignaturesFile = [], oc_Version = False, oc_Targets = []\<rparr>"

datatype usage = UsageHelp | UsageError string

record std =
  sd_Duration :: "string \<Rightarrow> string + int"
  sd_Int :: "string \<Rightarrow> string + int"

text \<open>
  The registered flags: name, kind of value, text of the default value, help text. No help text has
  a line break or a name in back quotes, which package flag would treat in a special way.
\<close>

datatype flag_kind = BoolFlag | StringFlag | IntFlag | DurationFlag

definition flag_table :: "(string \<times> flag_kind \<times> string \<times> string) list" where
  "flag_table =
     [(''preset'', StringFlag, [], ''preset to run (see --list-presets); default: dev''),
      (''json'', BoolFlag, ''false'', ''print machine-readable JSON''),
      (''markdown'', BoolFlag, ''false'', ''print a Markdown report ready to paste into an issue''),
      (''verbose'', BoolFlag, ''false'', ''show every test and its raw evidence''),
      (''v'', BoolFlag, ''false'', ''shorthand for --verbose''),
      (''timeout'', DurationFlag, dur_String (5 * Second), ''timeout for each network operation''),
      (''proxy'', StringFlag, [], ''send TCP connections through a proxy (http://host:port or socks5://host:port)''),
      (''resolver'', StringFlag, [], ''DNS resolver to test instead of the system one (IP[:port]), or a DoH URL to trust as reference''),
      (''speed'', BoolFlag, ''false'', ''also measure handshake time and throughput to detect throttling''),
      (''lang'', StringFlag, [], ''output language: en or fa (default: from locale)''),
      (''concurrency'', IntFlag, itoa 8, ''number of targets checked in parallel''),
      (''no-color'', BoolFlag, ''false'', ''disable colors (NO_COLOR is also honoured)''),
      (''list-presets'', BoolFlag, ''false'', ''list presets and exit''),
      (''presets'', StringFlag, [], ''extra presets YAML file''),
      (''signatures'', StringFlag, [], ''extra signatures YAML file''),
      (''version'', BoolFlag, ''false'', ''print version and exit'')]"

text \<open>What is printed above the flags.\<close>

definition usage_head :: string where
  "usage_head = written
     [''chera - explain why a service is unreachable'', [], ''Usage:'', ''  chera [flags] [host|url ...]'', [],
      ''Examples:'',
      ''  chera                      run the default developer preset'',
      ''  chera github.com           diagnose one host'',
      ''  chera --preset ai          run the AI APIs preset'',
      ''  chera --markdown pypi.org  produce a report for a GitHub issue'', [], ''Flags:'']"

text \<open>
  \<^verbatim>\<open>PrintDefaults\<close>: the flags by name, each with the name of its kind and, below or behind
  a tabulator, its help, and the default value if it is not the zero of its kind.
\<close>

fun kind_name :: "flag_kind \<Rightarrow> string" where
  "kind_name BoolFlag = []" | "kind_name StringFlag = ''string''"
| "kind_name IntFlag = ''int''" | "kind_name DurationFlag = ''duration''"

fun kind_zero :: "flag_kind \<Rightarrow> string" where
  "kind_zero BoolFlag = ''false''" | "kind_zero StringFlag = []"
| "kind_zero IntFlag = ''0''" | "kind_zero DurationFlag = ''0s''"

definition print_default :: "string \<times> flag_kind \<times> string \<times> string \<Rightarrow> string" where
  "print_default f =
     (case f of (name, k, def, help) \<Rightarrow>
        let tab = char_of (9::nat); newl = char_of (10::nat);
            b = ''  -'' @ name @ (if kind_name k = [] then [] else '' '' @ kind_name k)
        in b @ (if length b \<le> 4 then [tab] else newl # ''    '' @ [tab]) @ help
           @ (if def = kind_zero k then []
              else if k = StringFlag then '' (default '' @ go_quote def @ '')''
              else '' (default '' @ def @ '')'')
           @ [newl])"

definition usage_text :: string where
  "usage_text = usage_head @ concat (map print_default (sort_key fst flag_table))"

text \<open>What package flag writes when parsing fails: an error is reported before the usage.\<close>

fun flag_errOut :: "usage \<Rightarrow> string" where
  "flag_errOut UsageHelp = usage_text"
| "flag_errOut (UsageError msg) = written [msg] @ usage_text"

definition bool_flags :: "string list" where
  "bool_flags = [''json'', ''markdown'', ''verbose'', ''v'', ''speed'', ''no-color'', ''list-presets'', ''version'']"

definition value_flags :: "string list" where
  "value_flags = [''preset'', ''timeout'', ''proxy'', ''resolver'', ''lang'', ''concurrency'', ''presets'', ''signatures'']"

definition ParseBool :: "string \<Rightarrow> bool option" where
  "ParseBool s =
     (if s \<in> {''1'', ''t'', ''T'', ''TRUE'', ''true'', ''True''} then Some True
      else if s \<in> {''0'', ''f'', ''F'', ''FALSE'', ''false'', ''False''} then Some False
      else None)"

definition set_bool :: "string \<Rightarrow> bool \<Rightarrow> options_cli \<Rightarrow> options_cli" where
  "set_bool name b opts =
     (if name = ''json'' then opts\<lparr>oc_JSON := b\<rparr>
      else if name = ''markdown'' then opts\<lparr>oc_Markdown := b\<rparr>
      else if name = ''verbose'' \<or> name = ''v'' then opts\<lparr>oc_Verbose := b\<rparr>
      else if name = ''speed'' then opts\<lparr>oc_Speed := b\<rparr>
      else if name = ''no-color'' then opts\<lparr>oc_NoColor := b\<rparr>
      else if name = ''list-presets'' then opts\<lparr>oc_ListPresets := b\<rparr>
      else opts\<lparr>oc_Version := b\<rparr>)"

definition set_value :: "std \<Rightarrow> string \<Rightarrow> string \<Rightarrow> options_cli \<Rightarrow> string + options_cli" where
  "set_value sd name v opts =
     (if name = ''preset'' then Inr (opts\<lparr>oc_Preset := v\<rparr>)
      else if name = ''timeout'' then map_sum id (\<lambda>d. opts\<lparr>oc_Timeout := d\<rparr>) (sd_Duration sd v)
      else if name = ''proxy'' then Inr (opts\<lparr>oc_Proxy := v\<rparr>)
      else if name = ''resolver'' then Inr (opts\<lparr>oc_Resolver := v\<rparr>)
      else if name = ''lang'' then Inr (opts\<lparr>oc_Lang := v\<rparr>)
      else if name = ''concurrency'' then map_sum id (\<lambda>n. opts\<lparr>oc_Concurrency := n\<rparr>) (sd_Int sd v)
      else if name = ''presets'' then Inr (opts\<lparr>oc_PresetsFile := v\<rparr>)
      else Inr (opts\<lparr>oc_SignaturesFile := v\<rparr>))"

text \<open>One argument: a flag was read, or parsing stops, or fails.\<close>

datatype one = Seen options_cli "string list" | Stop "string list" | Bad usage

text \<open>The name of a flag and the value behind an equals sign, which is not looked for at the start.\<close>

definition split_name :: "string \<Rightarrow> string \<times> string option" where
  "split_name name =
     (let n = takeWhile (\<lambda>c. c \<noteq> CHR ''='') (tl name); r = drop (Suc (length n)) name
      in (hd name # n, if r = [] then None else Some (tl r)))"

definition flag_named :: "std \<Rightarrow> string \<times> string option \<Rightarrow> string list \<Rightarrow> options_cli \<Rightarrow> one" where
  "flag_named sd nv args opts =
     (case nv of (name, value) \<Rightarrow>
        if name \<in> set bool_flags then
          (case value of
             None \<Rightarrow> Seen (set_bool name True opts) args
           | Some v \<Rightarrow> (case ParseBool v of
                 Some b \<Rightarrow> Seen (set_bool name b opts) args
               | None \<Rightarrow> Bad (UsageError (''invalid boolean value '' @ go_quote v @ '' for -'' @ name @ '': parse error''))))
        else if name \<in> set value_flags then
          (case (case value of Some v \<Rightarrow> Some (v, args)
                 | None \<Rightarrow> (case args of [] \<Rightarrow> None | v # rest \<Rightarrow> Some (v, rest))) of
             None \<Rightarrow> Bad (UsageError (''flag needs an argument: -'' @ name))
           | Some (v, rest) \<Rightarrow> (case set_value sd name v opts of
                 Inr opts' \<Rightarrow> Seen opts' rest
               | Inl e \<Rightarrow> Bad (UsageError (''invalid value '' @ go_quote v @ '' for flag -'' @ name @ '': '' @ e))))
        else if name = ''help'' \<or> name = ''h'' then Bad UsageHelp
        else Bad (UsageError (''flag provided but not defined: -'' @ name)))"

fun parse_one :: "std \<Rightarrow> string list \<Rightarrow> options_cli \<Rightarrow> one" where
  "parse_one sd [] opts = Stop []"
| "parse_one sd (s # args) opts =
     (if length s < 2 \<or> hd s \<noteq> CHR ''-'' then Stop (s # args)
      else if s = ''--'' then Stop args
      else (let name = (if s ! 1 = CHR ''-'' then drop 2 s else drop 1 s) in
        if name = [] \<or> hd name = CHR ''-'' \<or> hd name = CHR ''=''
        then Bad (UsageError (''bad flag syntax: '' @ s))
        else flag_named sd (split_name name) args opts))"

lemma parse_one_shorter: "parse_one sd args opts = Seen opts' rest \<Longrightarrow> length rest < length args"
  by (cases args)
    (auto simp: flag_named_def Let_def split: if_splits option.splits prod.splits list.splits sum.splits)

lemma parse_one_stop: "parse_one sd args opts = Stop rest \<Longrightarrow> length rest \<le> length args"
  by (cases args)
    (auto simp: flag_named_def Let_def split: if_splits option.splits prod.splits list.splits sum.splits)

function flag_parse :: "std \<Rightarrow> string list \<Rightarrow> options_cli \<Rightarrow> usage + string list \<times> options_cli" where
  "flag_parse sd args opts =
     (case parse_one sd args opts of
        Seen opts' rest \<Rightarrow> flag_parse sd rest opts'
      | Stop rest \<Rightarrow> Inr (rest, opts)
      | Bad u \<Rightarrow> Inl u)"
  by pat_completeness auto
termination
  by (relation "measure (\<lambda>(sd, args, opts). length args)") (auto dest: parse_one_shorter)

declare flag_parse.simps [simp del]

lemma flag_parse_length: "flag_parse sd args opts = Inr (rest, opts') \<Longrightarrow> length rest \<le> length args"
proof (induction sd args opts rule: flag_parse.induct)
  case (1 sd args opts)
  show ?case
  proof (cases "parse_one sd args opts")
    case (Seen opts1 rest1)
    then have "length rest \<le> length rest1"
      using 1 by (simp add: flag_parse.simps [of sd args opts])
    with parse_one_shorter [OF Seen] show ?thesis by simp
  next
    case (Stop rest1)
    then show ?thesis using "1.prems" parse_one_stop [OF Stop] by (simp add: flag_parse.simps [of sd args opts])
  next
    case (Bad u)
    then show ?thesis using "1.prems" by (simp add: flag_parse.simps [of sd args opts])
  qed
qed

section \<open>ParseArgs\<close>

text \<open>The loop of \<^verbatim>\<open>ParseArgs\<close>: flags, one target, flags, and so on.\<close>

function args_loop :: "std \<Rightarrow> string list \<Rightarrow> options_cli \<Rightarrow> usage + options_cli" where
  "args_loop sd args opts =
     (case flag_parse sd args opts of
        Inl u \<Rightarrow> Inl u
      | Inr (rest, opts') \<Rightarrow>
          (case rest of
             [] \<Rightarrow> Inr opts'
           | t # rest' \<Rightarrow> args_loop sd rest' (opts'\<lparr>oc_Targets := oc_Targets opts' @ [t]\<rparr>)))"
  by pat_completeness auto
termination
  by (relation "measure (\<lambda>(sd, args, opts). length args)") (auto dest!: flag_parse_length)

declare args_loop.simps [simp del]

definition check_opts :: "options_cli \<Rightarrow> usage + options_cli" where
  "check_opts opts =
     (if oc_JSON opts \<and> oc_Markdown opts then Inl (UsageError ''--json and --markdown cannot be combined'')
      else if oc_Timeout opts \<le> 0 then Inl (UsageError ''--timeout must be positive'')
      else if oc_Concurrency opts < 1 \<or> 64 < oc_Concurrency opts
      then Inl (UsageError ''--concurrency must be between 1 and 64'')
      else if oc_Preset opts \<noteq> [] \<and> 0 < length (oc_Targets opts)
      then Inl (UsageError ''give either --preset or hosts, not both'')
      else Inr opts)"

text \<open>The first component is what was written to \<^verbatim>\<open>errOut\<close>.\<close>

definition ParseArgs :: "std \<Rightarrow> string list \<Rightarrow> string \<times> (usage + options_cli)" where
  "ParseArgs sd args =
     (case args_loop sd args flag_defaults of
        Inl u \<Rightarrow> (flag_errOut u, Inl u)
      | Inr opts \<Rightarrow> ([], check_opts opts))"

section \<open>Targets\<close>

definition contains_any :: "string \<Rightarrow> string \<Rightarrow> bool" where
  "contains_any s chars = list_ex (\<lambda>c. c \<in> set chars) s"

definition ParseTarget :: "(string \<Rightarrow> goerr + url) \<Rightarrow> preset_set \<Rightarrow> string \<Rightarrow> string + target" where
  "ParseTarget parse s arg0 =
     (let arg = trim_space arg0 in
      if str_contains arg ''://'' then
        (case parse arg of
           Inl err \<Rightarrow> Inl (''invalid URL '' @ go_quote arg)
         | Inr u \<Rightarrow>
             if url_Hostname u = [] then Inl (''invalid URL '' @ go_quote arg)
             else if url_Scheme u \<noteq> ''https'' then Inl (''only https URLs are supported: '' @ go_quote arg)
             else if url_Port u \<noteq> [] \<and> url_Port u \<noteq> ''443'' then Inl (''only port 443 is supported: '' @ go_quote arg)
             else Inr ((fst (presets_Lookup s (url_Hostname u)))
                    \<lparr>target_Host := to_lower (url_Hostname u), target_URL := arg\<rparr>))
      else (let host = to_lower (trim_suffix arg ''.'') in
        if host = [] \<or> contains_any host '' /:@?#'' then Inl (''invalid host '' @ go_quote arg)
        else (case presets_Lookup s host of
            (known, True) \<Rightarrow> Inr known
          | (_, False) \<Rightarrow> Inr (no_target\<lparr>target_Host := host\<rparr>))))"

section \<open>Main\<close>

definition ExitOK :: int where "ExitOK = 0"
definition ExitProblems :: int where "ExitProblems = 1"
definition ExitUsage :: int where "ExitUsage = 2"
definition ExitInterrupted :: int where "ExitInterrupted = 130"

record cli_env =
  ce_std :: std
  ce_getenv :: "string \<Rightarrow> string"
  ce_parse_url :: "string \<Rightarrow> goerr + url"
  ce_ConfigDir :: "string option"
  ce_Join :: "string list \<Rightarrow> string"
  ce_presets :: preset_set
  ce_sigs :: sig_set
  ce_read_presets :: "string \<Rightarrow> preset_read"
  ce_read_sigs :: "string \<Rightarrow> read_result"
  ce_decode_presets :: "bytes \<Rightarrow> string + preset_file"
  ce_decode_sigs :: "bytes \<Rightarrow> string + sig_file"
  ce_version :: string
  ce_world :: world
  ce_Run :: "config \<Rightarrow> target list \<Rightarrow> report"
  ce_interrupted :: bool
  ce_encode :: "json_report \<Rightarrow> string + string"
  ce_fmt_time :: "int \<Rightarrow> string"
  ce_zero_width :: "nat \<Rightarrow> bool"
  ce_stdout :: "bool option option" \<comment> \<open>no file, or what Stat says of it\<close>
  ce_goos :: string

text \<open>What a run of the command leaves: the exit code, and what was written to both outputs.\<close>

record outcome =
  out_Code :: int
  out_Out :: string
  out_Err :: string

definition usage_error :: "string \<Rightarrow> outcome" where
  "usage_error msg = \<lparr>out_Code = ExitUsage, out_Out = [], out_Err = written [''chera: '' @ msg]\<rparr>"

definition exit_with :: "int \<Rightarrow> string \<Rightarrow> outcome" where
  "exit_with code out = \<lparr>out_Code = code, out_Out = out, out_Err = []\<rparr>"

definition choose_lang :: "(string \<Rightarrow> string) \<Rightarrow> string \<Rightarrow> string + lang" where
  "choose_lang getenv l =
     (if l \<noteq> [] then
        (case i18n_Parse l of (v, ok) \<Rightarrow>
           if ok then Inr v else Inl (''unsupported language '' @ go_quote l @ '' (use en or fa)''))
      else Inr (Detect getenv))"

text \<open>Merging a presets and a signatures file; a missing file is fine when it is optional.\<close>

definition merge_presets :: "cli_env \<Rightarrow> string \<Rightarrow> bool \<Rightarrow> preset_set \<Rightarrow> string + preset_set" where
  "merge_presets e path optional s =
     map_sum preset_error_text id (presets_MergeFile (ce_decode_presets e) s path (ce_read_presets e path) optional)"

definition merge_sigs :: "cli_env \<Rightarrow> string \<Rightarrow> bool \<Rightarrow> sig_set \<Rightarrow> string + sig_set" where
  "merge_sigs e path optional s =
     map_sum sig_error_text id (sig_MergeFile (ce_decode_sigs e) s path (ce_read_sigs e path) optional)"

definition user_files :: "cli_env \<Rightarrow> string + preset_set \<times> sig_set" where
  "user_files e =
     (case ce_ConfigDir e of
        None \<Rightarrow> Inr (ce_presets e, ce_sigs e)
      | Some dir \<Rightarrow>
          if ce_getenv e ''CHERA_NO_USER_CONFIG'' \<noteq> [] then Inr (ce_presets e, ce_sigs e)
          else (case merge_presets e (ce_Join e [dir, ''chera'', ''presets.yaml'']) True (ce_presets e) of
              Inl err \<Rightarrow> Inl err
            | Inr s \<Rightarrow>
                (case merge_sigs e (ce_Join e [dir, ''chera'', ''signatures.yaml'']) True (ce_sigs e) of
                   Inl err \<Rightarrow> Inl err
                 | Inr g \<Rightarrow> Inr (s, g))))"

definition load_files :: "cli_env \<Rightarrow> options_cli \<Rightarrow> string + preset_set \<times> sig_set" where
  "load_files e opts =
     (case user_files e of
        Inl err \<Rightarrow> Inl err
      | Inr (s, g) \<Rightarrow>
          (case (if oc_PresetsFile opts \<noteq> [] then merge_presets e (oc_PresetsFile opts) False s else Inr s) of
             Inl err \<Rightarrow> Inl err
           | Inr s' \<Rightarrow>
               (case (if oc_SignaturesFile opts \<noteq> [] then merge_sigs e (oc_SignaturesFile opts) False g else Inr g) of
                  Inl err \<Rightarrow> Inl err
                | Inr g' \<Rightarrow> Inr (s', g'))))"

definition list_line :: "preset_set \<Rightarrow> string \<Rightarrow> string" where
  "list_line s name =
     (let n = (case presets_Resolve s name of Inl e \<Rightarrow> 0 | Inr ts \<Rightarrow> length ts);
          count = digits_of n;
          desc = (case map_of (ps_Presets s) name of None \<Rightarrow> [] | Some p \<Rightarrow> pr_Description p)
      in (if name = ps_Default s then ''*'' else '' '') @ '' '' @ left 12 name @ '' ''
         @ replicate (2 - length count) (CHR '' '') @ count @ '' targets  '' @ desc)"

fun parse_targets :: "(string \<Rightarrow> goerr + url) \<Rightarrow> preset_set \<Rightarrow> string list \<Rightarrow> target list \<Rightarrow> string + target list" where
  "parse_targets parse s [] ts = Inr ts"
| "parse_targets parse s (a # as) ts =
     (case ParseTarget parse s a of Inl err \<Rightarrow> Inl err | Inr t \<Rightarrow> parse_targets parse s as (ts @ [t]))"

definition choose_targets :: "(string \<Rightarrow> goerr + url) \<Rightarrow> preset_set \<Rightarrow> options_cli \<Rightarrow> string + target list" where
  "choose_targets parse s opts =
     (if 0 < length (oc_Targets opts) then parse_targets parse s (oc_Targets opts) []
      else map_sum preset_error_text id
             (presets_Resolve s (if oc_Preset opts = [] then ps_Default s else oc_Preset opts)))"

text \<open>The zero value of the configuration, before the literal of \<^verbatim>\<open>buildConfig\<close> sets its fields.\<close>

definition zero_config :: config where
  "zero_config =
     \<lparr>cfg_Timeout = 0, cfg_Concurrency = 0, cfg_Dialer = None, cfg_ProxyInUse = False, cfg_Signatures = None,
      cfg_Version = [], cfg_Speed = False, cfg_Resolvers = \<lparr>rs_System = None, rs_Public = [], rs_DoH = []\<rparr>,
      cfg_InterceptionProbe = [], cfg_Port = 0, cfg_NeutralSNI = [], cfg_MaxAddrs = 0, cfg_Local = None,
      cfg_HTTPClient = None, cfg_SpeedBaselineURL = [], cfg_ControlName = []\<rparr>"

definition proxy_dialer :: "(string \<Rightarrow> goerr + url) \<Rightarrow> options_cli \<Rightarrow> config \<Rightarrow> goerr + config" where
  "proxy_dialer parse opts cfg =
     (if oc_Proxy opts \<noteq> [] then
        (case ParseProxy parse (oc_Proxy opts) of
           Inl err \<Rightarrow> Inl err
         | Inr u \<Rightarrow> Inr (cfg\<lparr>cfg_Dialer := Some (GivenDialer (oc_Proxy opts)), cfg_ProxyInUse := True\<rparr>))
      else Inr (cfg\<lparr>cfg_Dialer := Some (DirectDialer (oc_Timeout opts))\<rparr>))"

definition buildConfig :: "cli_env \<Rightarrow> options_cli \<Rightarrow> sig_set \<Rightarrow> goerr + config" where
  "buildConfig e opts g =
     (let cfg = zero_config\<lparr>cfg_Timeout := oc_Timeout opts, cfg_Concurrency := oc_Concurrency opts,
            cfg_Signatures := Some g, cfg_Version := ce_version e, cfg_Speed := oc_Speed opts\<rparr>
      in case proxy_dialer (ce_parse_url e) opts cfg of
           Inl err \<Rightarrow> Inl err
         | Inr cfg' \<Rightarrow> ApplyDefaults (ce_parse_url e) (ce_world e) (ce_sigs e) cfg' (oc_Resolver opts))"

fun exit_code :: "target_report list \<Rightarrow> int" where
  "exit_code [] = ExitOK"
| "exit_code (t # ts) = (if tr_Verdict t \<noteq> OK then ExitProblems else exit_code ts)"

definition render :: "cli_env \<Rightarrow> options_cli \<Rightarrow> catalog \<Rightarrow> report \<Rightarrow> outcome" where
  "render e opts cat rep =
     (if oc_JSON opts then
        (case report_JSON (ce_encode e) rep cat of
           Inl err \<Rightarrow> usage_error err
         | Inr json \<Rightarrow> exit_with (exit_code (rep_Targets rep)) json)
      else if oc_Markdown opts then
        exit_with (exit_code (rep_Targets rep)) (report_Markdown (ce_fmt_time e) rep cat)
      else (let color = \<not> oc_NoColor opts \<and> (case ce_stdout e of None \<Rightarrow> False
                  | Some stat \<Rightarrow> ColorEnabled stat (ce_goos e) (ce_getenv e))
            in exit_with (exit_code (rep_Targets rep))
                 (report_Text (ce_zero_width e) rep cat \<lparr>op_Color = color, op_Verbose = oc_Verbose opts\<rparr>)))"

text \<open>\<^verbatim>\<open>Main\<close> up to the run: an outcome without one, or what the run is called with.\<close>

definition prepare :: "cli_env \<Rightarrow> string list \<Rightarrow> outcome + options_cli \<times> lang \<times> config \<times> target list" where
  "prepare e args =
     (case ParseArgs (ce_std e) args of
        (errOut, Inl UsageHelp) \<Rightarrow> Inl \<lparr>out_Code = ExitOK, out_Out = [], out_Err = errOut\<rparr>
      | (errOut, Inl (UsageError msg)) \<Rightarrow>
          Inl \<lparr>out_Code = ExitUsage, out_Out = [], out_Err = errOut @ written [''chera: '' @ msg]\<rparr>
      | (errOut, Inr opts) \<Rightarrow>
          if oc_Version opts then Inl (exit_with ExitOK (written [''chera '' @ ce_version e]))
          else (case choose_lang (ce_getenv e) (oc_Lang opts) of
              Inl msg \<Rightarrow> Inl (usage_error msg)
            | Inr l \<Rightarrow>
                (case load_files e opts of
                   Inl err \<Rightarrow> Inl (usage_error err)
                 | Inr (s, g) \<Rightarrow>
                     if oc_ListPresets opts then Inl (exit_with ExitOK (written (map (list_line s) (Names s))))
                     else (case choose_targets (ce_parse_url e) s opts of
                         Inl err \<Rightarrow> Inl (usage_error err)
                       | Inr targets \<Rightarrow>
                           if length targets = 0
                           then Inl (usage_error (cat_T (i18n_New l) ''error.no_targets'' Map.empty))
                           else (case buildConfig e opts g of
                               Inl err \<Rightarrow> Inl (usage_error (err_text err))
                             | Inr cfg \<Rightarrow> Inr (opts, l, cfg, targets))))))"

text \<open>The run and what follows it.\<close>

definition run_cli :: "cli_env \<Rightarrow> options_cli \<Rightarrow> catalog \<Rightarrow> config \<Rightarrow> target list \<Rightarrow> outcome" where
  "run_cli e opts cat cfg targets =
     (let rep = ce_Run e cfg targets in
      if ce_interrupted e
      then \<lparr>out_Code = ExitInterrupted, out_Out = [], out_Err = written [''chera: interrupted'']\<rparr>
      else render e opts cat rep)"

definition Main :: "cli_env \<Rightarrow> string list \<Rightarrow> outcome" where
  "Main e args =
     (case prepare e args of
        Inl out \<Rightarrow> out
      | Inr (opts, l, cfg, targets) \<Rightarrow> run_cli e opts (i18n_New l) cfg targets)"

text \<open>\<^verbatim>\<open>Version\<close>, given the build information: the module version, if there is any.\<close>

definition Version :: "string \<Rightarrow> string option \<Rightarrow> string" where
  "Version version info =
     (if version \<noteq> ''dev'' then version
      else (case info of
          Some v \<Rightarrow> if v \<noteq> [] \<and> v \<noteq> ''(devel)'' then v else version
        | None \<Rightarrow> version))"

section \<open>Properties of the command\<close>

text \<open>What a command line asks for instead: help, the version, or the list of presets.\<close>

definition asks_text :: "cli_env \<Rightarrow> string list \<Rightarrow> bool" where
  "asks_text e args =
     (case snd (ParseArgs (ce_std e) args) of
        Inl u \<Rightarrow> u = UsageHelp
      | Inr opts \<Rightarrow> oc_Version opts
          \<or> oc_ListPresets opts \<and> isl (choose_lang (ce_getenv e) (oc_Lang opts)) = False \<and> isl (load_files e opts) = False)"

lemma exit_code_cases: "exit_code ts = (if list_all (\<lambda>t. tr_Verdict t = OK) ts then ExitOK else ExitProblems)"
  by (induction ts) auto

lemmas exit_defs = ExitOK_def ExitProblems_def ExitUsage_def ExitInterrupted_def

text \<open>The stages a command line has to pass for a diagnosis, each on its own.\<close>

definition stages ::
  "cli_env \<Rightarrow> string list \<Rightarrow> options_cli \<Rightarrow> lang \<Rightarrow> preset_set \<Rightarrow> sig_set \<Rightarrow> target list \<Rightarrow> config \<Rightarrow> bool" where
  "stages e args opts l s g ts cfg \<longleftrightarrow>
     snd (ParseArgs (ce_std e) args) = Inr opts \<and> \<not> oc_Version opts \<and> \<not> oc_ListPresets opts
     \<and> choose_lang (ce_getenv e) (oc_Lang opts) = Inr l \<and> load_files e opts = Inr (s, g)
     \<and> choose_targets (ce_parse_url e) s opts = Inr ts \<and> ts \<noteq> [] \<and> buildConfig e opts g = Inr cfg"

lemma prepare_Inr: "prepare e args = Inr (opts, l, cfg, ts) \<longleftrightarrow> (\<exists>s g. stages e args opts l s g ts cfg)"
  by (cases "ParseArgs (ce_std e) args")
    (auto simp: prepare_def stages_def split: sum.splits usage.splits prod.splits if_splits)

lemma ParseArgs_written: "ParseArgs sd args = (w, Inr opts) \<Longrightarrow> w = []"
  by (auto simp: ParseArgs_def split: sum.splits)

lemma check_opts_not_help: "check_opts opts \<noteq> Inl UsageHelp"
  by (simp add: check_opts_def)

lemma usage_text_Nil [simp]: "usage_text \<noteq> []" "written (x # xs) \<noteq> []"
  by (simp_all add: usage_text_def usage_head_def written_def)

text \<open>The outcomes without a diagnosis: a text that was asked for, or a message.\<close>

lemma prepare_Inl:
  assumes "prepare e args = Inl out"
  shows "if asks_text e args
    then out_Code out = ExitOK \<and> (if snd (ParseArgs (ce_std e) args) = Inl UsageHelp
           then out_Out out = [] \<and> out_Err out = usage_text else out_Err out = [])
    else out_Code out = ExitUsage \<and> out_Out out = [] \<and> out_Err out \<noteq> []"
proof -
  obtain w r where p: "ParseArgs (ce_std e) args = (w, r)" by fastforce
  show ?thesis
  proof (cases r)
    case (Inl u)
    have "w = usage_text" if "u = UsageHelp"
      using p Inl that check_opts_not_help by (auto simp: ParseArgs_def split: sum.splits)
    with assms p Inl show ?thesis by (cases u) (auto simp: prepare_def asks_text_def)
  next
    case (Inr opts)
    with assms p show ?thesis
      by (auto simp: prepare_def asks_text_def usage_error_def exit_with_def split: sum.splits prod.splits if_splits)
  qed
qed

lemma render_outcome:
  "render e opts c rep =
     (case (if oc_JSON opts then report_JSON (ce_encode e) rep c else Inr []) of
        Inl err \<Rightarrow> usage_error err
      | Inr j \<Rightarrow> exit_with (exit_code (rep_Targets rep)) (out_Out (render e opts c rep)))"
  by (auto simp: render_def exit_with_def Let_def split: sum.split)

lemma run_cli_outcome:
  "run_cli e opts (i18n_New l) cfg ts =
     (if ce_interrupted e
      then \<lparr>out_Code = ExitInterrupted, out_Out = [], out_Err = written [''chera: interrupted'']\<rparr>
      else (case (if oc_JSON opts then report_JSON (ce_encode e) (ce_Run e cfg ts) (i18n_New l) else Inr []) of
          Inl err \<Rightarrow> usage_error err
        | Inr j \<Rightarrow> exit_with (exit_code (rep_Targets (ce_Run e cfg ts)))
                    (out_Out (render e opts (i18n_New l) (ce_Run e cfg ts)))))"
  unfolding run_cli_def Let_def by (simp only: render_outcome [symmetric])

lemma run_cli_code:
  "out_Code (run_cli e opts (i18n_New l) cfg ts) =
     (if ce_interrupted e then 130
      else if oc_JSON opts \<and> isl (report_JSON (ce_encode e) (ce_Run e cfg ts) (i18n_New l)) then 2
      else if list_all (\<lambda>t. tr_Verdict t = OK) (rep_Targets (ce_Run e cfg ts)) then 0 else 1)"
  "out_Err (run_cli e opts (i18n_New l) cfg ts) = [] \<longleftrightarrow> out_Code (run_cli e opts (i18n_New l) cfg ts) \<in> {0, 1}"
  "out_Out (run_cli e opts (i18n_New l) cfg ts) = [] \<or> out_Err (run_cli e opts (i18n_New l) cfg ts) = []"
  unfolding run_cli_outcome
  by (cases "report_JSON (ce_encode e) (ce_Run e cfg ts) (i18n_New l)";
      auto simp: usage_error_def exit_with_def exit_code_cases exit_defs)+

text \<open>
  Claim C16. The exit code tells what happened. A command line that starts no diagnosis ends with
  0 if it asks for help, the version or the list of presets, and with 2 otherwise. One that starts one
  ends with 130 if it was interrupted, with 2 if its JSON could not be encoded, and otherwise
  with 0 when every target of the report is OK and 1 when some target is not. The two outputs are never both
  used. Nothing is written to the error output exactly with 0 and 1, except for the usage text,
  which help prints there: help writes it and nothing else, and a bad flag writes its message, the usage text
  and the message again with the name of the program.
\<close>

theorem Main_exit:
  "out_Code (Main e args) =
     (case prepare e args of
        Inl out \<Rightarrow> if asks_text e args then 0 else 2
      | Inr (opts, l, cfg, ts) \<Rightarrow>
          if ce_interrupted e then 130
          else if oc_JSON opts \<and> isl (report_JSON (ce_encode e) (ce_Run e cfg ts) (i18n_New l)) then 2
          else if list_all (\<lambda>t. tr_Verdict t = OK) (rep_Targets (ce_Run e cfg ts)) then 0 else 1)
   \<and> (out_Err (Main e args) = [] \<longleftrightarrow>
        out_Code (Main e args) \<in> {0, 1} \<and> snd (ParseArgs (ce_std e) args) \<noteq> Inl UsageHelp)
   \<and> (out_Out (Main e args) = [] \<or> out_Err (Main e args) = [])
   \<and> (case args_loop (ce_std e) args flag_defaults of
        Inl UsageHelp \<Rightarrow> Main e args = \<lparr>out_Code = 0, out_Out = [], out_Err = usage_text\<rparr>
      | Inl (UsageError msg) \<Rightarrow> Main e args =
          \<lparr>out_Code = 2, out_Out = [], out_Err = written [msg] @ usage_text @ written [''chera: '' @ msg]\<rparr>
      | Inr opts \<Rightarrow> True)"
proof (intro conjI)
  have flag: "Main e args = \<lparr>out_Code = (if u = UsageHelp then 0 else 2), out_Out = [],
      out_Err = flag_errOut u @ (case u of UsageHelp \<Rightarrow> [] | UsageError msg \<Rightarrow> written [''chera: '' @ msg])\<rparr>"
    if "args_loop (ce_std e) args flag_defaults = Inl u" for u
    using that by (cases u) (simp_all add: Main_def prepare_def ParseArgs_def exit_defs)
  show "case args_loop (ce_std e) args flag_defaults of
      Inl UsageHelp \<Rightarrow> Main e args = \<lparr>out_Code = 0, out_Out = [], out_Err = usage_text\<rparr>
    | Inl (UsageError msg) \<Rightarrow> Main e args =
        \<lparr>out_Code = 2, out_Out = [], out_Err = written [msg] @ usage_text @ written [''chera: '' @ msg]\<rparr>
    | Inr opts \<Rightarrow> True"
    using flag by (auto split: sum.split usage.split)
  have run: "snd (ParseArgs (ce_std e) args) \<noteq> Inl UsageHelp" if "prepare e args = Inr p" for p
    using that by (cases p) (auto simp: prepare_Inr stages_def)
  show "out_Code (Main e args) =
     (case prepare e args of
        Inl out \<Rightarrow> if asks_text e args then 0 else 2
      | Inr (opts, l, cfg, ts) \<Rightarrow>
          if ce_interrupted e then 130
          else if oc_JSON opts \<and> isl (report_JSON (ce_encode e) (ce_Run e cfg ts) (i18n_New l)) then 2
          else if list_all (\<lambda>t. tr_Verdict t = OK) (rep_Targets (ce_Run e cfg ts)) then 0 else 1)"
    using prepare_Inl [of e args] run_cli_code
    by (auto simp: Main_def exit_defs split: sum.split prod.split if_splits)
  show "out_Err (Main e args) = [] \<longleftrightarrow>
      out_Code (Main e args) \<in> {0, 1} \<and> snd (ParseArgs (ce_std e) args) \<noteq> Inl UsageHelp"
    using prepare_Inl [of e args] run run_cli_code
    by (cases "prepare e args") (auto simp: Main_def exit_defs asks_text_def split: prod.splits if_splits)
  show "out_Out (Main e args) = [] \<or> out_Err (Main e args) = []"
  proof (cases "prepare e args")
    case (Inl out)
    with prepare_Inl [OF Inl] show ?thesis by (auto simp: Main_def split: if_splits)
  next
    case (Inr p)
    then show ?thesis using run_cli_code(3) by (cases p) (simp add: Main_def)
  qed
qed

lemma ApplyDefaults_keeps:
  assumes "ApplyDefaults parse w b cfg resolver = Inr cfg'"
  shows "fillDefaults b cfg' = cfg'" "cfg_Timeout cfg' = cfg_Timeout (fillDefaults b cfg)"
    "cfg_Concurrency cfg' = cfg_Concurrency (fillDefaults b cfg)" "cfg_ProxyInUse cfg' = cfg_ProxyInUse cfg"
    "cfg_Dialer cfg' = cfg_Dialer (fillDefaults b cfg)" "cfg_Speed cfg' = cfg_Speed cfg"
    "cfg_Local cfg' \<noteq> None" "cfg_Signatures cfg' = cfg_Signatures (fillDefaults b cfg)"
proof -
  from assms obtain rs where cfg': "cfg' = fill_Local (fill_InterceptionProbe ((fillDefaults b cfg)\<lparr>cfg_Resolvers := rs\<rparr>))"
    by (auto simp: ApplyDefaults_def Let_def split: sum.splits)
  note f = filled_config [where rs = rs, OF fillDefaults_idem [of b cfg], folded cfg']
  show "fillDefaults b cfg' = cfg'" "cfg_Local cfg' \<noteq> None" using f by blast+
  show "cfg_Timeout cfg' = cfg_Timeout (fillDefaults b cfg)"
    "cfg_Concurrency cfg' = cfg_Concurrency (fillDefaults b cfg)" "cfg_ProxyInUse cfg' = cfg_ProxyInUse cfg"
    "cfg_Dialer cfg' = cfg_Dialer (fillDefaults b cfg)" "cfg_Speed cfg' = cfg_Speed cfg"
    "cfg_Signatures cfg' = cfg_Signatures (fillDefaults b cfg)"
    unfolding cfg' fill_Local_def fill_InterceptionProbe_def
    by (simp_all add: fillDefaults_sel(11,13) del: fillDefaults_fields)
qed

lemma buildConfig_keeps:
  assumes "buildConfig e opts g = Inr cfg" and "0 < oc_Timeout opts" and "1 \<le> oc_Concurrency opts"
  shows "fillDefaults (ce_sigs e) cfg = cfg" "cfg_Timeout cfg = oc_Timeout opts" "cfg_Local cfg \<noteq> None"
    "cfg_Concurrency cfg = oc_Concurrency opts" "cfg_ProxyInUse cfg = (oc_Proxy opts \<noteq> [])"
    "cfg_Dialer cfg = Some (if oc_Proxy opts = [] then DirectDialer (oc_Timeout opts) else GivenDialer (oc_Proxy opts))"
    "cfg_Speed cfg = oc_Speed opts" "cfg_Signatures cfg = Some g"
proof -
  let ?c0 = "zero_config\<lparr>cfg_Timeout := oc_Timeout opts, cfg_Concurrency := oc_Concurrency opts,
    cfg_Signatures := Some g, cfg_Version := ce_version e, cfg_Speed := oc_Speed opts\<rparr>"
  from assms(1) obtain c1 where c1: "proxy_dialer (ce_parse_url e) opts ?c0 = Inr c1"
    and a: "ApplyDefaults (ce_parse_url e) (ce_world e) (ce_sigs e) c1 (oc_Resolver opts) = Inr cfg"
    by (auto simp: buildConfig_def Let_def split: sum.splits)
  have c1': "cfg_Timeout c1 = oc_Timeout opts" "cfg_Concurrency c1 = oc_Concurrency opts" "cfg_Speed c1 = oc_Speed opts"
    "cfg_Signatures c1 = Some g" "cfg_ProxyInUse c1 = (oc_Proxy opts \<noteq> [])"
    "cfg_Dialer c1 = Some (if oc_Proxy opts = [] then DirectDialer (oc_Timeout opts) else GivenDialer (oc_Proxy opts))"
    using c1 by (auto simp: proxy_dialer_def zero_config_def split: if_splits sum.splits)
  note k = ApplyDefaults_keeps [OF a] and s = fillDefaults_sel [of "ce_sigs e" c1]
  show "fillDefaults (ce_sigs e) cfg = cfg" "cfg_Local cfg \<noteq> None" by (rule k)+
  show "cfg_Timeout cfg = oc_Timeout opts" using k(2) s(1) c1' assms(2) by simp
  show "cfg_Concurrency cfg = oc_Concurrency opts" using k(3) s(2) c1' assms(3) by simp
  show "cfg_ProxyInUse cfg = (oc_Proxy opts \<noteq> [])" using k(4) c1' by simp
  show "cfg_Dialer cfg = Some (if oc_Proxy opts = [] then DirectDialer (oc_Timeout opts) else GivenDialer (oc_Proxy opts))"
    using k(5) s(3) c1' by simp
  show "cfg_Speed cfg = oc_Speed opts" using k(6) c1' by simp
  show "cfg_Signatures cfg = Some g" using k(8) s(4) c1' by simp
qed

lemma ParseArgs_ok:
  assumes "snd (ParseArgs sd args) = Inr opts"
  shows "0 < oc_Timeout opts" "1 \<le> oc_Concurrency opts" "oc_Concurrency opts \<le> 64"
    "\<not> (oc_JSON opts \<and> oc_Markdown opts)" "oc_Preset opts = [] \<or> oc_Targets opts = []"
  using assms by (auto simp: ParseArgs_def check_opts_def split: sum.splits if_splits)

lemma parse_targets_iff:
  "parse_targets parse s as acc = Inr ts \<longleftrightarrow>
     (\<exists>ts'. ts = acc @ ts' \<and> list_all2 (\<lambda>a t. ParseTarget parse s a = Inr t) as ts')"
proof (induction "as" arbitrary: acc)
  case (Cons a as)
  show ?case
  proof (cases "ParseTarget parse s a")
    case (Inl err)
    then show ?thesis by (auto simp: list_all2_Cons1)
  next
    case (Inr t)
    then show ?thesis using Cons.IH [of "acc @ [t]"] by (auto simp: list_all2_Cons1)
  qed
qed auto

lemma choose_targets_iff:
  "choose_targets parse s opts = Inr ts \<longleftrightarrow>
     (if oc_Targets opts = []
      then presets_Resolve s (if oc_Preset opts = [] then ps_Default s else oc_Preset opts) = Inr ts
      else list_all2 (\<lambda>a t. ParseTarget parse s a = Inr t) (oc_Targets opts) ts)"
  by (cases "presets_Resolve s (if oc_Preset opts = [] then ps_Default s else oc_Preset opts)")
    (auto simp: choose_targets_def parse_targets_iff)

text \<open>Nothing before the run depends on what it would report.\<close>

lemma before_run:
  "load_files (e\<lparr>ce_Run := run\<rparr>) opts = load_files e opts" "buildConfig (e\<lparr>ce_Run := run\<rparr>) opts g = buildConfig e opts g"
  by (simp_all add: load_files_def user_files_def merge_presets_def merge_sigs_def buildConfig_def
      cong del: if_weak_cong option.case_cong_weak sum.case_cong_weak prod.case_cong_weak)

lemma render_run: "render (e\<lparr>ce_Run := run\<rparr>) = render e"
  by (intro ext) (simp add: render_def Let_def
      cong del: if_weak_cong option.case_cong_weak sum.case_cong_weak)

lemma prepare_run: "prepare (e\<lparr>ce_Run := run\<rparr>) args = prepare e args"
  by (simp add: prepare_def before_run
      cong del: if_weak_cong option.case_cong_weak sum.case_cong_weak prod.case_cong_weak usage.case_cong_weak)

text \<open>
  Claim C27. When a diagnosis starts, and with what. Whatever a run would do: without all the stages the
  command line has to pass, \<open>Main\<close> returns without calling it; otherwise its outcome is a function of one
  call, with the targets and the configuration of these stages. There is at least one target; they
  are the ones of the arguments, one for each in order, or the expansion of the preset asked for,
  or of the default one. The configuration is complete: filling its defaults changes nothing, it has the
  loaded signatures, the timeout and the number of targets at a time are the ones of the command line and
  within their bounds, the local check is on, and connections go through the proxy exactly when
  one was given. The two machine formats, and a preset and hosts, never come together.
\<close>

theorem diagnosis_config:
  "(case prepare e args of
      Inl out \<Rightarrow> Main (e\<lparr>ce_Run := run\<rparr>) args = out \<and> \<not> (\<exists>opts l s g ts cfg. stages e args opts l s g ts cfg)
    | Inr (opts, l, cfg, ts) \<Rightarrow>
        Main (e\<lparr>ce_Run := run\<rparr>) args =
          (if ce_interrupted e
           then \<lparr>out_Code = ExitInterrupted, out_Out = [], out_Err = written [''chera: interrupted'']\<rparr>
           else render e opts (i18n_New l) (run cfg ts))
        \<and> ts \<noteq> []
        \<and> (\<exists>s g. load_files e opts = Inr (s, g) \<and> cfg_Signatures cfg = Some g
             \<and> (if oc_Targets opts = []
                then presets_Resolve s (if oc_Preset opts = [] then ps_Default s else oc_Preset opts) = Inr ts
                else list_all2 (\<lambda>a t. ParseTarget (ce_parse_url e) s a = Inr t) (oc_Targets opts) ts))
        \<and> fillDefaults (ce_sigs e) cfg = cfg \<and> cfg_Local cfg \<noteq> None
        \<and> cfg_Timeout cfg = oc_Timeout opts \<and> 0 < cfg_Timeout cfg
        \<and> cfg_Concurrency cfg = oc_Concurrency opts \<and> 1 \<le> cfg_Concurrency cfg \<and> cfg_Concurrency cfg \<le> 64
        \<and> cfg_ProxyInUse cfg = (oc_Proxy opts \<noteq> []) \<and> cfg_Speed cfg = oc_Speed opts
        \<and> cfg_Dialer cfg = Some (if oc_Proxy opts = [] then DirectDialer (oc_Timeout opts) else GivenDialer (oc_Proxy opts))
        \<and> \<not> (oc_JSON opts \<and> oc_Markdown opts) \<and> \<not> (oc_Preset opts \<noteq> [] \<and> oc_Targets opts \<noteq> []))"
proof (cases "prepare e args")
  case (Inl out)
  then have "\<not> (\<exists>opts l s g ts cfg. stages e args opts l s g ts cfg)"
    using prepare_Inr [of e args] by fastforce
  then show ?thesis by (simp add: Inl Main_def prepare_run)
next
  case (Inr p)
  obtain opts l cfg ts where p: "p = (opts, l, cfg, ts)" by (cases p)
  obtain s g where st: "stages e args opts l s g ts cfg" using Inr p prepare_Inr by blast
  then have parsed: "snd (ParseArgs (ce_std e) args) = Inr opts" and b: "buildConfig e opts g = Inr cfg"
    and ts: "ts \<noteq> []" and lf: "load_files e opts = Inr (s, g)" and ch: "choose_targets (ce_parse_url e) s opts = Inr ts"
    by (simp_all add: stages_def)
  note ok = ParseArgs_ok [OF parsed]
  note k = buildConfig_keeps [OF b ok(1,2)]
  have "Main (e\<lparr>ce_Run := run\<rparr>) args =
      (if ce_interrupted e
       then \<lparr>out_Code = ExitInterrupted, out_Out = [], out_Err = written [''chera: interrupted'']\<rparr>
       else render e opts (i18n_New l) (run cfg ts))"
    by (simp add: Main_def prepare_run Inr p run_cli_def render_run Let_def)
  then show ?thesis
    unfolding Inr p sum.case prod.case
    using ts ok k lf ch [unfolded choose_targets_iff] by auto
qed

text \<open>
  Claim C38. The target of an argument. From a URL, one that parses, with the scheme https, a host
  and no port but 443: what the presets know of the host, if they know it, with the host in lower case and the
  argument as the URL. Otherwise from a name, which is not empty and holds none of the characters
  of a URL: the target the presets have for this host, or if they have none, one with just the
  host in lower case. Known is the first target with this host, up to case, in the order of the
  names of the presets. Every other argument is refused, with a message that names the first fault.
\<close>

theorem ParseTarget_spec:
  "(let a = trim_space arg; host = to_lower (trim_suffix a ''.'') in
    case ParseTarget parse s arg of
      Inr t \<Rightarrow>
        (if str_contains a ''://''
         then (\<exists>u. parse a = Inr u \<and> url_Scheme u = ''https'' \<and> url_Port u \<in> {[], ''443''} \<and> url_Hostname u \<noteq> []
                \<and> t = (case known_target s (url_Hostname u) of None \<Rightarrow> no_target | Some k \<Rightarrow> k)
                       \<lparr>target_Host := to_lower (url_Hostname u), target_URL := a\<rparr>)
         else host \<noteq> [] \<and> list_all (\<lambda>c. c \<notin> set '' /:@?#'') host
           \<and> t = (case known_target s host of None \<Rightarrow> no_target\<lparr>target_Host := host\<rparr> | Some k \<Rightarrow> k))
    | Inl err \<Rightarrow>
        (if str_contains a ''://''
         then (case parse a of Inl e \<Rightarrow> err = ''invalid URL '' @ go_quote a
               | Inr u \<Rightarrow>
                   (url_Hostname u = [] \<and> err = ''invalid URL '' @ go_quote a)
                   \<or> (url_Hostname u \<noteq> [] \<and> url_Scheme u \<noteq> ''https''
                      \<and> err = ''only https URLs are supported: '' @ go_quote a)
                   \<or> (url_Hostname u \<noteq> [] \<and> url_Scheme u = ''https'' \<and> url_Port u \<notin> {[], ''443''}
                      \<and> err = ''only port 443 is supported: '' @ go_quote a))
         else (host = [] \<or> list_ex (\<lambda>c. c \<in> set '' /:@?#'') host) \<and> err = ''invalid host '' @ go_quote a))"
proof (cases "str_contains (trim_space arg) ''://''")
  case True
  show ?thesis
  proof (cases "parse (trim_space arg)")
    case (Inr u)
    have "fst (presets_Lookup s (url_Hostname u)) =
        (case known_target s (url_Hostname u) of None \<Rightarrow> no_target | Some k \<Rightarrow> k)"
      by (simp add: Lookup_first split: option.split)
    with True Inr show ?thesis by (simp add: ParseTarget_def Let_def)
  qed (use True in \<open>simp add: ParseTarget_def Let_def\<close>)
next
  case False
  let ?host = "to_lower (trim_suffix (trim_space arg) ''.'')"
  show ?thesis
  proof (cases "?host = [] \<or> contains_any ?host '' /:@?#''")
    case True
    with False show ?thesis by (auto simp: ParseTarget_def Let_def contains_any_def)
  next
    case no: False
    then have all: "list_all (\<lambda>c. c \<notin> set '' /:@?#'') ?host"
      by (simp only: contains_any_def list_all_iff list_ex_iff) blast
    have "ParseTarget parse s arg = Inr (case known_target s ?host of None \<Rightarrow> no_target\<lparr>target_Host := ?host\<rparr> | Some k \<Rightarrow> k)"
      unfolding ParseTarget_def Let_def if_not_P [OF False] if_not_P [OF no] Lookup_first
      by (simp split: option.split)
    with False no all show ?thesis unfolding Let_def by simp
  qed
qed

section \<open>The command and the run\<close>

text \<open>What one run of \<^verbatim>\<open>probe.New(cfg).Run\<close> can report: the report some complete schedule ends with.\<close>

definition run_report :: "sig_set \<Rightarrow> run_env \<Rightarrow> config \<Rightarrow> target list \<Rightarrow> report \<Rightarrow> bool" where
  "run_report b renv cfg ts r \<longleftrightarrow>
     (\<exists>es s. exec_all (fillDefaults b cfg) renv ts es (init_state (fillDefaults b cfg) ts) = Some s
        \<and> complete s \<and> r = final_report (fillDefaults b cfg) renv ts s)"

lemma run_report_iff: "run_report b renv cfg ts r \<longleftrightarrow> r = report_spec (fillDefaults b cfg) renv ts"
proof -
  have only: "r = report_spec (fillDefaults b cfg) renv ts" if "run_report b renv cfg ts r" for r
    using that final_report_spec by (auto simp: run_report_def)
  moreover have "\<exists>r. run_report b renv cfg ts r"
    using run_completes [OF sem_inv_init, of "fillDefaults b cfg" renv ts]
    by (auto simp: run_report_def fillDefaults_sel)
  ultimately show ?thesis by blast
qed

text \<open>The service of a target was seen to work: what \<open>OK\<close> stands for.\<close>

definition seen_working :: "config \<Rightarrow> run_env \<Rightarrow> target \<Rightarrow> bool" where
  "seen_working cfg renv t \<longleftrightarrow>
     (let st = seq_run cfg renv t; inp = verdict_input cfg (final_shared cfg renv) st in
      \<not> dns_problem inp \<and> \<not> throttled inp
      \<and> (\<exists>tr h. rn_tls st = Some tr \<and> hs_Outcome (tls_Real tr) = TlsOK \<and> issuer_match inp (tls_Real tr) = []
           \<and> rn_http st = Some h \<and> hr_Class h = HttpOK))"

lemma reported_verdict:
  "tr_Verdict (the (report_of cfg renv i t)) =
     d_Verdict (Decide (verdict_input cfg (final_shared cfg renv) (seq_run cfg renv t)))"
  using evidence_total [of "final_shared cfg renv" cfg "re_net renv" t no_shared]
  by (auto simp: report_of_def run_decide_def seq_run_def Let_def)

lemma reported_OK: "tr_Verdict (the (report_of cfg renv i t)) = OK \<longleftrightarrow> seen_working cfg renv t"
  unfolding reported_verdict seen_working_def Let_def seq_run_def
  using checkTarget_OK_iff [of cfg "final_shared cfg renv" "re_net renv" t no_shared] by blast

text \<open>
  Claim C40. What exit code 0 of a diagnosis promises, from the command line to the network. When the run is one of
  \<^verbatim>\<open>probe.New(cfg).Run\<close>, however its goroutines interleave, the command ends with 0 exactly when
  it was not interrupted, its JSON could be written and every single target was seen to work: its
  names resolved without a problem, the handshake verified its certificate, no middlebox
  issued it, and its request was answered normally and at normal speed.
\<close>

theorem exit_zero_iff:
  assumes "prepare e args = Inr (opts, l, cfg, ts)" and "run_report (ce_sigs e) renv cfg ts (ce_Run e cfg ts)"
  shows "out_Code (Main e args) = 0 \<longleftrightarrow>
    \<not> ce_interrupted e
    \<and> \<not> (oc_JSON opts \<and> isl (report_JSON (ce_encode e) (ce_Run e cfg ts) (i18n_New l)))
    \<and> list_all (seen_working cfg renv) ts"
proof -
  obtain s g where st: "stages e args opts l s g ts cfg" using assms(1) prepare_Inr by blast
  then have b: "buildConfig e opts g = Inr cfg" and parsed: "snd (ParseArgs (ce_std e) args) = Inr opts"
    by (simp_all add: stages_def)
  have "fillDefaults (ce_sigs e) cfg = cfg" using buildConfig_keeps(1) [OF b] ParseArgs_ok [OF parsed] by blast
  then have rep: "ce_Run e cfg ts = report_spec cfg renv ts" using assms(2) by (simp add: run_report_iff)
  have "list_all (\<lambda>it. seen_working cfg renv (snd it)) (enumerate n ts) \<longleftrightarrow> list_all (seen_working cfg renv) ts" for n
    by (induction ts arbitrary: n) auto
  then have "list_all (\<lambda>t. tr_Verdict t = OK) (rep_Targets (report_spec cfg renv ts)) \<longleftrightarrow> list_all (seen_working cfg renv) ts"
    by (simp add: report_spec_def list.pred_map comp_def reported_OK case_prod_beta)
  moreover have "out_Code (Main e args) = 0 \<longleftrightarrow> \<not> ce_interrupted e
      \<and> \<not> (oc_JSON opts \<and> isl (report_JSON (ce_encode e) (ce_Run e cfg ts) (i18n_New l)))
      \<and> list_all (\<lambda>t. tr_Verdict t = OK) (rep_Targets (ce_Run e cfg ts))"
    using run_cli_code(1) [of e opts l cfg ts] by (simp add: Main_def assms(1))
  ultimately show ?thesis using rep by simp
qed

text \<open>A machine whose name servers are all silent, and the command run on one host.\<close>

definition silent_world :: world where
  "silent_world = \<lparr>wo_System = (\<lambda>timeout host. (Inl timeout_err, 5)), wo_UDP = (\<lambda>addr timeout host. (Inl timeout_err, 5)),
     wo_DoH = (\<lambda>boot u d t timeout host. (Inl timeout_err, 5))\<rparr>"

definition sample_cli_env :: cli_env where
  "sample_cli_env =
     \<lparr>ce_std = \<lparr>sd_Duration = (\<lambda>s. Inl ''parse error''), sd_Int = (\<lambda>s. Inl ''parse error'')\<rparr>, ce_getenv = (\<lambda>v. []),
      ce_parse_url = (\<lambda>s. Inl (errors_New ''parse'')), ce_ConfigDir = None, ce_Join = concat,
      ce_presets = \<lparr>ps_Default = ''dev'', ps_Presets = []\<rparr>, ce_sigs = sample_sigs,
      ce_read_presets = PresetNotExist, ce_read_sigs = ReadNotExist, ce_decode_presets = (\<lambda>bs. Inl ''decode''),
      ce_decode_sigs = (\<lambda>bs. Inl ''decode''), ce_version = ''dev'', ce_world = silent_world,
      ce_Run = (\<lambda>cfg ts. report_spec (fillDefaults sample_sigs cfg) sample_run_env ts), ce_interrupted = False,
      ce_encode = (\<lambda>j. Inr []), ce_fmt_time = (\<lambda>t. []), ce_zero_width = (\<lambda>n. False), ce_stdout = None, ce_goos = ''linux''\<rparr>"

theorem exit_zero_iff_witness:
  "out_Code (Main sample_cli_env [''x.com'']) \<noteq> 0"
proof -
  let ?opts = "flag_defaults\<lparr>oc_Targets := [''x.com'']\<rparr>" and ?t = "no_target\<lparr>target_Host := ''x.com''\<rparr>"
  let ?built = "buildConfig sample_cli_env ?opts sample_sigs"
  have parsed: "snd (ParseArgs (ce_std sample_cli_env) [''x.com'']) = Inr ?opts" by code_simp
  have lang: "choose_lang (ce_getenv sample_cli_env) (oc_Lang ?opts) = Inr EN" by code_simp
  have files: "load_files sample_cli_env ?opts = Inr (ce_presets sample_cli_env, sample_sigs)"
    by (simp add: load_files_def user_files_def sample_cli_env_def flag_defaults_def)
  have ts: "choose_targets (ce_parse_url sample_cli_env) (ce_presets sample_cli_env) ?opts = Inr [?t]" by code_simp
  have "\<not> isl ?built" by code_simp
  then obtain cfg where cfg: "?built = Inr cfg" by (cases ?built) auto
  have "stages sample_cli_env [''x.com''] ?opts EN (ce_presets sample_cli_env) sample_sigs [?t] cfg"
    unfolding stages_def using parsed lang files ts cfg by (simp add: flag_defaults_def)
  then have p: "prepare sample_cli_env [''x.com''] = Inr (?opts, EN, cfg, [?t])" unfolding prepare_Inr by blast
  have "case ?built of Inl err \<Rightarrow> False | Inr c \<Rightarrow> rn_tls (seq_run c sample_run_env ?t) = None" by code_simp
  then have "\<not> list_all (seen_working cfg sample_run_env) [?t]"
    by (simp add: cfg seen_working_def Let_def)
  moreover have "run_report (ce_sigs sample_cli_env) sample_run_env cfg [?t] (ce_Run sample_cli_env cfg [?t])"
    by (simp add: run_report_iff sample_cli_env_def)
  ultimately show ?thesis using exit_zero_iff [OF p, of sample_run_env] by blast
qed

end
