(* ===== verification/Clients.thy ===== *)
theory Clients
  imports Cli
begin

text \<open>
  How the components build their network clients, and the entry point: the HTTP transports of
  probe.go, resolvers.go and httpcheck.go with the address they really dial, the options of the TLS
  layer, the zero values of the local checks' configuration, and the command itself
  (cmd/chera/main.go).
\<close>

section \<open>Transports\<close>

text \<open>
  The part of \<^verbatim>\<open>http.Transport\<close> the sources set: the address dialed for a requested one, through
  which dialer, TLS settings, timeouts (0 is none) and connection reuse. \<^verbatim>\<open>Proxy\<close> is nil in all
  of them, so the environment's proxy is never used, and the oldest TLS version is 1.2. The root
  certificates are part of the verification the TLS layer is given.
\<close>

record transport =
  tp_Dialer :: dialer
  tp_DialAddr :: "string \<Rightarrow> string"
  tp_SkipVerify :: bool
  tp_TLSHandshakeTimeout :: int
  tp_ResponseHeaderTimeout :: int
  tp_DisableKeepAlives :: bool
  tp_ForceHTTP2 :: bool
  tp_MaxIdlePerHost :: int
  tp_IdleConnTimeout :: int

definition plain_transport :: "dialer \<Rightarrow> (string \<Rightarrow> string) \<Rightarrow> int \<Rightarrow> transport" where
  "plain_transport d addr timeout =
     \<lparr>tp_Dialer = d, tp_DialAddr = addr, tp_SkipVerify = False, tp_TLSHandshakeTimeout = timeout,
      tp_ResponseHeaderTimeout = 0, tp_DisableKeepAlives = False, tp_ForceHTTP2 = False,
      tp_MaxIdlePerHost = 0, tp_IdleConnTimeout = 0\<rparr>"

definition pinnedTransport :: "config \<Rightarrow> string \<Rightarrow> transport" where
  "pinnedTransport cfg addr =
     (plain_transport (the (cfg_Dialer cfg)) (pinned_addr addr) (cfg_Timeout cfg))\<lparr>tp_DisableKeepAlives := addr \<noteq> []\<rparr>"

definition doh_transport :: "string \<Rightarrow> dialer \<Rightarrow> int \<Rightarrow> transport" where
  "doh_transport bootstrap d timeout =
     (plain_transport d (doh_addr bootstrap) timeout)
       \<lparr>tp_ForceHTTP2 := True, tp_MaxIdlePerHost := 2, tp_IdleConnTimeout := 30 * Second\<rparr>"

record http_options =
  ho_Dialer :: dialer
  ho_Timeout :: int
  ho_Addr :: string
  ho_Insecure :: bool
  ho_Signatures :: "sig_set option"

definition fetch_transport :: "http_options \<Rightarrow> transport" where
  "fetch_transport opts =
     (plain_transport (ho_Dialer opts) (\<lambda>addr. if ho_Addr opts \<noteq> [] then ho_Addr opts else addr) (ho_Timeout opts))
       \<lparr>tp_SkipVerify := ho_Insecure opts, tp_DisableKeepAlives := True,
        tp_ResponseHeaderTimeout := ho_Timeout opts\<rparr>"

record tls_opts =
  lo_Dialer :: dialer
  lo_Timeout :: int
  lo_NeutralSNI :: string

definition tlsOptions :: "config \<Rightarrow> tls_opts" where
  "tlsOptions cfg =
     \<lparr>lo_Dialer = the (cfg_Dialer cfg), lo_Timeout = cfg_Timeout cfg, lo_NeutralSNI = cfg_NeutralSNI cfg\<rparr>"

text \<open>The options of a target's request, for the address that accepted and the handshake's outcome.\<close>

definition fetchOptions :: "config \<Rightarrow> string \<Rightarrow> tls_outcome \<Rightarrow> http_options" where
  "fetchOptions cfg addr oc =
     \<lparr>ho_Dialer = the (cfg_Dialer cfg), ho_Timeout = cfg_Timeout cfg, ho_Addr = addr,
      ho_Insecure = (oc = TlsCertInvalid), ho_Signatures = cfg_Signatures cfg\<rparr>"

text \<open>The two dialers of package netx: directly, or through the proxy of a parsed URL.\<close>

definition Direct :: "int \<Rightarrow> dialer" where "Direct timeout = DirectDialer timeout"

record proxyDialer =
  pd_URL :: url
  pd_Timeout :: int

definition Proxied :: "url \<Rightarrow> int \<Rightarrow> proxyDialer" where
  "Proxied u timeout = \<lparr>pd_URL = u, pd_Timeout = timeout\<rparr>"

section \<open>The runner and the local checks\<close>

record runner =
  ru_cfg :: config

definition probe_New :: "sig_set \<Rightarrow> config \<Rightarrow> runner" where
  "probe_New builtin cfg = \<lparr>ru_cfg = fillDefaults builtin cfg\<rparr>"

text \<open>The two bytes of a query identifier: what the random source wrote into a zeroed array.\<close>

definition newID :: "byte \<Rightarrow> byte \<Rightarrow> 16 word" where
  "newID hi lo = be_word [hi, lo]"

text \<open>\<^verbatim>\<open>localnet.Config\<close>: a nil function or dialer is \<^const>\<open>None\<close>.\<close>

record local_config =
  lc_Dialer :: "(int \<Rightarrow> nat \<Rightarrow> string \<Rightarrow> goerr option \<times> int) option"
  lc_Timeout :: int
  lc_Baseline :: "string list"
  lc_Interfaces :: "(goerr + iface list) option"
  lc_Route :: "bool option"
  lc_Getenv :: "(string \<Rightarrow> string) option"
  lc_SystemProxy :: "string option"

text \<open>The real system, used where a field is not set.\<close>

record local_system =
  sy_Interfaces :: "goerr + os_iface list"
  sy_DialUDP :: "string \<Rightarrow> goerr option"
  sy_Getenv :: "string \<Rightarrow> string"
  sy_SystemProxy :: string

definition fill_local :: "local_system \<Rightarrow> local_config \<Rightarrow> local_config" where
  "fill_local sys cfg =
     (let c1 = (if lc_Interfaces cfg = None then cfg\<lparr>lc_Interfaces := Some (SystemInterfaces (sy_Interfaces sys))\<rparr> else cfg);
          c2 = (if lc_Route c1 = None then c1\<lparr>lc_Route := Some (HasDefaultRoute (sy_DialUDP sys))\<rparr> else c1);
          c3 = (if lc_Getenv c2 = None then c2\<lparr>lc_Getenv := Some (sy_Getenv sys)\<rparr> else c2);
          c4 = (if lc_SystemProxy c3 = None then c3\<lparr>lc_SystemProxy := Some (sy_SystemProxy sys)\<rparr> else c3)
      in if lc_Timeout c4 \<le> 0 then c4\<lparr>lc_Timeout := 3 * Second\<rparr> else c4)"

definition local_Check_config :: "local_system \<Rightarrow> local_config \<Rightarrow> local_result" where
  "local_Check_config sys cfg0 =
     (let cfg = fill_local sys cfg0 in
      local_Check
        \<lparr>le_Interfaces = the (lc_Interfaces cfg), le_Route = the (lc_Route cfg), le_Getenv = the (lc_Getenv cfg),
         le_SystemProxy = the (lc_SystemProxy cfg), le_HasDialer = lc_Dialer cfg \<noteq> None,
         le_Dial = (case lc_Dialer cfg of None \<Rightarrow> (\<lambda>i a. (None, 0)) | Some d \<Rightarrow> d (lc_Timeout cfg))\<rparr>
        (lc_Baseline cfg))"

text \<open>The defaults leave a configuration that is complete, and the runner keeps what was set.\<close>

lemma fill_local_complete:
  "lc_Interfaces (fill_local sys cfg) \<noteq> None" "lc_Route (fill_local sys cfg) \<noteq> None"
  "lc_Getenv (fill_local sys cfg) \<noteq> None" "lc_SystemProxy (fill_local sys cfg) \<noteq> None"
  "0 < lc_Timeout (fill_local sys cfg)"
  "lc_Dialer (fill_local sys cfg) = lc_Dialer cfg" "lc_Baseline (fill_local sys cfg) = lc_Baseline cfg"
  by (auto simp: fill_local_def Let_def Second_def)

text \<open>Without a route or a dialer no baseline host is dialed.\<close>

lemma local_Check_config_baseline:
  "lr_Baseline (local_Check_config sys cfg) \<noteq> [] \<longleftrightarrow>
     the (lc_Route (fill_local sys cfg)) \<and> lc_Dialer cfg \<noteq> None \<and> lc_Baseline cfg \<noteq> []"
  by (cases "lc_Baseline cfg") (simp_all add: local_Check_config_def local_Check_def Let_def fill_local_complete)

text \<open>
  Whatever name or address a URL asks for, the request of a target and its speed test are dialed at
  the address they are given, and a DoH query at its bootstrap address.
\<close>

lemma dialed_address:
  "addr \<noteq> [] \<Longrightarrow> tp_DialAddr (pinnedTransport cfg addr) a = addr"
  "addr \<noteq> [] \<Longrightarrow> tp_DialAddr (fetch_transport (fetchOptions cfg addr oc)) a = addr"
  "addr \<noteq> [] \<Longrightarrow> tp_DialAddr (doh_transport addr d timeout) a = addr"
  "tp_DialAddr (pinnedTransport cfg []) a = a" "tp_DialAddr (doh_transport [] d timeout) a = a"
  by (simp_all add: pinnedTransport_def doh_transport_def fetch_transport_def fetchOptions_def
      plain_transport_def pinned_addr_def doh_addr_def)

text \<open>Certificates are not verified only when the verifying handshake already rejected them.\<close>

lemma skip_verify:
  "tp_SkipVerify (fetch_transport (fetchOptions cfg addr oc)) \<longleftrightarrow> oc = TlsCertInvalid"
  "\<not> tp_SkipVerify (pinnedTransport cfg addr)" "\<not> tp_SkipVerify (doh_transport b d timeout)"
  by (simp_all add: pinnedTransport_def doh_transport_def fetch_transport_def fetchOptions_def plain_transport_def)

section \<open>Flags\<close>

text \<open>The help and the parser know the same flags, each of them once and of the same kind.\<close>

lemma flag_table_names:
  "map fst (filter (\<lambda>f. fst (snd f) = BoolFlag) flag_table) = bool_flags"
  "map fst (filter (\<lambda>f. fst (snd f) \<noteq> BoolFlag) flag_table) = value_flags"
  "distinct (map fst flag_table)"
  unfolding flag_table_def bool_flags_def value_flags_def by auto

section \<open>The command\<close>

text \<open>\<^verbatim>\<open>main\<close>: the arguments after the program's name, and the exit status of the process.\<close>

definition main_exit :: "cli_env \<Rightarrow> string list \<Rightarrow> int option" where
  "main_exit e argv = (case argv of [] \<Rightarrow> None | prog # args \<Rightarrow> Some (out_Code (Main e args)))"

end
