(* ===== verification/Testutil.thy ===== *)
theory Testutil
  imports Priority "HOL-Library.Multiset"
begin

text \<open>
  Package testutil: the fake network services the tests of the repository run against. The files
  testutil.go (DNS over UDP and over HTTPS, certificates), tlsserver.go (a TLS server that resets
  or stalls handshakes by server name) and dialer.go (a dialer with black holes). Sockets, key
  generation and certificate signing are parameters; \<^verbatim>\<open>t.Fatal\<close> is the left summand.

  The fakes matter for the verification because they are written against the same wire format and
  the same behaviours the program decides on: the theorems put client and server together.
\<close>

section \<open>The fake name servers\<close>

type_synonym answers = "string \<rightharpoonup> addr list"

text \<open>\<^verbatim>\<open>Addrs\<close>; \<^verbatim>\<open>MustParseAddr\<close> panics on a bad address: \<^const>\<open>None\<close>.\<close>

fun Addrs :: "string list \<Rightarrow> addr list option" where
  "Addrs [] = Some []"
| "Addrs (a # s) =
     (case ParseAddr a of None \<Rightarrow> None
      | Some x \<Rightarrow> (case Addrs s of None \<Rightarrow> None | Some out \<Rightarrow> Some (x # out)))"

definition respond :: "answers \<Rightarrow> bytes \<Rightarrow> bytes option" where
  "respond a query =
     (case ParseQuestion query of
        Inl err \<Rightarrow> None
      | Inr q \<Rightarrow>
          (let entry = a (to_lower (q_Name q));
               rcode = (if entry = None then RCodeNXDomain else RCodeSuccess);
               addrs = (case entry of None \<Rightarrow> [] | Some as \<Rightarrow> as)
           in case Answer q rcode addrs of Inl err \<Rightarrow> None | Inr msg \<Rightarrow> Some msg))"

text \<open>The set of dropped names, as the loop over the variadic argument fills it.\<close>

definition drop_set :: "string list \<Rightarrow> string \<Rightarrow> bool" where
  "drop_set names = foldl (\<lambda>dropped n. dropped(to_lower n := True)) (\<lambda>_. False) names"

record dns_server =
  ds_Addr :: string
  ds_Queries :: "64 word"

text \<open>
  One pass through the server's loop: a datagram of a client, read into the buffer. (Names are ASCII,
  as for \<open>sameName\<close>, so \<^verbatim>\<open>strings.ToLower\<close> is \<open>to_lower\<close>.)
\<close>

definition server_buffer :: nat where "server_buffer = 1500"

definition serve_datagram ::
  "answers \<Rightarrow> (string \<Rightarrow> bool) \<Rightarrow> dns_server \<Rightarrow> bytes \<Rightarrow> dns_server \<times> bytes option" where
  "serve_datagram answers dropped s datagram =
     (let buf = take server_buffer datagram;
          s' = s\<lparr>ds_Queries := ds_Queries s + 1\<rparr>
      in case ParseQuestion buf of
           Inr q \<Rightarrow> if dropped (to_lower (q_Name q)) then (s', None) else (s', respond answers buf)
         | Inl err \<Rightarrow> (s', respond answers buf))"

text \<open>What \<^verbatim>\<open>ReadFrom\<close> gave: a datagram and its sender, or an error that ends the loop.\<close>

datatype 'peer read_event = Received bytes 'peer | ReadFailed goerr

fun serve_loop ::
  "answers \<Rightarrow> (string \<Rightarrow> bool) \<Rightarrow> dns_server \<Rightarrow> 'peer read_event list \<Rightarrow> dns_server \<times> (bytes \<times> 'peer) list" where
  "serve_loop answers dropped s [] = (s, [])"
| "serve_loop answers dropped s (ReadFailed err # evs) = (s, [])"
| "serve_loop answers dropped s (Received d from # evs) =
     (case serve_datagram answers dropped s d of (s', reply) \<Rightarrow>
        (case serve_loop answers dropped s' evs of (s'', sent) \<Rightarrow>
           (s'', (case reply of None \<Rightarrow> sent | Some resp \<Rightarrow> (resp, from) # sent))))"

text \<open>The servers, given what listening on a socket returned.\<close>

definition NewDroppingDNSServer :: "goerr + string \<Rightarrow> string list \<Rightarrow> goerr + dns_server \<times> (string \<Rightarrow> bool)" where
  "NewDroppingDNSServer listen names =
     (let dropped = drop_set names in
      case listen of
        Inl err \<Rightarrow> Inl err
      | Inr addr \<Rightarrow> Inr (\<lparr>ds_Addr = addr, ds_Queries = 0\<rparr>, dropped))"

definition NewDNSServer :: "goerr + string \<Rightarrow> goerr + dns_server \<times> (string \<Rightarrow> bool)" where
  "NewDNSServer listen = NewDroppingDNSServer listen []"

text \<open>
  The DoH handler. The body is what could be read of it: the error is ignored. \<^verbatim>\<open>http.Error\<close> writes
  its text and a newline.
\<close>

record http_request =
  rq_Method :: string
  rq_ContentType :: string
  rq_Body :: bytes

record http_reply =
  rp_Code :: int
  rp_ContentType :: string
  rp_Body :: bytes

definition http_Error :: "string \<Rightarrow> int \<Rightarrow> http_reply" where
  "http_Error msg code =
     \<lparr>rp_Code = code, rp_ContentType = ''text/plain; charset=utf-8'', rp_Body = bytes_of (msg @ [char_of (10::nat)])\<rparr>"

definition DoHHandler :: "answers \<Rightarrow> http_request \<Rightarrow> http_reply" where
  "DoHHandler answers r =
     (if rq_Method r \<noteq> ''POST'' \<or> rq_ContentType r \<noteq> ''application/dns-message''
      then http_Error ''bad request'' 400
      else (case respond answers (rq_Body r) of
          None \<Rightarrow> http_Error ''bad query'' 400
        | Some resp \<Rightarrow> \<lparr>rp_Code = 200, rp_ContentType = ''application/dns-message'', rp_Body = resp\<rparr>))"

text \<open>The request a DoH client sends for a query.\<close>

definition doh_request :: "bytes \<Rightarrow> http_request" where
  "doh_request q = \<lparr>rq_Method = ''POST'', rq_ContentType = ''application/dns-message'', rq_Body = q\<rparr>"

section \<open>A client and the fake server\<close>

text \<open>
  A UDP exchange over a loss-free link: the query the client writes, the server's pass over it, and
  its reply, if any, as the only datagram the client receives before the read fails.
\<close>

definition loopback ::
  "answers \<Rightarrow> (string \<Rightarrow> bool) \<Rightarrow> dns_server \<Rightarrow> 16 word \<Rightarrow> string \<Rightarrow> goerr \<Rightarrow> dns_server \<times> udp_obs" where
  "loopback answers dropped s qid host readErr =
     (case Query qid host TypeA of
        Inl e \<Rightarrow> (s, \<lparr>uo_Dial = None, uo_Write = None, uo_Datagrams = [], uo_ReadErr = readErr\<rparr>)
      | Inr q \<Rightarrow>
          (case serve_datagram answers dropped s q of (s', reply) \<Rightarrow>
             (s', \<lparr>uo_Dial = None, uo_Write = None,
                   uo_Datagrams = (case reply of None \<Rightarrow> [] | Some m \<Rightarrow> [m]), uo_ReadErr = readErr\<rparr>)))"

definition doh_loopback :: "answers \<Rightarrow> string \<Rightarrow> doh_obs" where
  "doh_loopback answers host =
     (case Query 0 host TypeA of
        Inl e \<Rightarrow> DoHRequestErr (wire_error e)
      | Inr q \<Rightarrow>
          (let r = DoHHandler answers (doh_request q) in DoHResponse (rp_Code r) (rp_Body r) None))"

text \<open>What a lookup against these answers should give.\<close>

definition expected_lookup :: "answers \<Rightarrow> string \<Rightarrow> goerr + addr list" where
  "expected_lookup answers host =
     (case answers (to_lower (trim_suffix host ''.'')) of
        None \<Rightarrow> Inl ErrNXDomain
      | Some as \<Rightarrow> (case filter addr_Is4 as of [] \<Rightarrow> Inl ErrNoAnswer | v4 \<Rightarrow> Inr v4))"

lemma drop_set_iff: "drop_set names n \<longleftrightarrow> n \<in> to_lower ` set names"
proof -
  have "foldl (\<lambda>dropped n. dropped(to_lower n := True)) f names n \<longleftrightarrow> f n \<or> n \<in> to_lower ` set names" for f
    by (induction names arbitrary: f) auto
  then show ?thesis by (simp add: drop_set_def)
qed

lemma serve_datagram_queries [simp]:
  "ds_Queries (fst (serve_datagram answers dropped s d)) = ds_Queries s + 1"
  "ds_Addr (fst (serve_datagram answers dropped s d)) = ds_Addr s"
  by (simp_all add: serve_datagram_def Let_def split: sum.splits)

text \<open>The counter counts every datagram read, answered or not.\<close>

lemma serve_loop_queries:
  "ds_Queries (fst (serve_loop answers dropped s evs)) =
     ds_Queries s + of_nat (length (takeWhile (\<lambda>e. case e of Received d p \<Rightarrow> True | ReadFailed x \<Rightarrow> False) evs))"
proof (induction evs arbitrary: s)
  case Nil
  then show ?case by simp
next
  case (Cons e evs)
  show ?case
  proof (cases e)
    case (Received d p)
    obtain s' reply where S: "serve_datagram answers dropped s d = (s', reply)" by fastforce
    then have "ds_Queries s' = ds_Queries s + 1"
      using serve_datagram_queries(1) [of answers dropped s d] by simp
    then show ?thesis using Cons.IH [of s'] by (simp add: Received S case_prod_beta)
  qed simp
qed

lemma valid_name_no_dot:
  assumes "valid_name n"
  shows "trim_suffix n ''.'' = n"
proof (rule ccontr)
  assume "trim_suffix n ''.'' \<noteq> n"
  then obtain m where m: "n = m @ ''.''"
    by (auto simp: trim_suffix_def has_suffix_iff split: if_splits)
  have "split_on (CHR ''.'') (m @ ''.'') = split_on (CHR ''.'') m @ [[]]"
  proof (induction m)
    case (Cons c m)
    obtain w ws where "split_on (CHR ''.'') m = w # ws" by (cases "split_on (CHR ''.'') m") auto
    with Cons show ?case by simp
  qed simp
  then have "[] \<in> set (split_on (CHR ''.'') (m @ ''.''))" by simp
  then show False using assms by (auto simp: valid_name_def name_labels_def label_ok_def m)
qed

lemma length_enc_name:
  assumes "n \<noteq> []"
  shows "length (enc_name n) = length n + 2"
proof -
  have "length (concat (map enc_label ls)) = length (str_join ls [d]) + 1" if "ls \<noteq> []" for ls d
    using that
  proof (induction ls "[d]" rule: str_join.induct)
    case (3 w v ws)
    then show ?case by (simp add: enc_label_def)
  qed (simp_all add: enc_label_def)
  from this [of "split_on (CHR ''.'') n" "CHR ''.''"] show ?thesis
    by (simp add: enc_name_def name_labels_def)
qed

lemma answered_A: "answered TypeA as = filter addr_Is4 as"
proof -
  have "without_zone a = a" if "addr_Is4 a" for a using that by (cases a) auto
  then show ?thesis by (induction "as") (auto simp: answer_rdata_def TypeA_def TypeAAAA_def)
qed

lemma collect_v4_filter: "collect_v4 (filter addr_Is4 as) = filter addr_Is4 as"
proof (induction "as")
  case (Cons a as)
  then show ?case by (cases a) simp_all
qed simp

lemma length_answer_records: "length (answer_records TypeA as) = 16 * length (filter addr_Is4 as)"
proof (induction "as")
  case (Cons a as)
  then show ?case by (cases a) (simp_all add: answer_rdata_def answer_record_def TypeA_def TypeAAAA_def)
qed simp

text \<open>The addresses the server would send for a host.\<close>

definition served :: "answers \<Rightarrow> string \<Rightarrow> addr list" where
  "served answers host =
     (case answers (to_lower (trim_suffix host ''.'')) of None \<Rightarrow> [] | Some as \<Rightarrow> filter addr_Is4 as)"

lemma respond_query:
  assumes v: "valid_name (trim_suffix host ''.'')"
    and labels: "length (name_labels (trim_suffix host ''.'')) \<le> 63"
    and count: "length (served answers host) \<le> 76"
  shows "\<exists>q msg resp. Query qid host TypeA = Inr q \<and> length q \<le> 1500
    \<and> (\<exists>qu. ParseQuestion q = Inr qu \<and> q_Name qu = trim_suffix host ''.'')
    \<and> respond answers q = Some msg \<and> length msg \<le> 1500 \<and> Parse msg = Inr resp
    \<and> rsp_ID resp = qid \<and> q_Name (rsp_Question resp) = trim_suffix host ''.''
    \<and> addrsFrom resp = expected_lookup answers host"
proof -
  let ?n = "trim_suffix host ''.''"
  let ?as = "case answers (to_lower ?n) of None \<Rightarrow> [] | Some as \<Rightarrow> as"
  let ?rc = "if answers (to_lower ?n) = None then RCodeNXDomain else RCodeSuccess"
  let ?qu = "\<lparr>q_ID = qid, q_Name = ?n, q_Type = TypeA, q_Class = ClassIN\<rparr>"
  have trim: "trim_suffix ?n ''.'' = ?n" by (rule valid_name_no_dot [OF v])
  have sv: "served answers host = filter addr_Is4 ?as" by (simp add: served_def split: option.split)
  have n: "?n \<noteq> []" "length ?n \<le> 253" using v by (simp_all add: valid_name_def)
  then have enc: "length (enc_name ?n) \<le> 255" using length_enc_name by simp
  obtain q where q: "Query qid host TypeA = Inr q" "ParseQuestion q = Inr ?qu"
    using query_readback [OF v, of qid TypeA] labels by auto
  have "length q \<le> 1500" using Query_bytes [OF v, of qid TypeA] q(1) enc by auto
  have vq: "valid_name (trim_suffix (q_Name ?qu) ''.'')" "length (name_labels (trim_suffix (q_Name ?qu) ''.'')) \<le> 63"
    "length (answered (q_Type ?qu) ?as) < 65536"
    using v labels count by (simp_all add: trim answered_A sv)
  obtain msg where msg: "Answer ?qu ?rc ?as = Inr msg"
    and parse: "Parse msg = Inr \<lparr>rsp_ID = qid, rsp_RCode = ?rc mod 16, rsp_Truncated = False,
      rsp_Question = ?qu, rsp_Addrs = filter addr_Is4 ?as\<rparr>"
    using answer_parsed [OF vq, of ?rc] by (auto simp: trim answered_A)
  have "length msg \<le> 1500"
    using Answer_bytes [OF vq(1), of ?rc ?as] msg enc count by (auto simp: trim length_answer_records sv)
  have "respond answers q = Some msg"
    using q(2) msg by (simp add: respond_def Let_def)
  have "addrsFrom \<lparr>rsp_ID = qid, rsp_RCode = ?rc mod 16, rsp_Truncated = False,
      rsp_Question = ?qu, rsp_Addrs = filter addr_Is4 ?as\<rparr> = expected_lookup answers host"
    by (simp add: addrsFrom_def expected_lookup_def RCodeSuccess_def RCodeNXDomain_def collect_v4_filter Let_def
        split: option.split list.split)
  with q \<open>length q \<le> 1500\<close> \<open>length msg \<le> 1500\<close> \<open>respond answers q = Some msg\<close> parse show ?thesis
    by fastforce
qed

lemma lookups_served:
  assumes "valid_name (trim_suffix host ''.'')"
    and "length (name_labels (trim_suffix host ''.'')) \<le> 63"
    and "length (served answers host) \<le> 76"
  shows "UDP_Lookup qid (snd (loopback answers dropped s qid host readErr)) host =
      (if dropped (to_lower (trim_suffix host ''.'')) then Inl readErr else expected_lookup answers host)
    \<and> DoH_Lookup (doh_loopback answers host) host = expected_lookup answers host
    \<and> ds_Queries (fst (loopback answers dropped s qid host readErr)) = ds_Queries s + 1"
proof (intro conjI)
  let ?n = "trim_suffix host ''.''"
  obtain q qu msg resp where q: "Query qid host TypeA = Inr q" "length q \<le> 1500" "ParseQuestion q = Inr qu" "q_Name qu = ?n"
    and msg: "respond answers q = Some msg" "length msg \<le> 1500" "Parse msg = Inr resp"
    and resp: "rsp_ID resp = qid" "q_Name (rsp_Question resp) = ?n" "addrsFrom resp = expected_lookup answers host"
    using respond_query [OF assms, of qid] by blast
  have same: "sameName ?n host"
    by (simp add: sameName_def valid_name_no_dot [OF assms(1)])
  have serve: "serve_datagram answers dropped s q =
      (s\<lparr>ds_Queries := ds_Queries s + 1\<rparr>, if dropped (to_lower ?n) then None else Some msg)"
    using q msg by (simp add: serve_datagram_def server_buffer_def Let_def)
  show "UDP_Lookup qid (snd (loopback answers dropped s qid host readErr)) host =
      (if dropped (to_lower ?n) then Inl readErr else expected_lookup answers host)"
    using msg(2) by (simp add: UDP_Lookup_def udpExchange_def loopback_def q serve udp_buffer_def msg resp same)
  show "ds_Queries (fst (loopback answers dropped s qid host readErr)) = ds_Queries s + 1"
    by (simp add: loopback_def q serve)
next
  obtain q msg resp where q: "Query 0 host TypeA = Inr q"
    and msg: "respond answers q = Some msg" "length msg \<le> 1500" "Parse msg = Inr resp"
    and resp: "addrsFrom resp = expected_lookup answers host"
    using respond_query [OF assms, of 0] by blast
  have "take 65535 msg = msg" using msg(2) by simp
  then show "DoH_Lookup (doh_loopback answers host) host = expected_lookup answers host"
    by (simp add: DoH_Lookup_def doh_loopback_def q DoHHandler_def doh_request_def msg resp doh_limit_def Let_def)
qed

text \<open>
  Claim C14. Client and server understand each other: a UDP lookup answered by the fake server and
  a DoH lookup answered by its handler both return exactly the IPv4 addresses listed for the host
  (whatever its case, with or without the final dot), NXDOMAIN for a host that is not listed and
  "no addresses" for one without an IPv4 address; a dropped name gives the read error of the
  deadline instead. Either way the server counts one query. (The answer must fit the client's
  buffer: 76 addresses and a name of 63 labels always do.)
\<close>

theorem fake_server_lookup:
  assumes "valid_name (trim_suffix host ''.'')"
    and "length (name_labels (trim_suffix host ''.'')) \<le> 63"
    and "length (served answers host) \<le> 76"
  shows "UDP_Lookup qid (snd (loopback answers dropped s qid host readErr)) host =
      (if dropped (to_lower (trim_suffix host ''.'')) then Inl readErr else expected_lookup answers host)
    \<and> DoH_Lookup (doh_loopback answers host) host = expected_lookup answers host
    \<and> ds_Queries (fst (loopback answers dropped s qid host readErr)) = ds_Queries s + 1"
  using assms by (rule lookups_served)

definition sample_answers :: answers where
  "sample_answers = [''example.com'' \<mapsto> [V6 1 [], V4 (v4_of 1 2 3 4)]]"

definition deadline_error :: goerr where
  "deadline_error = GoErr KOsDeadline (Some True) True ''read udp: i/o timeout'' []"

definition sample_server :: dns_server where
  "sample_server = \<lparr>ds_Addr = ''127.0.0.1:5300'', ds_Queries = 0\<rparr>"

theorem fake_server_lookup_witness:
  "UDP_Lookup 7 (snd (loopback sample_answers (drop_set [''X.com'']) sample_server 7 ''example.com.'' deadline_error)) ''example.com.''
     = Inr [V4 (v4_of 1 2 3 4)]"
proof -
  have t: "trim_suffix ''example.com.'' ''.'' = ''example.com''" and l: "to_lower ''example.com'' = ''example.com''"
    by code_simp+
  have v: "valid_name (trim_suffix ''example.com.'' ''.'')"
    and n: "length (name_labels (trim_suffix ''example.com.'' ''.'')) \<le> 63"
    using valid_example(1) unfolding t by (simp_all add: name_labels_def)
  have c: "length (served sample_answers ''example.com.'') \<le> 76"
    unfolding served_def t l by (simp add: sample_answers_def)
  have d: "\<not> drop_set [''X.com''] ''example.com''" by code_simp
  show ?thesis
    using fake_server_lookup [OF v n c, of 7 "drop_set [''X.com'']" sample_server deadline_error] d
    unfolding expected_lookup_def t l by (simp add: sample_answers_def)
qed

section \<open>The misbehaving TLS server\<close>

record tls_options =
  so_ResetSNI :: "string list"
  so_StallSNI :: "string list"
  so_ResetAll :: bool
  so_Addr :: string

text \<open>\<^verbatim>\<open>contains\<close>: \<^verbatim>\<open>EqualFold\<close> on ASCII names.\<close>

fun list_contains :: "string list \<Rightarrow> string \<Rightarrow> bool" where
  "list_contains [] s = False"
| "list_contains (x # xs) s = (if to_lower x = to_lower s then True else list_contains xs s)"

text \<open>
  What happens to a ClientHello: the connection is reset, or it is left alone for a while and then
  closed, or the handshake goes on.
\<close>

datatype hello_result = ServeHandshake | ResetConn goerr | StallThenClose int goerr

definition GetConfigForClient :: "tls_options \<Rightarrow> string \<Rightarrow> hello_result" where
  "GetConfigForClient opts serverName =
     (let sni = to_lower serverName in
      if so_ResetAll opts \<or> list_contains (so_ResetSNI opts) sni
      then ResetConn (errors_New ''reset by test middlebox'')
      else if list_contains (so_StallSNI opts) sni
      then StallThenClose (30 * Second) (errors_New ''dropped by test middlebox'')
      else ServeHandshake)"

text \<open>The server, given what listening on an address returns: its address and its policy.\<close>

definition ServeTLS :: "(string \<Rightarrow> goerr + string) \<Rightarrow> tls_options \<Rightarrow> goerr + string \<times> (string \<Rightarrow> hello_result)" where
  "ServeTLS listen opts =
     (let addr = (if so_Addr opts = [] then ''127.0.0.1:0'' else so_Addr opts) in
      case listen addr of Inl err \<Rightarrow> Inl err | Inr a \<Rightarrow> Inr (a, GetConfigForClient opts))"

text \<open>The calls made on a connection, in order.\<close>

datatype conn_op = SetLinger int | CloseConn | SetReadDeadline int | ReadBytes nat

definition Reset :: "bool \<Rightarrow> conn_op list" where
  "Reset is_tcp = (if is_tcp then [SetLinger 0] else []) @ [CloseConn]"

text \<open>The accept loop of \<^verbatim>\<open>ServeReset\<close>: \<^const>\<open>None\<close> is the error that ends it.\<close>

fun reset_loop :: "bool option list \<Rightarrow> conn_op list list" where
  "reset_loop [] = []"
| "reset_loop (None # cs) = []"
| "reset_loop (Some is_tcp # cs) =
     ([SetReadDeadline (2 * Second), ReadBytes 1] @ Reset is_tcp) # reset_loop cs"

section \<open>The black-hole dialer\<close>

record fake_dialer =
  fd_Blackhole :: "string \<Rightarrow> bool"
  fd_Redirect :: "string \<rightharpoonup> string"
  fd_Dials :: "string list"

text \<open>\<^verbatim>\<open>net.OpError\<close> without addresses: its text, its \<^verbatim>\<open>Timeout\<close> method, what it wraps.\<close>

definition op_error :: "string \<Rightarrow> string \<Rightarrow> goerr \<Rightarrow> goerr" where
  "op_error op network e =
     GoErr KPlain (Some (err_timeout e = Some True)) True
       (op @ (if network = [] then [] else '' '' @ network) @ '': '' @ err_text e) [e]"

definition FakeDialer_DialContext ::
  "fake_dialer \<Rightarrow> goerr \<Rightarrow> (string \<Rightarrow> string \<Rightarrow> goerr + 'conn) \<Rightarrow> string \<Rightarrow> string \<Rightarrow> fake_dialer \<times> (goerr + 'conn)" where
  "FakeDialer_DialContext f ctxErr dial network addr =
     (let f' = f\<lparr>fd_Dials := fd_Dials f @ [addr]\<rparr> in
      if fd_Blackhole f addr then (f', Inl (op_error ''dial'' network ctxErr))
      else (let addr' = (case fd_Redirect f addr of Some to_addr \<Rightarrow> to_addr | None \<Rightarrow> addr)
            in (f', dial network addr')))"

fun count_from :: "string list \<Rightarrow> string \<Rightarrow> int \<Rightarrow> int" where
  "count_from [] addr n = n"
| "count_from (a # as) addr n = (if a = addr then count_from as addr (n + 1) else count_from as addr n)"

definition Count :: "fake_dialer \<Rightarrow> string \<Rightarrow> int" where
  "Count f addr = count_from (fd_Dials f) addr 0"

section \<open>Throwaway certificates\<close>

text \<open>
  \<^verbatim>\<open>x509.Certificate\<close> as far as the sources fill it, and what the crypto packages return: a key, a
  random serial number, a signed certificate for a template, a parsed one, a parsed IP address.
\<close>

record 'ip x509_cert =
  xc_Serial :: int
  xc_CommonName :: string
  xc_Organization :: "string list"
  xc_NotBefore :: int
  xc_NotAfter :: int
  xc_IsCA :: bool
  xc_CertSign :: bool
  xc_DigitalSignature :: bool
  xc_ServerAuth :: bool
  xc_BasicConstraintsValid :: bool
  xc_IPAddresses :: "'ip list"
  xc_DNSNames :: "string list"

record ('key, 'ip) crypto =
  cr_GenerateKey :: "goerr + 'key"
  cr_Serial :: int
  cr_Create :: "'ip x509_cert \<Rightarrow> 'ip x509_cert \<Rightarrow> 'key \<Rightarrow> 'key \<Rightarrow> goerr + bytes"
  cr_Parse :: "bytes \<Rightarrow> goerr + 'ip x509_cert"
  cr_ParseIP :: "string \<Rightarrow> 'ip option"

record ('key, 'ip) ca =
  ca_Cert :: "'ip x509_cert"
  ca_Key :: 'key
  ca_Pool :: "'ip x509_cert list"

definition Hour :: int where "Hour = 3600 * Second"

definition ca_template :: "int \<Rightarrow> int \<Rightarrow> string \<Rightarrow> 'ip x509_cert" where
  "ca_template now1 now2 org =
     \<lparr>xc_Serial = 1, xc_CommonName = org @ '' Root'', xc_Organization = [org], xc_NotBefore = now1 - Hour,
      xc_NotAfter = now2 + 24 * Hour, xc_IsCA = True, xc_CertSign = True, xc_DigitalSignature = True,
      xc_ServerAuth = False, xc_BasicConstraintsValid = True, xc_IPAddresses = [], xc_DNSNames = []\<rparr>"

definition NewCA :: "('key, 'ip) crypto \<Rightarrow> int \<Rightarrow> int \<Rightarrow> string \<Rightarrow> goerr + ('key, 'ip) ca" where
  "NewCA cr now1 now2 org =
     (case cr_GenerateKey cr of
        Inl err \<Rightarrow> Inl err
      | Inr key \<Rightarrow>
          (let tmpl = ca_template now1 now2 org in
           case cr_Create cr tmpl tmpl key key of
             Inl err \<Rightarrow> Inl err
           | Inr der \<Rightarrow>
               (case cr_Parse cr der of
                  Inl err \<Rightarrow> Inl err
                | Inr cert \<Rightarrow> Inr \<lparr>ca_Cert = cert, ca_Key = key, ca_Pool = [cert]\<rparr>)))"

text \<open>The loop over the names of a leaf.\<close>

fun add_names :: "(string \<Rightarrow> 'ip option) \<Rightarrow> 'ip x509_cert \<Rightarrow> string list \<Rightarrow> 'ip x509_cert" where
  "add_names parse tmpl [] = tmpl"
| "add_names parse tmpl (n # ns) =
     (case parse n of
        Some ip \<Rightarrow> add_names parse (tmpl\<lparr>xc_IPAddresses := xc_IPAddresses tmpl @ [ip]\<rparr>) ns
      | None \<Rightarrow> add_names parse (tmpl\<lparr>xc_DNSNames := xc_DNSNames tmpl @ [n]\<rparr>) ns)"

text \<open>\<^verbatim>\<open>names[0]\<close> panics without a name: \<^const>\<open>None\<close>.\<close>

definition LeafValidity ::
  "('key, 'ip) crypto \<Rightarrow> ('key, 'ip) ca \<Rightarrow> int \<Rightarrow> int \<Rightarrow> string list \<Rightarrow> (goerr + bytes \<times> 'key) option" where
  "LeafValidity cr authority notBefore notAfter names =
     (case cr_GenerateKey cr of
        Inl err \<Rightarrow> Some (Inl err)
      | Inr key \<Rightarrow>
          (case names of
             [] \<Rightarrow> None
           | name0 # _ \<Rightarrow>
               (let tmpl = \<lparr>xc_Serial = cr_Serial cr, xc_CommonName = name0, xc_Organization = [],
                       xc_NotBefore = notBefore, xc_NotAfter = notAfter, xc_IsCA = False, xc_CertSign = False,
                       xc_DigitalSignature = True, xc_ServerAuth = True, xc_BasicConstraintsValid = False,
                       xc_IPAddresses = [], xc_DNSNames = []\<rparr>
                in case cr_Create cr (add_names (cr_ParseIP cr) tmpl names) (ca_Cert authority) key (ca_Key authority) of
                     Inl err \<Rightarrow> Some (Inl err)
                   | Inr der \<Rightarrow> Some (Inr (der, key)))))"

definition Leaf :: "('key, 'ip) crypto \<Rightarrow> ('key, 'ip) ca \<Rightarrow> int \<Rightarrow> int \<Rightarrow> string list \<Rightarrow> (goerr + bytes \<times> 'key) option" where
  "Leaf cr authority now1 now2 names = LeafValidity cr authority (now1 - Hour) (now2 + 24 * Hour) names"

section \<open>Facts about the fakes\<close>

lemma list_contains_iff: "list_contains xs s \<longleftrightarrow> to_lower s \<in> to_lower ` set xs"
  by (induction xs) auto

text \<open>The names a server does not shake hands with.\<close>

definition refused_name :: "tls_options \<Rightarrow> string \<Rightarrow> bool" where
  "refused_name opts n \<longleftrightarrow> so_ResetAll opts \<or> to_lower n \<in> to_lower ` set (so_ResetSNI opts @ so_StallSNI opts)"

lemma GetConfigForClient_serve: "GetConfigForClient opts n = ServeHandshake \<longleftrightarrow> \<not> refused_name opts n"
  by (auto simp: GetConfigForClient_def refused_name_def list_contains_iff Let_def)

lemma Count_eq: "Count f addr = int (count_list (fd_Dials f) addr)"
proof -
  have "count_from xs addr n = n + int (count_list xs addr)" for xs n
    by (induction xs arbitrary: n) auto
  then show ?thesis by (simp add: Count_def)
qed

text \<open>
  The dials of goroutines that share the dialer are serialised by its mutex, in some order: the
  counts depend only on which calls were made.
\<close>

definition run_dials :: "fake_dialer \<Rightarrow> goerr \<Rightarrow> (string \<Rightarrow> string \<Rightarrow> goerr + 'conn) \<Rightarrow> (string \<times> string) list \<Rightarrow> fake_dialer" where
  "run_dials f ctxErr dial calls =
     foldl (\<lambda>g (network, addr). fst (FakeDialer_DialContext g ctxErr dial network addr)) f calls"

lemma run_dials_Dials: "fd_Dials (run_dials f ctxErr dial calls) = fd_Dials f @ map snd calls"
proof -
  have step: "fd_Dials (fst (FakeDialer_DialContext g ctxErr dial network addr)) = fd_Dials g @ [addr]" for g network addr
    by (simp add: FakeDialer_DialContext_def Let_def)
  show ?thesis unfolding run_dials_def
    by (induction calls arbitrary: f) (auto simp: step)
qed

lemma Count_order:
  assumes "mset calls = mset calls'"
  shows "Count (run_dials f ctxErr dial calls) addr = Count (run_dials f ctxErr dial calls') addr"
proof -
  have "count_list xs a = count (mset xs) a" for xs and a :: string
    by (induction xs) auto
  moreover have "mset (map snd calls) = mset (map snd calls')" using assms by (metis mset_map)
  ultimately show ?thesis by (simp add: Count_eq run_dials_Dials)
qed

text \<open>A black hole looks like a dropped SYN to the TCP probe.\<close>

lemma blackhole_timeout:
  assumes "err_kind e = KContextDeadline" and "err_wraps e = []"
    and "fd_Blackhole f (addr_port_String a)"
  shows "tcp_Outcome (tcp_Probe (\<lambda>addr.
      (case snd (FakeDialer_DialContext f e dial ''tcp'' addr) of Inl err \<Rightarrow> Some err | Inr c \<Rightarrow> None, d)) a) = TcpTimeout"
proof -
  obtain t tmp s where e: "e = GoErr KContextDeadline t tmp s []" using assms(1,2) by (cases e) auto
  have "Classify (Some (op_error ''dial'' ''tcp'' e)) = KindTimeout"
    by (simp add: Classify_def classify_typed_def op_error_def err_is_def e)
  then show ?thesis
    using assms(3) by (simp add: tcp_Probe_def tcp_FromError_def FakeDialer_DialContext_def Let_def)
qed

lemma add_names_spec:
  "xc_IPAddresses (add_names parse tmpl ns) = xc_IPAddresses tmpl @ List.map_filter parse ns
   \<and> xc_DNSNames (add_names parse tmpl ns) = xc_DNSNames tmpl @ filter (\<lambda>n. parse n = None) ns"
  by (induction ns arbitrary: tmpl) (auto simp: List.map_filter_def split: option.split)

section \<open>The middlebox is recognised\<close>

text \<open>
  The handshakes of a client with the server: the name in each ClientHello, as crypto/tls sends it
  (\<open>sni_of\<close>), and what the client sees of each answer (\<open>seen\<close>).
\<close>

definition middlebox ::
  "tls_options \<Rightarrow> (string \<Rightarrow> string) \<Rightarrow> (hello_result \<Rightarrow> tls_obs) \<Rightarrow> string \<Rightarrow> string \<Rightarrow> tls_call \<Rightarrow> tls_obs" where
  "middlebox opts sni_of seen host neutral call =
     seen (GetConfigForClient opts (case call of
        CallReal \<Rightarrow> sni_of host | CallNeutral \<Rightarrow> sni_of neutral | CallNoSNI \<Rightarrow> []))"

lemma tls_Do_error:
  "to_DialErr obs = None \<Longrightarrow> to_HandshakeErr obs = Some e \<Longrightarrow>
     hs_Outcome (tls_Do x obs sni host) = tls_fromError (Some e)"
  by (simp add: tls_Do_def Let_def empty_handshake_def)

lemma tls_Do_done:
  "to_DialErr obs = None \<Longrightarrow> to_HandshakeErr obs = None \<Longrightarrow>
     hs_Outcome (tls_Do x obs sni host) \<in> {TlsOK, TlsCertInvalid}"
  using tls_Do_OK_iff [of x obs sni host] tls_Do_CertInvalid_iff [of x obs sni host] by auto

text \<open>One handshake with the server: what its policy does to a name decides the outcome.\<close>

lemma hello_outcome:
  assumes dial: "\<And>h. to_DialErr (seen h) = None"
    and reset: "\<And>e. Classify (to_HandshakeErr (seen (ResetConn e))) = KindReset"
    and stall: "\<And>d e. Classify (to_HandshakeErr (seen (StallThenClose d e))) = KindTimeout"
    and serve: "to_HandshakeErr (seen ServeHandshake) = None"
  shows "hs_Outcome (tls_Do x (seen (GetConfigForClient opts n)) sni vh) \<in>
      (if refused_name opts n
       then {if so_ResetAll opts \<or> list_contains (so_ResetSNI opts) n then TlsReset else TlsTimeout}
       else {TlsOK, TlsCertInvalid})"
proof (cases "GetConfigForClient opts n")
  case ServeHandshake
  moreover from this have "\<not> refused_name opts n" by (simp add: GetConfigForClient_serve)
  ultimately show ?thesis using tls_Do_done [OF dial serve] by simp
next
  case (ResetConn e)
  then have r: "refused_name opts n" using GetConfigForClient_serve [of opts n] by simp
  obtain err where err: "to_HandshakeErr (seen (ResetConn e)) = Some err"
    using reset [of e] by (cases "to_HandshakeErr (seen (ResetConn e))") (auto simp: Classify_def)
  have "tls_fromError (Some err) = TlsReset" using reset [of e] err by (simp add: tls_fromError_def)
  then have "hs_Outcome (tls_Do x (seen (ResetConn e)) sni vh) = TlsReset"
    using tls_Do_error [OF dial err] by simp
  moreover have "so_ResetAll opts \<or> list_contains (so_ResetSNI opts) n"
    using ResetConn by (auto simp: GetConfigForClient_def Let_def list_contains_iff split: if_splits)
  ultimately show ?thesis using r by (simp add: ResetConn)
next
  case (StallThenClose d e)
  then have r: "refused_name opts n" using GetConfigForClient_serve [of opts n] by simp
  obtain err where err: "to_HandshakeErr (seen (StallThenClose d e)) = Some err"
    using stall [of d e] by (cases "to_HandshakeErr (seen (StallThenClose d e))") (auto simp: Classify_def)
  have "tls_fromError (Some err) = TlsTimeout" using stall [of d e] err by (simp add: tls_fromError_def)
  then have "hs_Outcome (tls_Do x (seen (StallThenClose d e)) sni vh) = TlsTimeout"
    using tls_Do_error [OF dial err] by simp
  moreover have "\<not> (so_ResetAll opts \<or> list_contains (so_ResetSNI opts) n)"
    using StallThenClose by (auto simp: GetConfigForClient_def Let_def list_contains_iff split: if_splits)
  ultimately show ?thesis using r by (simp add: StallThenClose)
qed

lemma Decide_SNI_iff:
  "d_Verdict (Decide inp) = SNIFiltered \<longleftrightarrow> working inp \<noteq> None \<and> (\<exists>t. in_TLS inp = Some t \<and> SNI_filtered t)"
  using working_down [of inp] by (auto simp: Decide_path_definite path_definite tlsDecision_SNI)

text \<open>
  Claim C13. The probe and the verdict engine recognise the middlebox the fake server imitates, for
  every list of reset and stalled names. If the client sees a reset as a reset, a stalled
  handshake as a timeout and a served one as completed, then a target whose name is refused gets
  SNI_FILTERED exactly when the neutral name or the empty one is served; a server that refuses
  them all is told apart as CONNECTION_RESET or, when the real name stalls, IP_BLOCKED; and a name
  that is served never gets SNI_FILTERED.
\<close>

theorem fake_middlebox_verdict:
  assumes dial: "\<And>h. to_DialErr (seen h) = None"
    and reset: "\<And>e. Classify (to_HandshakeErr (seen (ResetConn e))) = KindReset"
    and stall: "\<And>d e. Classify (to_HandshakeErr (seen (StallThenClose d e))) = KindTimeout"
    and serve: "to_HandshakeErr (seen ServeHandshake) = None"
    and conn: "ts_Working (Summarize (in_TCP inp)) \<noteq> None"
    and tls: "in_TLS inp = Some (tls_Check x (middlebox opts sni_of seen host neutral) neutral addr host)"
    and neutral: "neutral \<noteq> []"
  shows "if refused_name opts (sni_of host)
    then d_Verdict (Decide inp) =
      (if \<not> refused_name opts (sni_of neutral) \<or> \<not> refused_name opts [] then SNIFiltered
       else if so_ResetAll opts \<or> list_contains (so_ResetSNI opts) (sni_of host) then ConnectionReset
       else IPBlocked)
    else d_Verdict (Decide inp) \<noteq> SNIFiltered"
proof -
  let ?net = "middlebox opts sni_of seen host neutral"
  let ?t = "tls_Check x ?net neutral addr host"
  note hello = hello_outcome [of seen, OF dial reset stall serve]
  have rl: "tls_Do x (?net CallReal) sni vh = tls_Do x (seen (GetConfigForClient opts (sni_of host))) sni vh"
    and ne: "tls_Do x (?net CallNeutral) sni vh = tls_Do x (seen (GetConfigForClient opts (sni_of neutral))) sni vh"
    and no: "tls_Do x (?net CallNoSNI) sni vh = tls_Do x (seen (GetConfigForClient opts [])) sni vh" for sni vh
    by (simp_all add: middlebox_def)
  have blocked: "Blocked (tls_Do x (seen (GetConfigForClient opts n)) sni vh) \<longleftrightarrow> refused_name opts n"
    and reached: "Reached (tls_Do x (seen (GetConfigForClient opts n)) sni vh) \<longleftrightarrow> \<not> refused_name opts n" for n sni vh
    using hello [of x opts n sni vh] by (auto simp: Blocked_def Reached_def split: if_splits)
  have filtered: "SNI_filtered ?t \<longleftrightarrow> refused_name opts (sni_of host)
      \<and> (\<not> refused_name opts (sni_of neutral) \<or> \<not> refused_name opts [])"
    using neutral by (simp add: SNI_filtered_Check rl ne no blocked reached)
  have rout: "hs_Outcome (tls_Real ?t) \<in>
      (if refused_name opts (sni_of host)
       then {if so_ResetAll opts \<or> list_contains (so_ResetSNI opts) (sni_of host) then TlsReset else TlsTimeout}
       else {TlsOK, TlsCertInvalid})"
    using hello [of x opts "sni_of host" host host] by (simp only: tls_Check_real rl)
  obtain w where w: "working inp = Some w" using conn by auto
  have D: "d_Verdict (Decide inp) = first_rule (verdict_rules inp)" by (rule Decide_rules)
  have SNI: "d_Verdict (Decide inp) = SNIFiltered \<longleftrightarrow> SNI_filtered ?t"
    using Decide_SNI_iff [of inp] w tls by auto
  show ?thesis
  proof (cases "refused_name opts (sni_of host) \<and> \<not> SNI_filtered ?t")
    case True
    then have "d_Verdict (Decide inp) = (if hs_Outcome (tls_Real ?t) = TlsTimeout then IPBlocked else ConnectionReset)"
      using rout w tls
      by (simp add: D verdict_rules_def Let_def no_connection_def on_handshake_def Blocked_def split: if_splits)
    with True rout filtered show ?thesis by (auto split: if_splits)
  next
    case False
    with SNI filtered show ?thesis by auto
  qed
qed

definition sample_policy :: tls_options where
  "sample_policy = \<lparr>so_ResetSNI = [''Blocked.example''], so_StallSNI = [''slow.example''], so_ResetAll = False, so_Addr = []\<rparr>"

fun sample_seen :: "hello_result \<Rightarrow> tls_obs" where
  "sample_seen ServeHandshake = ok_obs"
| "sample_seen (ResetConn e) = reset_obs"
| "sample_seen (StallThenClose d e) = ok_obs\<lparr>to_HandshakeErr := Some deadline_error\<rparr>"

definition middlebox_input :: input where
  "middlebox_input =
     \<lparr>in_Local = None, in_Intercept = None, in_DNS = empty_analysis,
      in_TCP = [\<lparr>tcp_Addr = (V4 (v4_of 1 2 3 4), 443), tcp_Outcome = TcpOK, tcp_Err = None, tcp_Duration = 5\<rparr>],
      in_TLS = Some (tls_Check (\<lambda>_ _ _. None)
        (middlebox sample_policy (\<lambda>n. n) sample_seen ''blocked.example'' ''example.com'') ''example.com''
        ''1.2.3.4:443'' ''blocked.example''),
      in_Verify = None, in_HTTP = None, in_Outage = None, in_Speed = None, in_Signatures = None\<rparr>"

theorem fake_middlebox_verdict_witness:
  "d_Verdict (Decide middlebox_input) = SNIFiltered"
proof -
  have 1: "to_DialErr (sample_seen h) = None" for h
    by (cases h) (simp_all add: ok_obs_def reset_obs_def)
  have 2: "Classify (to_HandshakeErr (sample_seen (ResetConn e))) = KindReset" for e
    by (simp add: reset_obs_def Classify_def classify_typed_def err_is_def)
  have 3: "Classify (to_HandshakeErr (sample_seen (StallThenClose d e))) = KindTimeout" for d e
    by (simp add: deadline_error_def Classify_def classify_typed_def err_is_def)
  have 4: "to_HandshakeErr (sample_seen ServeHandshake) = None" by (simp add: ok_obs_def)
  have 5: "ts_Working (Summarize (in_TCP middlebox_input)) \<noteq> None" by code_simp
  have 6: "in_TLS middlebox_input = Some (tls_Check (\<lambda>_ _ _. None)
      (middlebox sample_policy (\<lambda>n. n) sample_seen ''blocked.example'' ''example.com'') ''example.com''
      ''1.2.3.4:443'' ''blocked.example'')"
    by (simp add: middlebox_input_def)
  have 7: "''example.com'' \<noteq> []" by simp
  have 8: "refused_name sample_policy ''blocked.example''" "\<not> refused_name sample_policy ''example.com''"
    by code_simp+
  show ?thesis
    using fake_middlebox_verdict [of sample_seen, OF 1 2 3 4 5 6 7] 8 by simp
qed

end
