(* ===== verification/Scenario.thy ===== *)
theory Scenario
  imports Testutil Probe
begin

text \<open>
  From the tables of name servers to the verdict: the fake servers of testutil as the resolvers of a
  configuration, the way the repository's tests wire them up, checked by the runner and judged by
  the engine. One theorem says, of the tables alone, when a DNS finding is reported.
\<close>

section \<open>Name servers as resolvers\<close>

text \<open>A plain server: the answers it lists and the names whose queries it drops.\<close>

type_synonym zone = "answers \<times> string list"

definition zone_lookup :: "16 word \<Rightarrow> zone \<Rightarrow> string \<Rightarrow> goerr + addr list" where
  "zone_lookup qid z host =
     UDP_Lookup qid (snd (loopback (fst z) (drop_set (snd z)) sample_server qid host deadline_error)) host"

definition udp_against :: "16 word \<Rightarrow> zone \<Rightarrow> resolver" where
  "udp_against qid z =
     \<lparr>rv_Name = ''fake'', rv_Kind = KindUDP, rv_Lookup = (\<lambda>timeout host. (zone_lookup qid z host, 0))\<rparr>"

definition doh_against :: "answers \<Rightarrow> resolver" where
  "doh_against answers =
     \<lparr>rv_Name = ''fake-doh'', rv_Kind = KindDoH,
      rv_Lookup = (\<lambda>timeout host. (DoH_Lookup (doh_loopback answers host) host, 0))\<rparr>"

definition resolvers_against :: "16 word \<Rightarrow> zone \<Rightarrow> zone list \<Rightarrow> answers list \<Rightarrow> resolvers" where
  "resolvers_against qid sys pubs dohs =
     \<lparr>rs_System = Some (udp_against qid sys), rs_Public = map (udp_against qid) pubs,
      rs_DoH = map doh_against dohs\<rparr>"

text \<open>What a plain server gives away of a host, and whether its answer fits a datagram.\<close>

definition zone_served :: "zone \<Rightarrow> string \<Rightarrow> addr list" where
  "zone_served z host =
     (if drop_set (snd z) (to_lower (trim_suffix host ''.'')) then [] else served (fst z) host)"

definition host_ok :: "string \<Rightarrow> bool" where
  "host_ok host \<longleftrightarrow>
     valid_name (trim_suffix host ''.'') \<and> length (name_labels (trim_suffix host ''.'')) \<le> 63"

definition table_fits :: "string \<Rightarrow> answers \<Rightarrow> bool" where
  "table_fits host answers \<longleftrightarrow> length (served answers host) \<le> 76"

section \<open>The answers\<close>

definition addrs_of :: "goerr + addr list \<Rightarrow> addr list" where
  "addrs_of res = (case res of Inl e \<Rightarrow> [] | Inr as \<Rightarrow> as)"

lemma expected_lookup_addrs:
  "addrs_of (expected_lookup answers host) = served answers host"
  "expected_lookup answers host = Inr as \<Longrightarrow> as \<noteq> []"
  by (auto simp: expected_lookup_def served_def addrs_of_def split: option.splits list.splits)

lemma zone_lookup_addrs:
  assumes "host_ok host" and "table_fits host (fst z)"
  shows "addrs_of (zone_lookup qid z host) = zone_served z host"
    and "zone_lookup qid z host = Inr as \<Longrightarrow> as \<noteq> []"
  using lookups_served [of host "fst z" qid "drop_set (snd z)" sample_server deadline_error] assms
    expected_lookup_addrs [of "fst z" host]
  by (auto simp: zone_lookup_def host_ok_def table_fits_def zone_served_def addrs_of_def split: if_splits)

lemma doh_lookup_addrs:
  assumes "host_ok host" and "table_fits host answers"
  shows "addrs_of (DoH_Lookup (doh_loopback answers host) host) = served answers host"
    and "DoH_Lookup (doh_loopback answers host) host = Inr as \<Longrightarrow> as \<noteq> []"
  using lookups_served [of host answers 0 "\<lambda>_. False" sample_server deadline_error] assms
    expected_lookup_addrs [of answers host]
  by (auto simp: host_ok_def table_fits_def)

lemma answer_of_addrs:
  assumes "rv_Lookup r timeout host = (res, d)" and "\<And>as. res = Inr as \<Longrightarrow> as \<noteq> []"
  shows "da_Addrs (lookup_answer timeout host r) = addrs_of res"
    and "answer_OK (lookup_answer timeout host r) \<longleftrightarrow> addrs_of res \<noteq> []"
    and "FailureKind (lookup_answer timeout host r) = [] \<longleftrightarrow> addrs_of res \<noteq> []"
  using assms
  by (cases res; auto simp: lookup_answer_def addrs_of_def answer_OK_def FailureKind_def split: errkind.splits)+

lemma udp_answer [simp]:
  assumes "host_ok host" and "table_fits host (fst z)"
  shows "da_Addrs (lookup_answer timeout host (udp_against qid z)) = zone_served z host"
    and "answer_OK (lookup_answer timeout host (udp_against qid z)) \<longleftrightarrow> zone_served z host \<noteq> []"
    and "FailureKind (lookup_answer timeout host (udp_against qid z)) = [] \<longleftrightarrow> zone_served z host \<noteq> []"
    and "da_Resolver (lookup_answer timeout host (udp_against qid z)) \<noteq> []"
proof -
  have "rv_Lookup (udp_against qid z) timeout host = (zone_lookup qid z host, 0)"
    by (simp add: udp_against_def)
  from answer_of_addrs [OF this zone_lookup_addrs(2) [OF assms]]
  show "da_Addrs (lookup_answer timeout host (udp_against qid z)) = zone_served z host"
    and "answer_OK (lookup_answer timeout host (udp_against qid z)) \<longleftrightarrow> zone_served z host \<noteq> []"
    and "FailureKind (lookup_answer timeout host (udp_against qid z)) = [] \<longleftrightarrow> zone_served z host \<noteq> []"
    by (simp_all add: zone_lookup_addrs(1) [OF assms])
  show "da_Resolver (lookup_answer timeout host (udp_against qid z)) \<noteq> []"
    by (simp add: lookup_answer_def udp_against_def)
qed

lemma doh_answer [simp]:
  assumes "host_ok host" and "table_fits host answers"
  shows "da_Addrs (lookup_answer timeout host (doh_against answers)) = served answers host"
    and "answer_OK (lookup_answer timeout host (doh_against answers)) \<longleftrightarrow> served answers host \<noteq> []"
proof -
  have "rv_Lookup (doh_against answers) timeout host = (DoH_Lookup (doh_loopback answers host) host, 0)"
    by (simp add: doh_against_def)
  from answer_of_addrs(1,2) [OF this doh_lookup_addrs(2) [OF assms]]
  show "da_Addrs (lookup_answer timeout host (doh_against answers)) = served answers host"
    and "answer_OK (lookup_answer timeout host (doh_against answers)) \<longleftrightarrow> served answers host \<noteq> []"
    by (simp_all add: doh_lookup_addrs(1) [OF assms])
qed


section \<open>The analysis of the tables\<close>

text \<open>Every table's answer fits; the addresses DoH gives; a plain server that lists a bad address.\<close>

definition tables_ok :: "string \<Rightarrow> zone list \<Rightarrow> answers list \<Rightarrow> bool" where
  "tables_ok host zones dohs \<longleftrightarrow>
     host_ok host \<and> list_all (\<lambda>z. table_fits host (fst z)) zones \<and> list_all (table_fits host) dohs"

definition trusted :: "string \<Rightarrow> answers list \<Rightarrow> addr set" where
  "trusted host dohs = (\<Union>T \<in> set dohs. set (served T host))"

definition bad_zone :: "sig_set \<Rightarrow> string \<Rightarrow> answers list \<Rightarrow> zone \<Rightarrow> bool" where
  "bad_zone sigs host dohs z \<longleftrightarrow>
     (\<exists>ip \<in> set (zone_served z host).
        IsBlockIP sigs ip \<or> (IsBogon ip \<and> (\<exists>a \<in> trusted host dohs. \<not> IsBogon a)))"

lemma tables_okD:
  assumes "tables_ok host zones dohs"
  shows "host_ok host" and "z \<in> set zones \<Longrightarrow> table_fits host (fst z)" and "T \<in> set dohs \<Longrightarrow> table_fits host T"
  using assms by (auto simp: tables_ok_def list_all_iff)

lemma plain_against:
  "plain (resolved host (resolvers_against qid sys pubs dohs) timeout) =
     map (\<lambda>z. lookup_answer timeout host (udp_against qid z)) (sys # pubs)"
  "dr_DoH (resolved host (resolvers_against qid sys pubs dohs) timeout) =
     map (\<lambda>T. lookup_answer timeout host (doh_against T)) dohs"
  by (simp_all add: plain_def resolved_def resolvers_against_def)

lemma reference_against:
  assumes "tables_ok host (sys # pubs) dohs" and "trusted host dohs \<noteq> {}"
  shows "set (an_Reference (Analyze (resolved host (resolvers_against qid sys pubs dohs) timeout) sigs))
    = trusted host dohs"
proof -
  let ?r = "resolved host (resolvers_against qid sys pubs dohs) timeout"
  note ok = tables_okD [OF assms(1)]
  obtain T where T: "T \<in> set dohs" "served T host \<noteq> []" using assms(2) by (auto simp: trusted_def)
  have ans: "(\<exists>ans \<in> set (dr_DoH ?r). P ans) \<longleftrightarrow> (\<exists>T \<in> set dohs. P (lookup_answer timeout host (doh_against T)))" for P
    by (simp add: plain_against)
  have OK: "\<exists>ans \<in> set (dr_DoH ?r). answer_OK ans"
    unfolding ans using T ok by (intro bexI [of _ T]) simp_all
  show ?thesis
  proof (rule set_eqI)
    fix a
    have "a \<in> set (an_Reference (Analyze ?r sigs)) \<longleftrightarrow>
        (\<exists>T \<in> set dohs. answer_OK (lookup_answer timeout host (doh_against T))
           \<and> a \<in> set (da_Addrs (lookup_answer timeout host (doh_against T))))"
      unfolding Analyze_doh_reference [OF OK] by (rule ans)
    also have "\<dots> \<longleftrightarrow> (\<exists>T \<in> set dohs. a \<in> set (served T host))"
      using ok by (intro bex_cong refl) auto
    finally show "a \<in> set (an_Reference (Analyze ?r sigs)) \<longleftrightarrow> a \<in> trusted host dohs"
      by (simp add: trusted_def)
  qed
qed

lemma poisoned_against:
  assumes "tables_ok host (sys # pubs) dohs" and "trusted host dohs \<noteq> {}"
  shows "Poisoned (Analyze (resolved host (resolvers_against qid sys pubs dohs) timeout) sigs)
    \<longleftrightarrow> (\<exists>z \<in> set (sys # pubs). bad_zone sigs host dohs z)"
proof -
  let ?r = "resolved host (resolvers_against qid sys pubs dohs) timeout"
  note ok = tables_okD [OF assms(1)]
  have ans: "(\<exists>ans \<in> set (plain ?r). P ans) \<longleftrightarrow> (\<exists>z \<in> set (sys # pubs). P (lookup_answer timeout host (udp_against qid z)))" for P
    unfolding plain_against(1) by (simp del: udp_answer)
  show ?thesis
    unfolding Poisoned_iff reference_against [OF assms] ans bad_zone_def
  proof (intro bex_cong refl)
    fix z assume "z \<in> set (sys # pubs)"
    note fit = udp_answer(1,2) [OF ok(1) ok(2) [OF this]]
    show "(answer_OK (lookup_answer timeout host (udp_against qid z)) \<and>
          (\<exists>ip \<in> set (da_Addrs (lookup_answer timeout host (udp_against qid z))).
             IsBlockIP sigs ip \<or> (IsBogon ip \<and> (\<exists>a \<in> trusted host dohs. \<not> IsBogon a)))) \<longleftrightarrow>
        (\<exists>ip \<in> set (zone_served z host).
           IsBlockIP sigs ip \<or> (IsBogon ip \<and> (\<exists>a \<in> trusted host dohs. \<not> IsBogon a)))"
      unfolding fit by auto
  qed
qed


section \<open>The verdict\<close>

lemma checkTarget_resolvable:
  assumes "checkTarget cfg net t sh = (st, sh')"
    and "an_Reference (Analyze (resolved (target_Host t) (cfg_Resolvers cfg) (cfg_Timeout cfg)) (the (cfg_Signatures cfg))) \<noteq> []"
  shows "rn_analysis st = Analyze (resolved (target_Host t) (cfg_Resolvers cfg) (cfg_Timeout cfg)) (the (cfg_Signatures cfg))"
proof -
  obtain st1 sh1 st2 where L: "dns_layer cfg t sh = (st1, sh1)"
    "service_layers cfg net t (tcp_layer cfg net (verify_layer cfg net t st1)) sh1 = (st2, sh')"
    "st = outage_layer net t st2"
    using assms(1) by (rule checkTarget_layers)
  have "\<not> an_Unresolvable (Analyze (resolved (target_Host t) (cfg_Resolvers cfg) (cfg_Timeout cfg)) (the (cfg_Signatures cfg)))"
    using assms(2) by (simp add: Analyze_fields(1,8))
  then have "rn_analysis st1 = Analyze (resolved (target_Host t) (cfg_Resolvers cfg) (cfg_Timeout cfg)) (the (cfg_Signatures cfg))"
    using L(1) by (auto simp: dns_layer_def Resolve_resolved Let_def)
  then show ?thesis by (simp add: L(3) service_layers_fields [OF L(2)])
qed

text \<open>
  Claim C2. DNS tables and verdicts, end to end. The resolvers of a configuration are fake servers: one
  as the system's resolver, others as public resolvers and DoH servers, at least one DoH server
  lists the host, and the system server lists nothing for it or shares an address with DoH. Then a
  DNS verdict or a secondary DNS finding is reported, for whatever the rest of the network does,
  exactly when the machine is not offline and the system server drops the query or has no address
  for the host, or some plain server lists a known block-page address or, while DoH knows a public
  address, a bogon.
\<close>

theorem dns_servers_end_to_end:
  assumes "tables_ok (target_Host t) (sys # pubs) dohs"
    and "trusted (target_Host t) dohs \<noteq> {}"
    and "zone_served sys (target_Host t) = []
      \<or> set (zone_served sys (target_Host t)) \<inter> trusted (target_Host t) dohs \<noteq> {}"
    and "cfg_Resolvers cfg = resolvers_against qid sys pubs dohs"
    and "D = Decide (verdict_input cfg sh2 (fst (checkTarget cfg net t sh)))"
  shows "is_dns_verdict (d_Verdict D) \<or> d_Also D \<noteq> [] \<longleftrightarrow>
    d_Verdict D \<noteq> LocalNetworkDown
    \<and> (zone_served sys (target_Host t) = []
        \<or> (\<exists>z \<in> set (sys # pubs). bad_zone (the (cfg_Signatures cfg)) (target_Host t) dohs z))"
proof -
  let ?sigs = "the (cfg_Signatures cfg)"
  let ?r = "resolved (target_Host t) (resolvers_against qid sys pubs dohs) (cfg_Timeout cfg)"
  let ?inp = "verdict_input cfg sh2 (fst (checkTarget cfg net t sh))"
  obtain st sh' where R: "checkTarget cfg net t sh = (st, sh')" by fastforce
  note ref = reference_against [OF assms(1,2), of qid "cfg_Timeout cfg" ?sigs]
  have ne: "an_Reference (Analyze ?r ?sigs) \<noteq> []" using ref assms(2) by auto
  have A: "in_DNS ?inp = Analyze ?r ?sigs"
    using checkTarget_resolvable [OF R] ne by (simp add: verdict_input_def R assms(4))
  have sys: "dr_System ?r = lookup_answer (cfg_Timeout cfg) (target_Host t) (udp_against qid sys)"
    by (simp add: resolved_def resolvers_against_def)
  note fit = udp_answer [OF tables_okD(1,2) [OF assms(1)], of sys]
  have "an_Suspects (Analyze ?r ?sigs) = []"
    using assms(3) ref by (auto simp: Analyze_fields(5) Analyze_fields(1) [symmetric] sys fit)
  then have "\<not> mismatch ?inp" by (simp add: mismatch_def A)
  moreover have "an_SystemFailure (Analyze ?r ?sigs) \<noteq> [] \<longleftrightarrow> zone_served sys (target_Host t) = []"
    using ne by (simp add: Analyze_fields(7) Analyze_fields(1) [symmetric] sys fit)
  moreover have "\<not> an_Dropped (Analyze ?r ?sigs)" by (rule Analyze_fields(11))
  ultimately have "dns_problem ?inp \<longleftrightarrow> zone_served sys (target_Host t) = []
      \<or> (\<exists>z \<in> set (sys # pubs). bad_zone ?sigs (target_Host t) dohs z)"
    unfolding dns_problem_def A poisoned_against [OF assms(1,2)] by blast
  then show ?thesis
    using Decide_DNS_facts [of ?inp] down_of_None_iff [of ?inp] \<open>\<not> an_Dropped (Analyze ?r ?sigs)\<close>
    unfolding assms(5) A by blast
qed


text \<open>A system server that agrees with DoH, and a public one that answers with a block page.\<close>

definition clean_table :: answers where
  "clean_table = [''example.com'' \<mapsto> [V4 (v4_of 93 184 216 34)]]"

definition block_table :: answers where
  "block_table = [''example.com'' \<mapsto> [V4 (v4_of 10 10 34 34)]]"

definition scenario_config :: config where
  "scenario_config = config_of (resolvers_against 7 (clean_table, []) [(block_table, [])] [clean_table])"

definition scenario_target :: target where
  "scenario_target = no_target\<lparr>target_Host := ''example.com''\<rparr>"

theorem dns_servers_end_to_end_witness:
  "\<exists>D. D = Decide (verdict_input scenario_config no_shared
        (fst (checkTarget scenario_config dead_net scenario_target no_shared)))
     \<and> (is_dns_verdict (d_Verdict D) \<or> d_Also D \<noteq> [])"
proof -
  have host: "target_Host scenario_target = ''example.com''"
    and trim: "trim_suffix ''example.com'' ''.'' = ''example.com''" and low: "to_lower ''example.com'' = ''example.com''"
    by (code_simp, code_simp, code_simp)
  have dot: "trim_suffix ''example.com.'' ''.'' = ''example.com''" by code_simp
  note names = host trim low
  have T: "served clean_table ''example.com'' = [V4 (v4_of 93 184 216 34)]"
    "served block_table ''example.com'' = [V4 (v4_of 10 10 34 34)]"
    by (simp_all add: served_def names clean_table_def block_table_def)
  then have Z: "zone_served (clean_table, []) ''example.com'' = [V4 (v4_of 93 184 216 34)]"
    "zone_served (block_table, []) ''example.com'' = [V4 (v4_of 10 10 34 34)]"
    by (simp_all add: zone_served_def drop_set_def)
  have 1: "tables_ok (target_Host scenario_target) [(clean_table, []), (block_table, [])] [clean_table]"
    using valid_example(1) by (simp add: dot names tables_ok_def host_ok_def table_fits_def T name_labels_def)
  have 2: "trusted (target_Host scenario_target) [clean_table] = {V4 (v4_of 93 184 216 34)}"
    by (simp add: names trusted_def T)
  have sigs: "IsBlockIP (the (cfg_Signatures scenario_config)) (V4 (v4_of 10 10 34 34))"
    by code_simp
  have bad: "bad_zone (the (cfg_Signatures scenario_config)) (target_Host scenario_target) [clean_table] (block_table, [])"
    using sigs by (simp add: bad_zone_def names Z)
  have up: "d_Verdict (Decide (verdict_input scenario_config no_shared st)) \<noteq> LocalNetworkDown" for st
    by (simp add: Decide_local_down verdict_input_def no_shared_def)
  have res: "cfg_Resolvers scenario_config = resolvers_against 7 (clean_table, []) [(block_table, [])] [clean_table]"
    by (simp add: scenario_config_def config_of_def)
  show ?thesis
    using dns_servers_end_to_end [OF 1 _ _ res refl, of no_shared dead_net no_shared] 2 up bad
    by (simp add: host Z)
qed

end
