(* ===== verification/Spec2Isabelle.thy ===== *)
theory Spec2Isabelle
  imports Runner Support Shipped Clients Testutil Scenario
begin

text \<open>
  Chera explains why a service is unreachable. A verification development of its Go sources.

  \<^bold>\<open>The program.\<close> The command (internal/cli) reads flags and targets, merges presets and signatures,
  and hands a configuration and a list of targets to the runner (internal/probe). The runner checks
  every target in a goroutine of its own, at most \<^verbatim>\<open>Concurrency\<close> at a time, while two more
  goroutines test for DNS interception and check the local network. A target passes through layers:
  name resolution by several resolvers (dnscheck), TCP connections (tcpcheck), TLS handshakes with
  different server names (tlscheck), an HTTP request (httpcheck), a speed measurement (speed) and,
  when all of it looks clean and still fails, the service's status page (outage). The verdict engine
  (verdict) turns what was seen into one of thirteen verdicts with a confidence and a reason;
  evidence.go lists what was seen; i18n and report render the result as text, Markdown or JSON.

  \<^bold>\<open>Theories and code.\<close>
  \<^item> \<open>Chera_Prelude\<close>: bytes and text, ordered duplicate removal as a locale (\<open>ordered_dedup\<close>, used for
    the targets of a preset, the addresses of several answers and others), integers in decimal.
  \<^item> \<open>Model\<close> (model/model.go); \<open>Netip\<close>, \<open>Gonet\<close>, \<open>Gotime\<close>, \<open>Runes\<close>: the parts of net/netip, net, strconv,
    fmt, time and unicode/utf8 that the code relies on; \<open>Netx\<close> and \<open>Proxy\<close> (netx/netx.go, netx/proxy.go).
  \<^item> \<open>Dnswire\<close> (dnswire/dnswire.go), \<open>Signatures\<close> (signatures/signatures.go), \<open>Dnscheck\<close>
    (dnscheck/resolvers.go, dnscheck/check.go), \<open>Tcpcheck\<close>, \<open>Tlscheck\<close>, \<open>Httpcheck\<close>, \<open>Outage\<close>, \<open>Speed\<close>,
    \<open>Localnet\<close>: the packages of these names.
  \<^item> \<open>Verdict\<close> (verdict/verdict.go): \<open>Decide\<close> is split where the code's conditions are
    (\<open>dnsDecision\<close>, \<open>pathDecision\<close> and its parts for TCP, TLS, HTTP and speed) and put together as the code does.
    \<open>Priority\<close> is its specification, one table of causes in order of priority, and the proof that the
    engine picks the first row that holds.
  \<^item> \<open>Probe\<close>, \<open>Evidence\<close>, \<open>Runner\<close>, \<open>Defaults\<close> (probe/probe.go, evidence.go, defaults.go). \<open>checkTarget\<close> is
    one target through the layers. \<open>Runner\<close> is the concurrent run as a transition function \<open>exec\<close> over
    events of the goroutines: taking a slot of the semaphore, checking, releasing, the two run-wide
    checks, closing the channel, and deciding. \<open>Support\<close> ties the evidence to the verdict.
  \<^item> \<open>Presets\<close> (presets/presets.go), \<open>Messages\<close> and \<open>I18n\<close> (i18n/messages.go, i18n/i18n.go), \<open>Report\<close>
    (report/text.go, report/machine.go), \<open>Cli\<close> (cli/cli.go, cli/version.go). \<open>Shipped\<close> holds the two embedded
    files, presets/presets.yaml and signatures/signatures.yaml, as the values they decode to.
  \<^item> \<open>Clients\<close>: the HTTP transports and TLS options of probe.go, resolvers.go and httpcheck.go, the dialers of
    netx, the defaults of localnet and cmd/chera/main.go.
  \<^item> \<open>Testutil\<close> (testutil/testutil.go, tlsserver.go, dialer.go): the fake DNS, DoH and TLS servers of the
    tests and the black-hole dialer. Client and server are put together: a query goes through the
    encoder of the one, the parser and the encoder of the other and back. \<open>Scenario\<close> makes the fake
    servers the resolvers of a configuration and follows their tables to the verdict.

  \<^bold>\<open>Conventions.\<close> A struct is a record, a string-typed enumeration a datatype with its text, an error
  a value of type \<open>goerr\<close> that keeps what \<^verbatim>\<open>errors.As\<close> and \<^verbatim>\<open>errors.Is\<close> can see of it, a fallible result
  a sum with the error on the left. Strings are lists of bytes. Integers of the wire formats are words;
  a Go \<^verbatim>\<open>int\<close>, a duration or a count is an \<open>int\<close>, without overflow where the values are bounded by lengths and timeouts,
  and the binary64 divisions of speed.go are rounded as the hardware does. A read outside of a slice in the decoders
  is a value of its own (a panic), which is proved not to occur. A map that the code ranges over is
  an association list, and where the order could matter it is proved not to.

  \<^bold>\<open>What is observed instead of modelled.\<close> Sockets, the operating system, crypto/tls, crypto/x509,
  net/http, the YAML and JSON codecs, the Unicode tables, \<^verbatim>\<open>url.Parse\<close> and the clock are not under src/.
  Their answers are arguments: a lookup takes what the socket and the server returned, a handshake
  what the TLS stack returned, and so on; the properties hold for all of them. The record \<open>network\<close>
  collects these arguments for a target, \<open>run_env\<close> for a run and \<open>cli_env\<close> for the command.

  \<^bold>\<open>What the lemmas show.\<close>
  \<^item> Wire formats: encoded messages and requests are read back (DNS answers and questions, SOCKS5
    requests), decoders never index out of range, pointers do not loop.
  \<^item> Analysis: exact conditions for poisoned, suspect, dropped, injected and intercepted DNS; for SNI filtering; for
    verified TLS; which layers run and on which addresses; which signature a response is put down to.
  \<^item> Verdicts: exact conditions for the verdicts, that a DNS problem is never dropped from a
    decision, that a reason belongs to its verdict, that the engine is its table of priorities, and,
    through the whole pipeline, that OK means the service was seen to work, that a block-page address
    is always reported and that the evidence has a failed entry for every failure a verdict names.
  \<^item> Client and server: lookups against the fake servers return what these list, for every name and
    list of addresses that fits a datagram; what the tables of the name servers hold decides whether a DNS
    finding is reported; and a server that resets or stalls handshakes by name
    is recognised as an SNI filter exactly when it serves another name.
  \<^item> Shipped data: the embedded files load without a panic, every preset expands, every host finds its own
    entry, no signature is hidden behind another.
  \<^item> The run: the semaphore's bound, no deadlock, the end of every schedule, and that a
    complete run reports what checking the targets one by one would, whatever the schedule.
  \<^item> Output: every explanation has a message with all placeholders filled in both languages; the
    table is aligned; the Markdown rows keep their cells; summary and suggestions account for every target.
  \<^item> The command: which exit code and which output for which outcome, with the usage text as package flag
    lays it out; when a diagnosis starts, with the targets asked for and a complete configuration within
    its bounds; which arguments are targets, and exactly which target each is; and, from the command line
    to the network, that exit code 0 stands for every target seen to work, whatever the schedule.
  \<^item> Proxies: what is read from a dialed connection is what follows the words of the proxy, byte for byte.

  \<^bold>\<open>Termination and bounds.\<close> Fuel is used twice: \<open>read_name_loop\<close> counts the hops that the code counts
  (64), and the IPv6 parser of \<open>Netip\<close> has eight units, one for each group an address can have. The expansion of presets ends because each nested call has one more
  defined name on the stack; flag parsing because each step consumes an argument; replacing placeholders because
  each step consumes the message; a run because each event lowers a measure of at most four steps
  per target and three for the run-wide checks.

  \<^bold>\<open>Not modelled.\<close> \<^verbatim>\<open>ClosedAddr\<close>, \<^verbatim>\<open>discardLogger\<close> and \<^verbatim>\<open>SkipIfSlowRefusal\<close> of testutil, which only call the system;
  \<^verbatim>\<open>CloseIdle\<close>; the parent context of the environment; deadlines on connections; the cancellation of a
  context in the middle of a check, beyond the interrupted command.
\<close>

end
